theory Spec2Isabelle
  imports Main "HOL-Library.AList"
begin

section \<open>Python values shared by the modules\<close>

text \<open>
  The exceptions the modelled functions raise.  Each carries what the source puts into
  the message (or the name the interpreter reports), so that a theorem can say which
  table, key or variable an error is about.
\<close>

datatype py_error =
    ValueError string
  | KeyError string
  | IndexError
  | AttributeError string
  | UnboundLocalError string
  | TypeError string
  | OperationalError string

text \<open>\<open>str\<close> on a Python integer: decimal digits, with a leading minus sign.\<close>

definition digit_char :: "nat \<Rightarrow> char" where
  "digit_char d = ''0123456789'' ! d"

fun str_nat :: "nat \<Rightarrow> string" where
  "str_nat n = (if n < 10 then [digit_char n] else str_nat (n div 10) @ [digit_char (n mod 10)])"

declare str_nat.simps [simp del]

definition str_int :: "int \<Rightarrow> string" where
  "str_int i = (if i < 0 then CHR ''-'' # str_nat (nat (- i)) else str_nat (nat i))"

text \<open>
  The string methods the modules use: \<open>s.strip()\<close>, \<open>s.startswith(p)\<close>,
  \<open>s.split(ch)\<close> for a separator of one character, \<open>s.split(sep)\<close> for a longer
  one (cut at the leftmost occurrences, from left to right) and \<open>sub in s\<close>.
\<close>

definition is_space :: "char \<Rightarrow> bool" where
  "is_space ch = (ch \<in> set [CHR '' '', CHR 0x09, CHR 0x0A, CHR 0x0B, CHR 0x0C, CHR 0x0D])"

definition strip :: "string \<Rightarrow> string" where
  "strip s = rev (dropWhile is_space (rev (dropWhile is_space s)))"

definition startswith :: "string \<Rightarrow> string \<Rightarrow> bool" where
  "startswith s p = (take (length p) s = p)"

fun split_on :: "char \<Rightarrow> string \<Rightarrow> string list" where
  "split_on ch [] = [[]]"
| "split_on ch (x # xs) =
     (if x = ch then [] # split_on ch xs
      else (case split_on ch xs of w # ws \<Rightarrow> (x # w) # ws | [] \<Rightarrow> [[x]]))"

function split_str :: "string \<Rightarrow> string \<Rightarrow> string list" where
  "split_str sep s =
     (if s = [] then [[]]
      else if sep \<noteq> [] \<and> take (length sep) s = sep
        then [] # split_str sep (drop (length sep) s)
      else (case split_str sep (tl s) of w # ws \<Rightarrow> (hd s # w) # ws | [] \<Rightarrow> [[hd s]]))"
  by pat_completeness auto
termination by (relation "measure (\<lambda>(sep, s). length s)") auto

declare split_str.simps [simp del]

fun substring_in :: "string \<Rightarrow> string \<Rightarrow> bool" where
  "substring_in sub [] = (sub = [])"
| "substring_in sub (x # xs) = (take (length sub) (x # xs) = sub \<or> substring_in sub xs)"

text \<open>
  \<open>int(s)\<close> on a string, as Python 2 reads it (the \<open>print\<close> statements of
  \<open>transcript.py\<close> are Python 2): blanks around an optional sign and at least one
  decimal digit; anything else raises a \<open>ValueError\<close>.
\<close>

definition is_digit :: "char \<Rightarrow> bool" where
  "is_digit ch = (ch \<in> set ''0123456789'')"

definition digit_value :: "char \<Rightarrow> nat" where
  "digit_value ch = length (takeWhile (\<lambda>d. d \<noteq> ch) ''0123456789'')"

definition py_int :: "string \<Rightarrow> py_error + int" where
  "py_int s =
     (let t = strip s;
          (negative, digits) =
            (case t of
               [] \<Rightarrow> (False, [])
             | ch # rest \<Rightarrow>
                 if ch = CHR ''-'' then (True, rest)
                 else if ch = CHR ''+'' then (False, rest)
                 else (False, t))
      in if digits \<noteq> [] \<and> list_all is_digit digits then
           (let n = int (foldl (\<lambda>n ch. 10 * n + digit_value ch) 0 digits)
            in Inr (if negative then - n else n))
         else Inl (ValueError (''invalid literal for int() with base 10: '' @ s)))"

section \<open>transcript.py\<close>

text \<open>
  The attributes \<open>Transcript.__init__\<close> sets, each under the name
  \<open>T_\<close>attribute (the bare names stay free for the functions' parameters).
  \<open>exons\<close> is one flat list of positions; \<open>name\<close> and \<open>gene_id\<close> may be
  \<open>None\<close>.
\<close>

record Transcript =
  T_chromosome :: string
  T_start :: int
  T_end :: int
  T_strand :: string
  T_exons :: "int list"
  T_identifier :: string
  T_name :: "string option"
  T_gene_id :: "string option"

text \<open>
  \<open>Transcript.add_exon\<close>: the check raises before anything is assigned; otherwise the
  two-element list \<open>[exon_start, exon_end]\<close> is appended with \<open>+=\<close>, which extends
  \<open>self.exons\<close> element by element.  The result pairs the exception (if any) with the
  object as it is afterwards.
\<close>

definition add_exon :: "Transcript \<Rightarrow> int \<Rightarrow> int \<Rightarrow> py_error option \<times> Transcript" where
  "add_exon self exon_start exon_end =
     (if exon_start > exon_end then
        (Some (ValueError (''Exon start ('' @ str_int exon_start @ '')''
                           @ ''is supposed to be before the exon end (''
                           @ str_int exon_end @ '')'')), self)
      else
        (let exon = [exon_start, exon_end]
         in (None, self\<lparr>T_exons := T_exons self @ exon\<rparr>)))"

text \<open>
  \<open>(description.split(key)[1]).split('"')[1]\<close>: the text between the first two double
  quotes after the first occurrence of \<open>key\<close>.  Each of the two subscripts raises an
  \<open>IndexError\<close> when the split gave one piece only.
\<close>

definition quoted_after :: "string \<Rightarrow> string \<Rightarrow> py_error + string" where
  "quoted_after key description =
     (case split_str key description of
        _ # rest # _ \<Rightarrow>
          (case split_on (CHR 0x22) rest of
             _ # val # _ \<Rightarrow> Inr val
           | _ \<Rightarrow> Inl IndexError)
      | _ \<Rightarrow> Inl IndexError)"

text \<open>
  \<open>get_transcript_from_gtf\<close>, with the statements in the order of the source: the
  fields \<open>[0]\<close>, \<open>[-1]\<close>, \<open>int([3])\<close>, \<open>int([4])\<close> and \<open>[6]\<close> are read first
  (an \<open>IndexError\<close> on a short list, a \<open>ValueError\<close> from \<open>int\<close>), then the
  identifier, the name and the gene identifier are looked up in the description.  The
  constructor sets \<open>exons\<close> to the empty list.
\<close>

definition get_transcript_from_gtf :: "string list \<Rightarrow> py_error + Transcript" where
  "get_transcript_from_gtf transcript_info =
     (if transcript_info = [] then Inl IndexError
      else
       (let chromosome = transcript_info ! 0;
            description = last transcript_info
        in if length transcript_info < 4 then Inl IndexError
           else case py_int (transcript_info ! 3) of
             Inl err \<Rightarrow> Inl err
           | Inr start \<Rightarrow>
              if length transcript_info < 5 then Inl IndexError
              else case py_int (transcript_info ! 4) of
                Inl err \<Rightarrow> Inl err
              | Inr end_pos \<Rightarrow>
                 if length transcript_info < 7 then Inl IndexError
                 else
                  (let strand = transcript_info ! 6
                   in if \<not> substring_in ''transcript_id'' description then
                        Inl (ValueError ''GTF entry lacks a transcript_id field'')
                      else case quoted_after ''transcript_id '' description of
                        Inl err \<Rightarrow> Inl err
                      | Inr transcript_id \<Rightarrow>
                         (case (if substring_in ''transcript_name'' description
                                then map_sum id Some (quoted_after ''transcript_name '' description)
                                else Inr None) of
                            Inl err \<Rightarrow> Inl err
                          | Inr name \<Rightarrow>
                             (case (if substring_in ''gene_id'' description
                                    then map_sum id Some (quoted_after ''gene_id '' description)
                                    else Inr None) of
                                Inl err \<Rightarrow> Inl err
                              | Inr gene_id \<Rightarrow>
                                  Inr \<lparr>T_chromosome = chromosome, T_start = start,
                                       T_end = end_pos, T_strand = strand, T_exons = [],
                                       T_identifier = transcript_id, T_name = name,
                                       T_gene_id = gene_id\<rparr>)))))"

section \<open>initialize\_talon\_database.py\<close>

subsection \<open>Vertex and edge allocation\<close>

text \<open>
  The values that are stored in tuples and handed to the database: Python integers,
  strings and \<open>None\<close>.  Equality of \<open>pyval\<close> is Python's \<open>==\<close> on these
  (an integer never equals a string).
\<close>

datatype pyval = PInt int | PStr string | PNone

fun str :: "pyval \<Rightarrow> string" where
  "str (PInt i) = str_int i"
| "str (PStr s) = s"
| "str PNone = ''None''"

text \<open>\<open>sep.join(xs)\<close> on a list of strings.\<close>

fun join :: "string \<Rightarrow> string list \<Rightarrow> string" where
  "join sep [] = []"
| "join sep [x] = x"
| "join sep (x # y # ys) = x @ sep @ join sep (y # ys)"





subsection \<open>Reading the GTF file\<close>

text \<open>
  The attributes of an \<open>Edge\<close> that \<open>read_gtf_file\<close> reads.  The class itself
  (\<open>edge.py\<close>) is not among the sources, so the record is extensible: any further
  attribute lives in the \<open>more\<close> part.  \<open>transcript_ids\<close> is a Python set, kept as
  the list of its elements in iteration order; \<open>annotations\<close> is a dictionary.
\<close>

record Edge =
  edge_identifier :: string
  transcript_ids :: "string list"
  annotations :: "(string \<times> string) list"

text \<open>\<open>s.add(x)\<close> on a set kept as a list.\<close>

definition set_add :: "'a \<Rightarrow> 'a list \<Rightarrow> 'a list" where
  "set_add x xs = (if x \<in> set xs then xs else xs @ [x])"

text \<open>
  The operations of the modules \<open>gene\<close> and \<open>edge\<close>, which are not among the sources,
  are parameters: each may return an object or raise.  \<open>add_transcript\<close> returns the
  gene as it is after the call.  The module \<open>transcript\<close> that the file imports is
  \<open>transcript.py\<close> above.
\<close>

record ('g, 'x) gtf_classes =
  get_gene_from_gtf :: "string list \<Rightarrow> py_error + 'g"
  gene_identifier :: "'g \<Rightarrow> string"
  add_transcript :: "'g \<Rightarrow> Transcript \<Rightarrow> py_error + 'g"
  create_edge_from_gtf :: "string list \<Rightarrow> py_error + 'x Edge_scheme"

type_synonym ('g, 'x) gtf_dicts =
  "(string \<rightharpoonup> 'g) \<times> (string \<rightharpoonup> Transcript) \<times> (string \<rightharpoonup> 'x Edge_scheme)"

text \<open>
  The two branches of the test \<open>if location_exon_id not in exons\<close>, named after the
  comments of the source: ``Add the new edge to the data structure'' and ``Update
  existing exon entry, including its transcript set''.  The model of an \<open>exon\<close> entry
  returns the branch it took next to its outcome, so that a property can say which
  branch runs.
\<close>

datatype exon_branch = Add_new_edge | Update_existing_exon

text \<open>
  The \<open>exon\<close> branch of the loop body, after \<open>Edge.create_edge_from_gtf\<close> has
  returned \<open>exon\<close>.  The statements are kept in the order of the source: the store
  \<open>exons[location_exon_id] = exon\<close> comes first, then \<open>list(...)[0]\<close> (an
  \<open>IndexError\<close> on an empty set), then \<open>annotations["gene_id"]\<close> (a \<open>KeyError\<close>
  when missing), then the membership test with its two branches.  Last, for a
  transcript that is in \<open>transcripts\<close>, comes \<open>currTranscript.add_exon(exon)\<close>: the
  method of \<open>transcript.py\<close> is \<open>add_exon(self, exon_start, exon_end)\<close>, so the call
  with one argument raises a \<open>TypeError\<close> before the body runs.  The first component
  of the result is the branch of the test, \<open>None\<close> when an exception came before it.
\<close>

definition read_gtf_exon ::
  "('g, 'x) gtf_dicts \<Rightarrow> 'x Edge_scheme
     \<Rightarrow> exon_branch option \<times> (py_error + ('g, 'x) gtf_dicts)" where
  "read_gtf_exon dicts exon0 =
     (case dicts of (genes, transcripts, exons0) \<Rightarrow>
       (let location_exon_id = edge_identifier exon0;
            exons1 = exons0(location_exon_id \<mapsto> exon0)
        in case transcript_ids exon0 of
             [] \<Rightarrow> (None, Inl IndexError)
           | transcript_id # _ \<Rightarrow>
              (case map_of (annotations exon0) ''gene_id'' of
                 None \<Rightarrow> (None, Inl (KeyError ''gene_id''))
               | Some gene_id \<Rightarrow>
                  (let (branch, exons2, exon) =
                         (if location_exon_id \<notin> dom exons1 then
                            (Add_new_edge, exons1(location_exon_id \<mapsto> exon0), exon0)
                          else
                            (let exon = the (exons1 location_exon_id);
                                 exon' = exon\<lparr>transcript_ids :=
                                                set_add transcript_id (transcript_ids exon)\<rparr>
                             in (Update_existing_exon, exons1(location_exon_id \<mapsto> exon'),
                                 exon')))
                   in if transcript_id \<in> dom transcripts then
                        (Some branch,
                         Inl (TypeError ''add_exon() takes exactly 3 arguments (2 given)''))
                      else (Some branch, Inr (genes, transcripts, exons2))))))"

text \<open>
  One iteration of \<open>for line in gtf\<close>.  \<open>tab_fields[2]\<close> raises an
  \<open>IndexError\<close> on a line with fewer than three fields.  The first component lists the
  branch of the membership test when the line is an \<open>exon\<close> entry that reaches it.
\<close>

definition read_gtf_line ::
  "('g, 'x) gtf_classes \<Rightarrow> ('g, 'x) gtf_dicts \<Rightarrow> string
     \<Rightarrow> exon_branch list \<times> (py_error + ('g, 'x) gtf_dicts)" where
  "read_gtf_line M dicts line0 =
     (case dicts of (genes, transcripts, exons0) \<Rightarrow>
       (let line = strip line0
        in if startswith line ''#'' then ([], Inr dicts)
           else
            (let tab_fields = split_on (CHR 0x09) line
             in if length tab_fields < 3 then ([], Inl IndexError)
                else
                 (let entry_type = tab_fields ! 2
                  in if entry_type = ''gene'' then
                       (case get_gene_from_gtf M tab_fields of
                          Inl err \<Rightarrow> ([], Inl err)
                        | Inr gene \<Rightarrow>
                            ([], Inr (genes(gene_identifier M gene \<mapsto> gene), transcripts,
                                      exons0)))
                     else if entry_type = ''transcript'' then
                       (case get_transcript_from_gtf tab_fields of
                          Inl err \<Rightarrow> ([], Inl err)
                        | Inr transcript \<Rightarrow>
                           (let added =
                                  (case T_gene_id transcript of
                                     None \<Rightarrow> Inr genes
                                   | Some gene_id \<Rightarrow>
                                      (case genes gene_id of
                                         None \<Rightarrow> Inr genes
                                       | Some g \<Rightarrow>
                                          (case add_transcript M g transcript of
                                             Inl err \<Rightarrow> Inl err
                                           | Inr g' \<Rightarrow> Inr (genes(gene_id \<mapsto> g')))))
                            in case added of
                                 Inl err \<Rightarrow> ([], Inl err)
                               | Inr genes' \<Rightarrow>
                                   ([], Inr (genes',
                                             transcripts(T_identifier transcript
                                                           \<mapsto> transcript),
                                             exons0))))
                     else if entry_type = ''exon'' then
                       (case create_edge_from_gtf M tab_fields of
                          Inl err \<Rightarrow> ([], Inl err)
                        | Inr exon \<Rightarrow>
                            (case read_gtf_exon dicts exon of
                               (branch, outcome) \<Rightarrow> (case_option [] (\<lambda>b. [b]) branch, outcome)))
                     else ([], Inr dicts)))))"

text \<open>
  The loop over the lines of the file; an exception ends it.  The branches of the lines
  are listed in the order of the lines.
\<close>

fun read_gtf_lines ::
  "('g, 'x) gtf_classes \<Rightarrow> ('g, 'x) gtf_dicts \<Rightarrow> string list
     \<Rightarrow> exon_branch list \<times> (py_error + ('g, 'x) gtf_dicts)" where
  "read_gtf_lines M dicts [] = ([], Inr dicts)"
| "read_gtf_lines M dicts (l # ls) =
     (case read_gtf_line M dicts l of
        (branches, Inl err) \<Rightarrow> (branches, Inl err)
      | (branches, Inr dicts') \<Rightarrow>
          (case read_gtf_lines M dicts' ls of
             (branches', outcome) \<Rightarrow> (branches @ branches', outcome)))"

text \<open>
  \<open>read_gtf_file\<close> on the lines of the file, starting from three empty dictionaries:
  the branches its \<open>exon\<close> entries took, and what it returns or raises.
\<close>

definition read_gtf_file ::
  "('g, 'x) gtf_classes \<Rightarrow> string list
     \<Rightarrow> exon_branch list \<times> (py_error + ('g, 'x) gtf_dicts)" where
  "read_gtf_file M gtf = read_gtf_lines M (Map.empty, Map.empty, Map.empty) gtf"

text \<open>
  The \<open>Edge\<close> that a line contributes, when the line is an \<open>exon\<close> entry from which
  \<open>create_edge_from_gtf\<close> builds one: the reading of a line up to the \<open>exon\<close> branch.
\<close>

definition exon_of_line :: "('g, 'x) gtf_classes \<Rightarrow> string \<Rightarrow> 'x Edge_scheme option" where
  "exon_of_line M line0 =
     (let line = strip line0; tab_fields = split_on (CHR 0x09) line
      in if startswith line ''#'' \<or> length tab_fields < 3 then None
         else if tab_fields ! 2 = ''exon'' then
           (case create_edge_from_gtf M tab_fields of Inl _ \<Rightarrow> None | Inr exon \<Rightarrow> Some exon)
         else None)"

text \<open>
  What one line does to the dictionary \<open>exons\<close> when the later entry simply takes the
  place of whatever was stored under its identifier: the reading of \<open>read_gtf_file\<close>
  that the properties below compare the loop with.
\<close>

definition exons_after_line ::
  "('g, 'x) gtf_classes \<Rightarrow> (string \<rightharpoonup> 'x Edge_scheme) \<Rightarrow> string
     \<Rightarrow> (string \<rightharpoonup> 'x Edge_scheme)" where
  "exons_after_line M exons0 line0 =
     (case exon_of_line M line0 of
        None \<Rightarrow> exons0
      | Some exon \<Rightarrow> exons0(edge_identifier exon \<mapsto> exon))"

text \<open>
  A small instance of the two modules for worked examples: a gene is its identifier (the
  fourth field), and an exon entry carries its identifier, its transcript identifier and
  its gene identifier in the fourth to sixth field.  \<open>toy_transcript_line\<close> is a
  \<open>transcript\<close> entry of a GTF file.
\<close>

definition toy_gtf_classes :: "(string, unit) gtf_classes" where
  "toy_gtf_classes =
     \<lparr>get_gene_from_gtf = (\<lambda>f. Inr (f ! 3)),
      gene_identifier = (\<lambda>g. g),
      add_transcript = (\<lambda>g t. Inr g),
      create_edge_from_gtf =
        (\<lambda>f. Inr \<lparr>edge_identifier = f ! 3, transcript_ids = [f ! 4],
                   annotations = [(''gene_id'', f ! 5)]\<rparr>)\<rparr>"

definition toy_exon_line :: "string \<Rightarrow> string \<Rightarrow> string" where
  "toy_exon_line exon_id transcript_id =
     join [CHR 0x09] [''chr1'', ''HAVANA'', ''exon'', exon_id, transcript_id, ''G1'']"

definition toy_transcript_line :: "string \<Rightarrow> string" where
  "toy_transcript_line transcript_id =
     join [CHR 0x09]
       [''chr1'', ''HAVANA'', ''transcript'', ''100'', ''200'', ''.'', ''+'', ''.'',
        ''gene_id '' @ [CHR 0x22] @ ''G1'' @ [CHR 0x22] @ ''; transcript_id '' @ [CHR 0x22]
          @ transcript_id @ [CHR 0x22] @ '';'']"

section \<open>archived/talon.py: identifying the transcripts of a SAM file\<close>

subsection \<open>Data\<close>

text \<open>
  \<open>counter\<close> is a dictionary with the six keys that \<open>get_counters\<close> sets; it is a
  record with one field per key.
\<close>

record counter =
  counter_genes :: int
  counter_transcripts :: int
  counter_vertices :: int
  counter_edges :: int
  counter_datasets :: int
  counter_observed :: int

text \<open>
  The tuples that are staged in \<open>novel_ids\<close>, in the shapes in which the program
  builds them:
  genes \<open>(identifier, dataset)\<close>;
  transcripts \<open>(identifier, gene_id, edge path, start vertex, end vertex, n_exons,
  dataset)\<close>;
  edges \<open>(identifier, v1, v2, edge_type, dataset)\<close>;
  vertices \<open>(vertex_ID, gene_id, chromosome, position, strand)\<close>, the shape that
  \<open>batch_add_vertices_and_locations\<close> reads;
  observed \<open>(obs_ID, gene_ID, transcript_ID, read_name, dataset, start_vertex_ID,
  end_vertex_ID, start_delta, end_delta, read_length)\<close>;
  datasets \<open>(dataset_ID, dataset_name, sample, platform)\<close>.
\<close>

type_synonym gene_tuple = "pyval \<times> pyval"
type_synonym transcript_tuple = "pyval \<times> pyval \<times> pyval \<times> pyval \<times> pyval \<times> pyval \<times> pyval"
type_synonym edge_tuple = "pyval \<times> pyval \<times> pyval \<times> pyval \<times> pyval"
type_synonym vertex_tuple = "pyval \<times> pyval \<times> pyval \<times> pyval \<times> pyval"
type_synonym observed_tuple =
  "pyval \<times> pyval \<times> pyval \<times> pyval \<times> pyval \<times> pyval \<times> pyval \<times> pyval \<times> pyval \<times> pyval"
type_synonym dataset_tuple = "pyval \<times> pyval \<times> pyval \<times> pyval"

text \<open>
  \<open>novel_ids\<close> is a dictionary of six dictionaries.  Each inner dictionary is an
  association list in insertion order, updated with \<open>AList.update\<close> (a stored key
  keeps its place, a new key goes to the end), because \<open>update_database\<close> iterates
  over the values.
\<close>

record novel_ids =
  novel_datasets :: "(pyval \<times> dataset_tuple) list"
  novel_genes :: "(pyval \<times> gene_tuple) list"
  novel_transcripts :: "(pyval \<times> transcript_tuple) list"
  novel_edges :: "(pyval \<times> edge_tuple) list"
  novel_vertices :: "(pyval \<times> vertex_tuple) list"
  novel_observed :: "(pyval \<times> observed_tuple) list"

text \<open>
  A read.  \<open>sam_transcript.py\<close> is not among the sources; the record has the
  attributes that \<open>talon.py\<close> reads or assigns, each as \<open>sam_\<close>attribute, and the
  values of the two methods it calls: \<open>get_all_edges()\<close> (objects of which
  \<open>start\<close> and \<open>end\<close> are read) and \<open>get_length()\<close>.  An attribute that is not
  assigned yet is \<open>None\<close>.
\<close>

record sam_transcript =
  sam_identifier :: string
  sam_chromosome :: string
  sam_start :: int
  sam_end :: int
  sam_strand :: string
  sam_n_exons :: int
  sam_all_edges :: "(int \<times> int) list"
  sam_length :: int
  sam_dataset :: string
  sam_gene_ID :: pyval
  sam_transcript_ID :: pyval
  sam_novel :: pyval
  sam_diff_5 :: pyval
  sam_diff_3 :: pyval

text \<open>
  The attributes of the annotation objects that \<open>talon.py\<close> reads or assigns.
  Objects are kept by value: a transcript holds its edges as they were when it was
  built.  The only later mutation of a shared object in this file is
  \<open>transcript_ids.add\<close>, which is applied to the copy in the edge tree.
\<close>

record edge =
  e_identifier :: pyval
  e_chromosome :: string
  e_start :: int
  e_end :: int
  e_strand :: string
  e_gene_id :: pyval
  e_transcript_ids :: "pyval list"
  e_v1 :: pyval
  e_v2 :: pyval

record gene =
  g_identifier :: pyval
  g_chromosome :: string
  g_start :: int
  g_end :: int
  g_strand :: string

record transcript =
  t_identifier :: pyval
  t_gene_id :: pyval
  t_chromosome :: string
  t_start :: int
  t_end :: int
  t_strand :: string
  t_exons :: "edge list"
  t_introns :: "edge list"
  t_n_exons :: int

text \<open>
  \<open>edge_tree.edges\<close> and the dictionary \<open>transcripts\<close> are only looked up by key and
  stored into, so they are maps; \<open>gene_tree.genes\<close> is an association list in insertion
  order.  \<open>abundance\<close> maps a transcript identifier to a dictionary from dataset to
  count, both in insertion order.
\<close>

type_synonym edge_tree = "pyval \<rightharpoonup> edge"
type_synonym gene_tree = "(pyval \<times> gene) list"
type_synonym abundance = "(pyval \<times> (string \<times> int) list) list"

text \<open>
  What \<open>find_transcript_match\<close> reads off a \<open>MatchTracker\<close> after
  \<open>match_all_edges\<close> and \<open>compute_match_sets\<close>: the two sets, and what the methods
  \<open>get_best_full_match(transcripts)\<close>, \<open>get_best_partial_match(transcripts)\<close> and
  \<open>get_best_edge_matches()\<close> return (an edge identifier or \<open>None\<close> for each edge of
  the query).
\<close>

record tracker =
  full_matches :: "pyval list"
  partial_matches :: "pyval list"
  best_full_match :: "transcript \<times> (pyval \<times> pyval)"
  best_partial_match :: transcript
  best_edge_matches :: "pyval list"

text \<open>
  The first component of the result of \<open>find_transcript_match\<close> is the string
  \<open>"none"\<close> or a transcript; an element of its \<open>edge_matches\<close> is an edge object (after
  a full match) or an identifier or \<open>None\<close>.
\<close>

datatype transcript_match = NoneString | Matched transcript

datatype edge_match = EdgeObj edge | EdgeId pyval

text \<open>
  The modules \<open>transcript_match_tracker\<close>, \<open>vertex\<close> and the methods of the
  annotation \<open>Transcript\<close> are not among the sources.  Their functions are parameters;
  each is given exactly the objects the call hands over and returns what the caller
  reads afterwards.  \<open>'v\<close> is the type of the dictionary \<open>vertices\<close>.
  \<^item> \<open>match_tracker\<close>: \<open>MatchTracker(query)\<close>, \<open>match_all_edges\<close> and
    \<open>compute_match_sets\<close> in one;
  \<^item> \<open>fetch_vertex\<close> returns the identifier of the vertex found, or nothing when it
    returns \<open>None\<close>;
  \<^item> \<open>try_vertex_update\<close> receives the edge, \<open>vertices\<close>, the staged vertices and
    the vertex counter, and returns the \<open>v1\<close> and \<open>v2\<close> it assigns to the edge with
    the three as it leaves them.
\<close>

record 'v talon_modules =
  match_tracker :: "sam_transcript \<Rightarrow> (pyval \<rightharpoonup> transcript) \<Rightarrow> edge_tree \<Rightarrow> edge_tree
                      \<Rightarrow> py_error + tracker"
  get_all_edges :: "transcript \<Rightarrow> edge list"
  get_5prime_vertex :: "transcript \<Rightarrow> pyval"
  get_3prime_vertex :: "transcript \<Rightarrow> pyval"
  get_edge_path :: "transcript \<Rightarrow> pyval"
  search_for_gene :: "sam_transcript \<Rightarrow> 'v \<Rightarrow> py_error + pyval"
  fetch_vertex :: "'v \<Rightarrow> string \<Rightarrow> int \<Rightarrow> pyval \<Rightarrow> py_error + pyval option"
  try_vertex_update :: "edge \<Rightarrow> 'v \<Rightarrow> (pyval \<times> vertex_tuple) list \<Rightarrow> int
                          \<Rightarrow> py_error + (pyval \<times> pyval \<times> 'v \<times> (pyval \<times> vertex_tuple) list \<times> int)"
  get_difference :: "int \<times> int \<Rightarrow> int \<times> int \<Rightarrow> string \<Rightarrow> py_error + (pyval \<times> pyval)"

text \<open>The objects that \<open>identify_sam_transcripts\<close> is handed and mutates in place.\<close>

record 'v run_state =
  st_gene_tree :: gene_tree
  st_transcripts :: "pyval \<rightharpoonup> transcript"
  st_exon_tree :: edge_tree
  st_intron_tree :: edge_tree
  st_vertices :: 'v
  st_counter :: counter
  st_novel_ids :: novel_ids
  st_abundance :: abundance

subsection \<open>find\_transcript\_match\<close>

definition find_transcript_match ::
  "'v talon_modules \<Rightarrow> sam_transcript \<Rightarrow> (pyval \<rightharpoonup> transcript) \<Rightarrow> edge_tree \<Rightarrow> edge_tree
     \<Rightarrow> py_error + (transcript_match \<times> string \<times> edge_match list \<times> (pyval \<times> pyval))" where
  "find_transcript_match M query_transcript transcripts exon_tree intron_tree =
     (case match_tracker M query_transcript transcripts exon_tree intron_tree of
        Inl err \<Rightarrow> Inl err
      | Inr tracker \<Rightarrow>
          (if length (full_matches tracker) > 0 then
             (let (transcript_match, diff) = best_full_match tracker
              in Inr (Matched transcript_match, ''full'',
                      map EdgeObj (get_all_edges M transcript_match), diff))
           else
             (let (transcript_match, match_type) =
                    (if length (partial_matches tracker) > 0
                     then (Matched (best_partial_match tracker), ''partial'')
                     else (NoneString, ''none''))
              in Inr (transcript_match, match_type,
                      map EdgeId (best_edge_matches tracker), (PNone, PNone)))))"

subsection \<open>Novel genes, edges and transcripts\<close>

text \<open>
  Modelled from the spec: \<open>Gene.create_novel_gene\<close> (\<open>gene.py\<close> is not among the
  sources).  "Mint a novel gene id (\<open>counter.genes += 1\<close>) spanning the read's
  coordinates": the gene counter goes up by one and its new value is the identifier.
\<close>

definition create_novel_gene :: "string \<Rightarrow> int \<Rightarrow> int \<Rightarrow> string \<Rightarrow> counter \<Rightarrow> gene \<times> counter" where
  "create_novel_gene chromosome start end_pos strand counter =
     (let counter' = counter\<lparr>counter_genes := counter_genes counter + 1\<rparr>
      in (\<lparr>g_identifier = PInt (counter_genes counter'), g_chromosome = chromosome,
           g_start = start, g_end = end_pos, g_strand = strand\<rparr>, counter'))"

text \<open>
  Modelled from the spec: \<open>GeneTree.add_gene\<close> and \<open>EdgeTree.add_edge\<close> ("insert it
  into the Gene Locus Index immediately", "register it in the Interval Index"): the
  object is stored under its identifier.
\<close>

definition add_gene :: "gene \<Rightarrow> gene_tree \<Rightarrow> gene_tree" where
  "add_gene gene_obj genes = AList.update (g_identifier gene_obj) gene_obj genes"

definition add_edge :: "edge \<Rightarrow> edge_tree \<Rightarrow> edge_tree" where
  "add_edge edge_obj edges = edges(e_identifier edge_obj \<mapsto> edge_obj)"

text \<open>
  Modelled from the spec: \<open>Edge.create_novel_edge\<close> (\<open>edge.py\<close> is not among the
  sources).  "Mint a novel edge id": the edge counter goes up by one and its new value
  is the identifier; the edge lies at the given coordinates under the given gene, and
  the transcript identifier handed over is its first user unless it is \<open>None\<close>.
\<close>

definition create_novel_edge ::
  "string \<Rightarrow> int \<Rightarrow> int \<Rightarrow> string \<Rightarrow> pyval \<Rightarrow> pyval \<Rightarrow> counter \<Rightarrow> edge \<times> counter" where
  "create_novel_edge chromosome start end_pos strand gene_id transcript_ID counter =
     (let counter' = counter\<lparr>counter_edges := counter_edges counter + 1\<rparr>
      in (\<lparr>e_identifier = PInt (counter_edges counter'), e_chromosome = chromosome,
           e_start = start, e_end = end_pos, e_strand = strand, e_gene_id = gene_id,
           e_transcript_ids = (if transcript_ID = PNone then [] else [transcript_ID]),
           e_v1 = PNone, e_v2 = PNone\<rparr>, counter'))"

text \<open>
  Modelled from the spec: \<open>Transcript.create_novel_transcript\<close> (the annotation
  \<open>Transcript\<close> is not among the sources).  "Assemble the new edge list into a
  Transcript with id \<open>counter.transcripts += 1\<close>": the transcript counter goes up by
  one; the identifier is the string of its new value, which is how
  \<open>make_novel_transcript\<close> itself spells the identifier of the transcript it is about
  to create.
\<close>

definition create_novel_transcript ::
  "string \<Rightarrow> int \<Rightarrow> int \<Rightarrow> string \<Rightarrow> pyval \<Rightarrow> counter \<Rightarrow> edge list \<Rightarrow> edge list
     \<Rightarrow> transcript \<times> counter" where
  "create_novel_transcript chromosome start end_pos strand gene_id counter exons introns =
     (let counter' = counter\<lparr>counter_transcripts := counter_transcripts counter + 1\<rparr>
      in (\<lparr>t_identifier = PStr (str_int (counter_transcripts counter')), t_gene_id = gene_id,
           t_chromosome = chromosome, t_start = start, t_end = end_pos, t_strand = strand,
           t_exons = exons, t_introns = introns, t_n_exons = int (length exons)\<rparr>, counter'))"

subsection \<open>make\_novel\_transcript\<close>

text \<open>
  The loop of \<open>make_novel_transcript\<close> over
  \<open>zip(sam_transcript.get_all_edges(), edge_matches)\<close>.  Its variables are the index
  \<open>i\<close>, the binding of \<open>edge_obj\<close> left by earlier iterations (none before the
  first), the two lists and the state.  The two branches of the test
  \<open>match_gene_id != gene_id or edge_match == None\<close> are \<open>mint_edge\<close> and
  \<open>reuse_edge\<close>; the statement \<open>novel_list.append(edge_obj)\<close> that follows both is
  \<open>append_edge\<close>.
\<close>

type_synonym 'v loop_vars = "edge option \<times> edge list \<times> edge list \<times> 'v run_state"

definition append_edge :: "bool \<Rightarrow> edge \<Rightarrow> edge list \<Rightarrow> edge list \<Rightarrow> 'v run_state \<Rightarrow> 'v loop_vars" where
  "append_edge is_exon edge_obj novel_transcript_exons novel_transcript_introns st =
     (if is_exon
      then (Some edge_obj, novel_transcript_exons @ [edge_obj], novel_transcript_introns, st)
      else (Some edge_obj, novel_transcript_exons, novel_transcript_introns @ [edge_obj], st))"

text \<open>
  The branch that creates a new edge: \<open>create_novel_edge\<close>, \<open>try_vertex_update\<close>,
  the staging of the edge, the new transcript identifier, \<open>edge_tree.add_edge\<close>.
\<close>

definition mint_edge ::
  "'v talon_modules \<Rightarrow> sam_transcript \<Rightarrow> pyval \<Rightarrow> bool \<Rightarrow> int \<Rightarrow> int \<Rightarrow> edge list \<Rightarrow> edge list
     \<Rightarrow> 'v run_state \<Rightarrow> py_error + 'v loop_vars" where
  "mint_edge M sam_transcript novel_transcript_id is_exon edge_start edge_end
             novel_transcript_exons novel_transcript_introns st =
     (let chromosome = sam_chromosome sam_transcript;
          strand = sam_strand sam_transcript;
          gene_id = sam_gene_ID sam_transcript;
          dataset = sam_dataset sam_transcript;
          edge_type = (if is_exon then ''exon'' else ''intron'');
          (edge_new, counter1) =
             create_novel_edge chromosome edge_start edge_end strand gene_id
               (sam_transcript_ID sam_transcript) (st_counter st)
      in case try_vertex_update M edge_new (st_vertices st)
                (novel_vertices (st_novel_ids st)) (counter_vertices counter1) of
           Inl err \<Rightarrow> Inl err
         | Inr (v1, v2, vertices', staged', n_vertices') \<Rightarrow>
            (let edge1 = edge_new\<lparr>e_v1 := v1, e_v2 := v2\<rparr>;
                 novel_ids' = (st_novel_ids st)
                   \<lparr>novel_vertices := staged',
                    novel_edges :=
                      AList.update (e_identifier edge1)
                        (e_identifier edge1, e_v1 edge1, e_v2 edge1,
                         PStr edge_type, PStr dataset)
                        (novel_edges (st_novel_ids st))\<rparr>;
                 edge_obj = edge1\<lparr>e_transcript_ids :=
                              set_add novel_transcript_id (e_transcript_ids edge1)\<rparr>;
                 st1 = st\<lparr>st_vertices := vertices',
                          st_counter := counter1\<lparr>counter_vertices := n_vertices'\<rparr>,
                          st_novel_ids := novel_ids'\<rparr>;
                 st2 = (if is_exon
                        then st1\<lparr>st_exon_tree := add_edge edge_obj (st_exon_tree st1)\<rparr>
                        else st1\<lparr>st_intron_tree := add_edge edge_obj (st_intron_tree st1)\<rparr>)
             in Inr (append_edge is_exon edge_obj novel_transcript_exons
                       novel_transcript_introns st2)))"

text \<open>
  The branch that adds the new transcript identifier to \<open>edge_obj\<close>.  \<open>found\<close> is the
  edge stored under \<open>edge_match\<close> in the tree, if any; the object mutated is then the
  one in the tree.  Without it \<open>edge_obj\<close> is the binding of an earlier iteration, or
  unbound.
\<close>

definition reuse_edge ::
  "pyval \<Rightarrow> bool \<Rightarrow> edge option \<Rightarrow> edge_match \<Rightarrow> edge option \<Rightarrow> edge list \<Rightarrow> edge list
     \<Rightarrow> 'v run_state \<Rightarrow> py_error + 'v loop_vars" where
  "reuse_edge novel_transcript_id is_exon found edge_match edge_obj0
              novel_transcript_exons novel_transcript_introns st =
     (case (case found of Some e \<Rightarrow> Some e | None \<Rightarrow> edge_obj0) of
        None \<Rightarrow> Inl (UnboundLocalError ''edge_obj'')
      | Some e \<Rightarrow>
         (let edge_obj = e\<lparr>e_transcript_ids :=
                             set_add novel_transcript_id (e_transcript_ids e)\<rparr>;
              st1 = (case (found, edge_match) of
                       (Some _, EdgeId k) \<Rightarrow>
                         (if is_exon
                          then st\<lparr>st_exon_tree := (st_exon_tree st)(k \<mapsto> edge_obj)\<rparr>
                          else st\<lparr>st_intron_tree := (st_intron_tree st)(k \<mapsto> edge_obj)\<rparr>)
                     | _ \<Rightarrow> st)
          in Inr (append_edge is_exon edge_obj novel_transcript_exons
                    novel_transcript_introns st1)))"

text \<open>
  One iteration.  Even indices are exons.  An edge object is never a key of
  \<open>edge_tree.edges\<close>; \<open>match_gene_id\<close> stays \<open>None\<close> without a match in the tree.
\<close>

definition novel_edge_step ::
  "'v talon_modules \<Rightarrow> sam_transcript \<Rightarrow> pyval \<Rightarrow> nat \<Rightarrow> (int \<times> int) \<times> edge_match
     \<Rightarrow> 'v loop_vars \<Rightarrow> py_error + 'v loop_vars" where
  "novel_edge_step M sam_transcript novel_transcript_id i pair vars =
     (case (pair, vars) of
        (((edge_start, edge_end), edge_match),
         (edge_obj0, novel_transcript_exons, novel_transcript_introns, st)) \<Rightarrow>
       (let gene_id = sam_gene_ID sam_transcript;
            is_exon = (i mod 2 = 0);
            edge_tree = (if is_exon then st_exon_tree st else st_intron_tree st);
            found = (case edge_match of EdgeId k \<Rightarrow> edge_tree k | EdgeObj _ \<Rightarrow> None);
            match_gene_id = (case found of Some e \<Rightarrow> e_gene_id e | None \<Rightarrow> PNone)
        in if match_gene_id \<noteq> gene_id \<or> edge_match = EdgeId PNone then
             mint_edge M sam_transcript novel_transcript_id is_exon edge_start edge_end
               novel_transcript_exons novel_transcript_introns st
           else
             reuse_edge novel_transcript_id is_exon found edge_match edge_obj0
               novel_transcript_exons novel_transcript_introns st))"

fun novel_edges_loop ::
  "'v talon_modules \<Rightarrow> sam_transcript \<Rightarrow> pyval \<Rightarrow> nat \<Rightarrow> ((int \<times> int) \<times> edge_match) list
     \<Rightarrow> 'v loop_vars \<Rightarrow> py_error + 'v loop_vars" where
  "novel_edges_loop M sam_transcript novel_transcript_id i [] vars = Inr vars"
| "novel_edges_loop M sam_transcript novel_transcript_id i (pair # pairs) vars =
     (case novel_edge_step M sam_transcript novel_transcript_id i pair vars of
        Inl err \<Rightarrow> Inl err
      | Inr vars' \<Rightarrow> novel_edges_loop M sam_transcript novel_transcript_id (Suc i) pairs vars')"

text \<open>
  \<open>make_novel_transcript\<close>.  \<open>novel_transcript_exons[0]\<close> raises an
  \<open>IndexError\<close> when no exon was collected.  The result is the read with its
  \<open>transcript_ID\<close> assigned, the new transcript, and the state.
\<close>

definition make_novel_transcript ::
  "'v talon_modules \<Rightarrow> sam_transcript \<Rightarrow> edge_match list \<Rightarrow> 'v run_state
     \<Rightarrow> py_error + (sam_transcript \<times> transcript \<times> 'v run_state)" where
  "make_novel_transcript M sam_transcript edge_matches st =
     (let chromosome = sam_chromosome sam_transcript;
          strand = sam_strand sam_transcript;
          gene_id = sam_gene_ID sam_transcript;
          novel_transcript_id = PStr (str_int (counter_transcripts (st_counter st) + 1))
      in case novel_edges_loop M sam_transcript novel_transcript_id 0
                (zip (sam_all_edges sam_transcript) edge_matches) (None, [], [], st) of
           Inl err \<Rightarrow> Inl err
         | Inr (_, novel_transcript_exons, novel_transcript_introns, st1) \<Rightarrow>
            (if novel_transcript_exons = [] then Inl IndexError
             else
              (let start = e_start (hd novel_transcript_exons);
                   end_pos = e_end (last novel_transcript_exons);
                   (annot_transcript, counter') =
                      create_novel_transcript chromosome start end_pos strand gene_id
                        (st_counter st1) novel_transcript_exons novel_transcript_introns
               in Inr (sam_transcript\<lparr>sam_transcript_ID := t_identifier annot_transcript\<rparr>,
                       annot_transcript, st1\<lparr>st_counter := counter'\<rparr>))))"

subsection \<open>get\_transcript\_start\_and\_end\_diffs\<close>

text \<open>
  The counter is raised first.  \<open>fetch_vertex(...).identifier\<close> raises an
  \<open>AttributeError\<close> when no vertex is found; a strand other than \<open>"+"\<close> and
  \<open>"-"\<close> leaves \<open>observed\<close> unbound.
\<close>

definition get_transcript_start_and_end_diffs ::
  "'v talon_modules \<Rightarrow> sam_transcript \<Rightarrow> transcript \<Rightarrow> string \<Rightarrow> 'v run_state
     \<Rightarrow> py_error + (sam_transcript \<times> 'v run_state)" where
  "get_transcript_start_and_end_diffs M sam_transcript annot_transcript dataset st =
     (let obs_id = PStr (str_int (counter_observed (st_counter st) + 1));
          counter1 = (st_counter st)\<lparr>counter_observed := counter_observed (st_counter st) + 1\<rparr>;
          a = (sam_start sam_transcript, sam_end sam_transcript);
          b = (t_start annot_transcript, t_end annot_transcript)
      in case get_difference M a b (sam_strand sam_transcript) of
           Inl err \<Rightarrow> Inl err
         | Inr (diff_5, diff_3) \<Rightarrow>
            (let sam1 = sam_transcript\<lparr>sam_diff_5 := diff_5, sam_diff_3 := diff_3\<rparr>;
                 chromosome = t_chromosome annot_transcript;
                 strand = sam_strand sam1;
                 gene_id = sam_gene_ID sam1
             in case fetch_vertex M (st_vertices st) chromosome (t_start annot_transcript) gene_id of
                  Inl err \<Rightarrow> Inl err
                | Inr None \<Rightarrow> Inl (AttributeError ''identifier'')
                | Inr (Some first_vertex) \<Rightarrow>
                   (case fetch_vertex M (st_vertices st) chromosome (t_end annot_transcript)
                           gene_id of
                      Inl err \<Rightarrow> Inl err
                    | Inr None \<Rightarrow> Inl (AttributeError ''identifier'')
                    | Inr (Some last_vertex) \<Rightarrow>
                       (let stored = (\<lambda>observed.
                              Inr (sam1,
                                   st\<lparr>st_counter := counter1,
                                      st_novel_ids := (st_novel_ids st)
                                        \<lparr>novel_observed :=
                                           AList.update obs_id observed
                                             (novel_observed (st_novel_ids st))\<rparr>\<rparr>))
                        in if strand = ''+'' then
                             stored (obs_id, t_gene_id annot_transcript,
                                     t_identifier annot_transcript,
                                     PStr (sam_identifier sam1), PStr dataset,
                                     first_vertex, last_vertex, diff_5, diff_3,
                                     PInt (sam_length sam1))
                           else if strand = ''-'' then
                             stored (obs_id, t_gene_id annot_transcript,
                                     t_identifier annot_transcript,
                                     PStr (sam_identifier sam1), PStr dataset,
                                     last_vertex, first_vertex, diff_5, diff_3,
                                     PInt (sam_length sam1))
                           else Inl (UnboundLocalError ''observed'')))))"

subsection \<open>identify\_sam\_transcripts\<close>

text \<open>
  The search for the gene of a read without a full match (the statements from
  \<open>if sam_transcript.n_exons == 1\<close> to the assignment of \<open>gene_ID\<close>).  In the
  single-exon case the \<open>try\<close> reads \<open>best_match.gene_id\<close>, which fails on the
  string \<open>"none"\<close> and then gives \<open>None\<close>.  \<open>gene_tree.genes[gene_match_id]\<close> raises
  a \<open>KeyError\<close> on an identifier that is not in the tree.
\<close>

definition assign_gene ::
  "'v talon_modules \<Rightarrow> sam_transcript \<Rightarrow> transcript_match \<Rightarrow> string \<Rightarrow> 'v run_state
     \<Rightarrow> py_error + (sam_transcript \<times> 'v run_state)" where
  "assign_gene M sam_transcript best_match dataset st =
     (case (if sam_n_exons sam_transcript = 1 then
              Inr (case best_match of Matched t \<Rightarrow> t_gene_id t | NoneString \<Rightarrow> PNone)
            else search_for_gene M sam_transcript (st_vertices st)) of
        Inl err \<Rightarrow> Inl err
      | Inr gene_match_id \<Rightarrow>
         (if gene_match_id = PNone then
            (let chromosome = sam_chromosome sam_transcript;
                 start = sam_start sam_transcript;
                 end_pos = sam_end sam_transcript;
                 strand = sam_strand sam_transcript;
                 (gene_obj, counter') =
                    create_novel_gene chromosome start end_pos strand (st_counter st);
                 gene_tuple = (g_identifier gene_obj, PStr dataset)
             in Inr (sam_transcript\<lparr>sam_gene_ID := g_identifier gene_obj\<rparr>,
                     st\<lparr>st_counter := counter',
                        st_novel_ids := (st_novel_ids st)
                          \<lparr>novel_genes := AList.update (g_identifier gene_obj) gene_tuple
                                            (novel_genes (st_novel_ids st))\<rparr>,
                        st_gene_tree := add_gene gene_obj (st_gene_tree st)\<rparr>))
          else
            (case map_of (st_gene_tree st) gene_match_id of
               None \<Rightarrow> Inl (KeyError (str gene_match_id))
             | Some gene_obj \<Rightarrow>
                 Inr (sam_transcript\<lparr>sam_gene_ID := g_identifier gene_obj\<rparr>, st))))"

text \<open>The update of the abundance dictionary at the end of the loop body.\<close>

definition add_abundance :: "abundance \<Rightarrow> pyval \<Rightarrow> string \<Rightarrow> abundance" where
  "add_abundance abundance transcript_id dataset =
     (case map_of abundance transcript_id of
        Some counts \<Rightarrow>
          (case map_of counts dataset of
             Some n \<Rightarrow> AList.update transcript_id (AList.update dataset (n + 1) counts) abundance
           | None \<Rightarrow> AList.update transcript_id (AList.update dataset 1 counts) abundance)
      | None \<Rightarrow> AList.update transcript_id [(dataset, 1)] abundance)"

text \<open>
  The part of the loop body that settles the identity of the read: the full match, or
  the novel transcript with its gene.  It returns the read, \<open>annot_transcript\<close> and the
  state.
\<close>

definition resolve_identity ::
  "'v talon_modules \<Rightarrow> string \<Rightarrow> 'v run_state \<Rightarrow> sam_transcript
     \<Rightarrow> py_error + (sam_transcript \<times> transcript \<times> 'v run_state)" where
  "resolve_identity M dataset st sam_transcript =
     (case find_transcript_match M sam_transcript (st_transcripts st) (st_exon_tree st)
             (st_intron_tree st) of
        Inl err \<Rightarrow> Inl err
      | Inr (best_match, match_type, edge_matches, diff) \<Rightarrow>
         (if match_type = ''full'' then
            (case best_match of
               NoneString \<Rightarrow> Inl (AttributeError ''gene_id'')
             | Matched bm \<Rightarrow>
                 Inr (sam_transcript\<lparr>sam_gene_ID := t_gene_id bm,
                                     sam_transcript_ID := t_identifier bm,
                                     sam_novel := PStr ''Seen_previously''\<rparr>, bm, st))
          else
            (case assign_gene M (sam_transcript\<lparr>sam_novel := PStr ''Novel''\<rparr>) best_match
                    dataset st of
               Inl err \<Rightarrow> Inl err
             | Inr (sam1, st1) \<Rightarrow>
                (case make_novel_transcript M sam1 edge_matches st1 of
                   Inl err \<Rightarrow> Inl err
                 | Inr (sam2, annot_transcript, st2) \<Rightarrow>
                    (let start_vertex = get_5prime_vertex M annot_transcript;
                         end_vertex = get_3prime_vertex M annot_transcript;
                         n_exons = t_n_exons annot_transcript;
                         novel_tuple = (t_identifier annot_transcript,
                                        t_gene_id annot_transcript,
                                        get_edge_path M annot_transcript, start_vertex,
                                        end_vertex, PInt n_exons, PStr dataset)
                     in Inr (sam2, annot_transcript,
                             st2\<lparr>st_novel_ids := (st_novel_ids st2)
                                   \<lparr>novel_transcripts :=
                                      AList.update (t_identifier annot_transcript) novel_tuple
                                        (novel_transcripts (st_novel_ids st2))\<rparr>,
                                 st_transcripts := (st_transcripts st2)
                                   (t_identifier annot_transcript \<mapsto> annot_transcript)\<rparr>))))))"

text \<open>The whole loop body: one read.\<close>

definition identify_one ::
  "'v talon_modules \<Rightarrow> string \<Rightarrow> 'v run_state \<Rightarrow> sam_transcript
     \<Rightarrow> py_error + (sam_transcript \<times> 'v run_state)" where
  "identify_one M dataset st sam_transcript =
     (case resolve_identity M dataset st sam_transcript of
        Inl err \<Rightarrow> Inl err
      | Inr (sam1, annot_transcript, st1) \<Rightarrow>
         (case get_transcript_start_and_end_diffs M sam1 annot_transcript dataset st1 of
            Inl err \<Rightarrow> Inl err
          | Inr (sam2, st2) \<Rightarrow>
              Inr (sam2, st2\<lparr>st_abundance :=
                               add_abundance (st_abundance st2)
                                 (t_identifier annot_transcript) dataset\<rparr>)))"

text \<open>
  \<open>identify_sam_transcripts\<close>: the loop over the reads.  The reads are mutated in
  place, so the result lists them as they are afterwards, next to the state.
\<close>

fun identify_sam_transcripts ::
  "'v talon_modules \<Rightarrow> string \<Rightarrow> sam_transcript list \<Rightarrow> 'v run_state
     \<Rightarrow> py_error + (sam_transcript list \<times> 'v run_state)" where
  "identify_sam_transcripts M dataset [] st = Inr ([], st)"
| "identify_sam_transcripts M dataset (sam_transcript # sam_transcripts) st =
     (case identify_one M dataset st sam_transcript of
        Inl err \<Rightarrow> Inl err
      | Inr (sam', st1) \<Rightarrow>
         (case identify_sam_transcripts M dataset sam_transcripts st1 of
            Inl err \<Rightarrow> Inl err
          | Inr (sams', st2) \<Rightarrow> Inr (sam' # sams', st2)))"

section \<open>archived/talon.py: updating the database\<close>

subsection \<open>The store\<close>

text \<open>
  The SQLite file as \<open>update_database\<close> uses it.  A table is the list of its rows;
  the table \<open>counters\<close> is kept apart as its rows \<open>(category, count)\<close> in the order
  in which \<open>SELECT * FROM counters\<close> returns them.  \<open>SELECT COUNT( * )\<close> on a name that
  is no table fails.
\<close>

type_synonym row = "pyval list"

record database =
  db_tables :: "string \<rightharpoonup> row list"
  db_counters :: "(string \<times> int) list"

definition count_rows :: "database \<Rightarrow> string \<Rightarrow> int option" where
  "count_rows db table_name =
     (if table_name = ''counters'' then Some (int (length (db_counters db)))
      else map_option (\<lambda>rows. int (length rows)) (db_tables db table_name))"

text \<open>
  What the connection has been asked to do, in order, and the connection itself: the
  committed content of the file, the content as the open transaction sees it, and the
  statements issued so far.  \<open>sqlite3.connect\<close> opens the file as it is;
  \<open>conn.commit()\<close> makes the pending content the committed one.  A connection that is
  dropped without a commit leaves the committed content as it was.
\<close>

datatype statement =
    InsertMany string "row list"
  | UpdateCounter string int
  | SelectCounters
  | SelectCount string
  | Commit

record connection =
  durable :: database
  pending :: database
  issued :: "statement list"

definition connect :: "database \<Rightarrow> connection" where
  "connect db = \<lparr>durable = db, pending = db, issued = []\<rparr>"

definition commit :: "connection \<Rightarrow> connection" where
  "commit conn = conn\<lparr>durable := pending conn, issued := issued conn @ [Commit]\<rparr>"

text \<open>
  \<open>cursor.executemany\<close> of an \<open>INSERT\<close>.  Whether the store takes a row (the primary
  key, the number of columns) is the store's affair and a parameter: \<open>accepts table
  rows r\<close> says whether \<open>r\<close> may be added to \<open>table\<close> holding \<open>rows\<close>.  The rows of a
  batch are inserted one by one; the first that is refused raises, with the earlier
  ones in place.  A missing table raises as well.  The second component tells whether
  the call returned without raising.
\<close>

type_synonym accepts = "string \<Rightarrow> row list \<Rightarrow> row \<Rightarrow> bool"

fun insert_rows :: "accepts \<Rightarrow> string \<Rightarrow> row list \<Rightarrow> database \<Rightarrow> database \<times> bool" where
  "insert_rows A table_name [] db = (db, True)"
| "insert_rows A table_name (r # rs) db =
     (case db_tables db table_name of
        None \<Rightarrow> (db, False)
      | Some rows \<Rightarrow>
          (if A table_name rows r
           then insert_rows A table_name rs
                  (db\<lparr>db_tables := (db_tables db)(table_name \<mapsto> rows @ [r])\<rparr>)
           else (db, False)))"

definition executemany :: "accepts \<Rightarrow> string \<Rightarrow> row list \<Rightarrow> connection \<Rightarrow> connection \<times> bool" where
  "executemany A table_name batch conn =
     (let (db', ok) = (case db_tables (pending conn) table_name of
                         None \<Rightarrow> (pending conn, False)
                       | Some _ \<Rightarrow> insert_rows A table_name batch (pending conn))
      in (conn\<lparr>pending := db', issued := issued conn @ [InsertMany table_name batch]\<rparr>, ok))"

text \<open>\<open>UPDATE "counters" SET "count" = ? WHERE "category" = ...\<close>\<close>

definition execute_update :: "string \<Rightarrow> int \<Rightarrow> connection \<Rightarrow> connection" where
  "execute_update category val conn =
     conn\<lparr>pending := (pending conn)
              \<lparr>db_counters := map (\<lambda>(c, n). if c = category then (c, val) else (c, n))
                                 (db_counters (pending conn))\<rparr>,
          issued := issued conn @ [UpdateCounter category val]\<rparr>"

subsection \<open>Batches\<close>

text \<open>\<open>xs[lo:hi]\<close> for integers \<open>lo\<close> and \<open>hi\<close>: a negative bound counts from the end.\<close>

definition slice_bound :: "int \<Rightarrow> nat \<Rightarrow> nat" where
  "slice_bound i n = (if i < 0 then nat (max 0 (i + int n)) else min (nat i) n)"

definition py_slice :: "'a list \<Rightarrow> int \<Rightarrow> int \<Rightarrow> 'a list" where
  "py_slice xs lo hi =
     (let a = slice_bound lo (length xs); b = slice_bound hi (length xs)
      in take (b - a) (drop a xs))"

text \<open>
  The loop \<open>while index < len(entries): ...; index += batch_size\<close> that every
  \<open>batch_add\<close> function has; \<open>body index\<close> is what one round does to the connection.
  With entries to write and a batch size that is not positive the loop never ends,
  which is the value \<open>None\<close>.  (Slicing a list never raises, so the \<open>except\<close> branch
  around the slices is dead and left out.)
\<close>

partial_function (option) batch_loop ::
  "(int \<Rightarrow> connection \<Rightarrow> connection) \<Rightarrow> int \<Rightarrow> nat \<Rightarrow> int \<Rightarrow> connection \<Rightarrow> connection option" where
  "batch_loop body batch_size n index conn =
     (if index < int n then batch_loop body batch_size n (index + batch_size) (body index conn)
      else Some conn)"

text \<open>Every \<open>executemany\<close> stands in a \<open>try\<close> whose \<open>except\<close> only prints.\<close>

definition batch_add_genes :: "accepts \<Rightarrow> novel_ids \<Rightarrow> int \<Rightarrow> connection \<Rightarrow> connection option" where
  "batch_add_genes A novel_ids batch_size conn =
     (let novel_tuples = map snd (novel_genes novel_ids);
          gene_entries = map (\<lambda>(g, d). [g]) novel_tuples;
          gene_annotations =
            map (\<lambda>(g, d). [g, PStr ''talon_run'', d, PStr ''gene_status'', PStr ''NOVEL''])
              novel_tuples
      in batch_loop
           (\<lambda>index c.
              (let gene_batch = py_slice gene_entries index (index + batch_size);
                   annot_batch = py_slice gene_annotations index (index + batch_size);
                   c1 = fst (executemany A ''genes'' gene_batch c)
               in fst (executemany A ''gene_annotations'' annot_batch c1)))
           batch_size (length gene_entries) 0 conn)"

definition batch_add_transcripts ::
  "accepts \<Rightarrow> novel_ids \<Rightarrow> int \<Rightarrow> connection \<Rightarrow> connection option" where
  "batch_add_transcripts A novel_ids batch_size conn =
     (let novel_tuples = map snd (novel_transcripts novel_ids);
          transcript_entries =
            map (\<lambda>(t, g, path, sv, ev, n, d). [t, g, path, sv, ev, n]) novel_tuples;
          transcript_annotations =
            map (\<lambda>(t, g, path, sv, ev, n, d).
                   [t, PStr ''talon_run'', d, PStr ''transcript_status'', PStr ''NOVEL''])
              novel_tuples
      in batch_loop
           (\<lambda>index c.
              (let transcript_batch = py_slice transcript_entries index (index + batch_size);
                   annot_batch = py_slice transcript_annotations index (index + batch_size);
                   c1 = fst (executemany A ''transcripts'' transcript_batch c)
               in fst (executemany A ''transcript_annotations'' annot_batch c1)))
           batch_size (length transcript_entries) 0 conn)"

definition batch_add_edges :: "accepts \<Rightarrow> novel_ids \<Rightarrow> int \<Rightarrow> connection \<Rightarrow> connection option" where
  "batch_add_edges A novel_ids batch_size conn =
     (let edge_tuples = map snd (novel_edges novel_ids);
          edge_entries = map (\<lambda>(e, v1, v2, ty, d). [e, v1, v2, ty]) edge_tuples;
          exon_annotations =
            map (\<lambda>(e, v1, v2, ty, d).
                   [e, PStr ''talon_run'', d, PStr ''exon_status'', PStr ''NOVEL''])
              (filter (\<lambda>(e, v1, v2, ty, d). ty = PStr ''exon'') edge_tuples)
      in Option.bind
           (batch_loop
              (\<lambda>index c.
                 fst (executemany A ''edge''
                        (py_slice edge_entries index (index + batch_size)) c))
              batch_size (length edge_entries) 0 conn)
           (batch_loop
              (\<lambda>index c.
                 fst (executemany A ''exon_annotations''
                        (py_slice exon_annotations index (index + batch_size)) c))
              batch_size (length exon_annotations) 0))"

text \<open>
  Here the two \<open>executemany\<close> calls share one \<open>try\<close>: when the insert into
  \<open>vertex\<close> raises, the insert into \<open>location\<close> is skipped.
\<close>

definition batch_add_vertices_and_locations ::
  "accepts \<Rightarrow> novel_ids \<Rightarrow> string \<Rightarrow> int \<Rightarrow> connection \<Rightarrow> connection option" where
  "batch_add_vertices_and_locations A novel_ids genome_build batch_size conn =
     (let novel_tuples = map snd (novel_vertices novel_ids);
          vertex_entries = map (\<lambda>(v, g, chrom, pos, strand). [v, g]) novel_tuples;
          location_entries =
            map (\<lambda>(v, g, chrom, pos, strand). [v, PStr genome_build, chrom, pos, strand])
              novel_tuples
      in batch_loop
           (\<lambda>index c.
              (let vertex_batch = py_slice vertex_entries index (index + batch_size);
                   location_batch = py_slice location_entries index (index + batch_size);
                   (c1, ok) = executemany A ''vertex'' vertex_batch c
               in if ok then fst (executemany A ''location'' location_batch c1) else c1))
           batch_size (length vertex_entries) 0 conn)"

definition batch_add_observed ::
  "accepts \<Rightarrow> novel_ids \<Rightarrow> int \<Rightarrow> connection \<Rightarrow> connection option" where
  "batch_add_observed A novel_ids batch_size conn =
     (let observed =
            map (\<lambda>(ob, g, t, r, d, sv, ev, d5, d3, len). [ob, g, t, r, d, sv, ev, d5, d3, len])
              (map snd (novel_observed novel_ids))
      in batch_loop
           (\<lambda>index c.
              fst (executemany A ''observed'' (py_slice observed index (index + batch_size)) c))
           batch_size (length observed) 0 conn)"

definition add_datasets :: "accepts \<Rightarrow> novel_ids \<Rightarrow> connection \<Rightarrow> connection" where
  "add_datasets A novel_ids conn =
     (let datasets = map (\<lambda>(i, nm, sample, platform). [i, nm, sample, platform])
                       (map snd (novel_datasets novel_ids))
      in fst (executemany A ''dataset'' datasets conn))"

definition update_counter :: "counter \<Rightarrow> connection \<Rightarrow> connection" where
  "update_counter counter conn =
     (let c1 = execute_update ''genes'' (counter_genes counter) conn;
          c2 = execute_update ''transcripts'' (counter_transcripts counter) c1;
          c3 = execute_update ''edge'' (counter_edges counter) c2;
          c4 = execute_update ''vertex'' (counter_vertices counter) c3;
          c5 = execute_update ''dataset'' (counter_datasets counter) c4
      in execute_update ''observed'' (counter_observed counter) c5)"

definition batch_add_abundance ::
  "accepts \<Rightarrow> abundance \<Rightarrow> int \<Rightarrow> connection \<Rightarrow> connection option" where
  "batch_add_abundance A abundance_dict batch_size conn =
     (let abundances =
            concat (map (\<lambda>(transcript_id, dataset_abundances).
                           map (\<lambda>(dataset, n). [transcript_id, PStr dataset, PInt n])
                             dataset_abundances)
                      abundance_dict)
      in batch_loop
           (\<lambda>index c.
              fst (executemany A ''abundance''
                     (py_slice abundances index (index + batch_size)) c))
           batch_size (length abundances) 0 conn)"

subsection \<open>The check and the commit\<close>

text \<open>
  The loop of \<open>check_database_integrity\<close> over the rows of \<open>counters\<close>: the first
  table whose number of rows differs from its counter raises the \<open>ValueError\<close> that
  names it; a name that is no table makes the \<open>COUNT\<close> query raise.
\<close>

definition counter_mismatch :: "string \<Rightarrow> py_error" where
  "counter_mismatch table_name =
     ValueError (''Database counter for '' @ [CHR 0x27] @ table_name @ [CHR 0x27]
                 @ '' does not match the number of entries in the table.''
                 @ '' Discarding changes to database and exiting...'')"

fun check_counters :: "(string \<times> int) list \<Rightarrow> connection \<Rightarrow> py_error option \<times> connection" where
  "check_counters [] conn = (None, conn)"
| "check_counters ((table_name, curr_counter) # counters) conn =
     (let conn1 = conn\<lparr>issued := issued conn @ [SelectCount table_name]\<rparr>
      in case count_rows (pending conn) table_name of
           None \<Rightarrow> (Some (OperationalError table_name), conn1)
         | Some actual_count \<Rightarrow>
             (if actual_count \<noteq> curr_counter then (Some (counter_mismatch table_name), conn1)
              else check_counters counters conn1))"

definition check_database_integrity :: "connection \<Rightarrow> py_error option \<times> connection" where
  "check_database_integrity conn =
     check_counters (db_counters (pending conn)) (conn\<lparr>issued := issued conn @ [SelectCounters]\<rparr>)"

text \<open>
  \<open>update_database\<close>.  The parameters \<open>datasets\<close> and \<open>transcripts\<close> are not used by
  the body and are left out.  The result is \<open>None\<close> when a batch loop does not end;
  otherwise it is the exception that left the function (if any) with the connection as
  it is then.  An exception from the check leaves before \<open>conn.commit()\<close>.
\<close>

definition update_database ::
  "accepts \<Rightarrow> database \<Rightarrow> counter \<Rightarrow> novel_ids \<Rightarrow> abundance \<Rightarrow> int \<Rightarrow> string
     \<Rightarrow> (py_error option \<times> connection) option" where
  "update_database A database counter novel_ids abundances batch_size genome_build =
     Option.bind (batch_add_genes A novel_ids batch_size (connect database)) (\<lambda>c1.
     Option.bind (batch_add_transcripts A novel_ids batch_size c1) (\<lambda>c2.
     Option.bind (batch_add_edges A novel_ids batch_size c2) (\<lambda>c3.
     Option.bind (batch_add_vertices_and_locations A novel_ids genome_build batch_size c3) (\<lambda>c4.
     Option.bind (batch_add_observed A novel_ids batch_size c4) (\<lambda>c5.
     Option.bind (batch_add_abundance A abundances batch_size
                    (update_counter counter (add_datasets A novel_ids c5))) (\<lambda>c8.
       (case check_database_integrity c8 of
          (Some err, c9) \<Rightarrow> Some (Some err, c9)
        | (None, c9) \<Rightarrow> Some (None, commit c9))))))))"

subsection \<open>Reading the statements of a run\<close>

text \<open>
  Predicates on the statements a connection has issued: every statement of a list is
  an \<open>INSERT\<close> into one of the given tables; every statement is one of the two
  \<open>SELECT\<close> queries of the check.
\<close>

definition inserts_into :: "string list \<Rightarrow> statement list \<Rightarrow> bool" where
  "inserts_into tables stmts =
     list_all (\<lambda>s. case s of InsertMany t _ \<Rightarrow> t \<in> set tables | _ \<Rightarrow> False) stmts"

definition selects_only :: "statement list \<Rightarrow> bool" where
  "selects_only stmts =
     list_all (\<lambda>s. case s of SelectCounters \<Rightarrow> True | SelectCount _ \<Rightarrow> True | _ \<Rightarrow> False) stmts"

text \<open>
  \<open>staged tables c c'\<close>: from \<open>c\<close> to \<open>c'\<close> only inserts into \<open>tables\<close> were
  issued, nothing was committed and the table \<open>counters\<close> is as it was.
\<close>

definition staged :: "string list \<Rightarrow> connection \<Rightarrow> connection \<Rightarrow> bool" where
  "staged tables c c' =
     (durable c' = durable c \<and> db_counters (pending c') = db_counters (pending c)
      \<and> (\<exists>ops. issued c' = issued c @ ops \<and> inserts_into tables ops))"

text \<open>Every table named in \<open>counters\<close> has as many rows as its counter says.\<close>

definition counts_match :: "database \<Rightarrow> bool" where
  "counts_match db = list_all (\<lambda>(t, n). count_rows db t = Some n) (db_counters db)"

text \<open>The six statements of \<open>update_counter\<close>, in the order of the source.\<close>

definition counter_updates :: "counter \<Rightarrow> statement list" where
  "counter_updates cnt =
       [UpdateCounter ''genes'' (counter_genes cnt),
        UpdateCounter ''transcripts'' (counter_transcripts cnt),
        UpdateCounter ''edge'' (counter_edges cnt),
        UpdateCounter ''vertex'' (counter_vertices cnt),
        UpdateCounter ''dataset'' (counter_datasets cnt),
        UpdateCounter ''observed'' (counter_observed cnt)]"

text \<open>
  The values of \<open>index\<close> at which the body of a batch loop over \<open>n\<close> entries runs
  (\<open>0\<close>, \<open>batch_size\<close>, and so on below \<open>n\<close>; none for a batch size that is not
  positive), and the batch that starts at an index.
\<close>

function batch_starts :: "nat \<Rightarrow> nat \<Rightarrow> nat \<Rightarrow> nat list" where
  "batch_starts b n i = (if 0 < b \<and> i < n then i # batch_starts b n (i + b) else [])"
  by pat_completeness auto
termination by (relation "measure (\<lambda>(b, n, i). n - i)") auto

declare batch_starts.simps [simp del]

definition batch_of :: "'a list \<Rightarrow> nat \<Rightarrow> nat \<Rightarrow> 'a list" where
  "batch_of xs b i = take b (drop i xs)"

text \<open>
  The statements each step of \<open>update_database\<close> is to issue, written out from the
  rows staged in \<open>novel_ids\<close> and \<open>abundances\<close>: for every batch of genes the insert
  into \<open>genes\<close> and then the one into \<open>gene_annotations\<close>; the same for
  transcripts; all batches of edges and then all batches of exon annotations; for every
  batch of vertices the insert into \<open>vertex\<close> and, unless that one raised, the insert
  into \<open>location\<close> (\<open>raised\<close> tells for each batch whether the insert into
  \<open>vertex\<close> raised); the batches of observed records; the one insert of the datasets;
  the batches of abundance rows.
\<close>

definition gene_statements :: "novel_ids \<Rightarrow> nat \<Rightarrow> statement list" where
  "gene_statements novel_ids b =
     (let novel_tuples = map snd (novel_genes novel_ids);
          gene_entries = map (\<lambda>(g, d). [g]) novel_tuples;
          gene_annotations =
            map (\<lambda>(g, d). [g, PStr ''talon_run'', d, PStr ''gene_status'', PStr ''NOVEL''])
              novel_tuples
      in concat (map (\<lambda>i. [InsertMany ''genes'' (batch_of gene_entries b i),
                           InsertMany ''gene_annotations'' (batch_of gene_annotations b i)])
                   (batch_starts b (length gene_entries) 0)))"

definition transcript_statements :: "novel_ids \<Rightarrow> nat \<Rightarrow> statement list" where
  "transcript_statements novel_ids b =
     (let novel_tuples = map snd (novel_transcripts novel_ids);
          transcript_entries =
            map (\<lambda>(t, g, path, sv, ev, n, d). [t, g, path, sv, ev, n]) novel_tuples;
          transcript_annotations =
            map (\<lambda>(t, g, path, sv, ev, n, d).
                   [t, PStr ''talon_run'', d, PStr ''transcript_status'', PStr ''NOVEL''])
              novel_tuples
      in concat (map (\<lambda>i. [InsertMany ''transcripts'' (batch_of transcript_entries b i),
                           InsertMany ''transcript_annotations''
                             (batch_of transcript_annotations b i)])
                   (batch_starts b (length transcript_entries) 0)))"

definition edge_statements :: "novel_ids \<Rightarrow> nat \<Rightarrow> statement list" where
  "edge_statements novel_ids b =
     (let edge_tuples = map snd (novel_edges novel_ids);
          edge_entries = map (\<lambda>(e, v1, v2, ty, d). [e, v1, v2, ty]) edge_tuples;
          exon_annotations =
            map (\<lambda>(e, v1, v2, ty, d).
                   [e, PStr ''talon_run'', d, PStr ''exon_status'', PStr ''NOVEL''])
              (filter (\<lambda>(e, v1, v2, ty, d). ty = PStr ''exon'') edge_tuples)
      in map (\<lambda>i. InsertMany ''edge'' (batch_of edge_entries b i))
           (batch_starts b (length edge_entries) 0)
         @ map (\<lambda>i. InsertMany ''exon_annotations'' (batch_of exon_annotations b i))
             (batch_starts b (length exon_annotations) 0))"

definition vertex_statements :: "novel_ids \<Rightarrow> string \<Rightarrow> nat \<Rightarrow> bool list \<Rightarrow> statement list" where
  "vertex_statements novel_ids genome_build b raised =
     (let novel_tuples = map snd (novel_vertices novel_ids);
          vertex_entries = map (\<lambda>(v, g, chrom, pos, strand). [v, g]) novel_tuples;
          location_entries =
            map (\<lambda>(v, g, chrom, pos, strand). [v, PStr genome_build, chrom, pos, strand])
              novel_tuples
      in concat (map (\<lambda>(i, r). if r then [InsertMany ''vertex'' (batch_of vertex_entries b i)]
                                else [InsertMany ''vertex'' (batch_of vertex_entries b i),
                                      InsertMany ''location'' (batch_of location_entries b i)])
                   (zip (batch_starts b (length vertex_entries) 0) raised)))"

definition observed_statements :: "novel_ids \<Rightarrow> nat \<Rightarrow> statement list" where
  "observed_statements novel_ids b =
     (let observed =
            map (\<lambda>(ob, g, t, r, d, sv, ev, d5, d3, len). [ob, g, t, r, d, sv, ev, d5, d3, len])
              (map snd (novel_observed novel_ids))
      in map (\<lambda>i. InsertMany ''observed'' (batch_of observed b i))
           (batch_starts b (length observed) 0))"

definition dataset_statement :: "novel_ids \<Rightarrow> statement" where
  "dataset_statement novel_ids =
     InsertMany ''dataset''
       (map (\<lambda>(i, nm, sample, platform). [i, nm, sample, platform])
          (map snd (novel_datasets novel_ids)))"

definition abundance_statements :: "abundance \<Rightarrow> nat \<Rightarrow> statement list" where
  "abundance_statements abundance_dict b =
     (let abundances =
            concat (map (\<lambda>(transcript_id, dataset_abundances).
                           map (\<lambda>(dataset, n). [transcript_id, PStr dataset, PInt n])
                             dataset_abundances)
                      abundance_dict)
      in map (\<lambda>i. InsertMany ''abundance'' (batch_of abundances b i))
           (batch_starts b (length abundances) 0))"

text \<open>
  A small store for worked examples: one staged novel gene, the tables \<open>genes\<close> and
  \<open>gene_annotations\<close>, and the counter of \<open>genes\<close>.
\<close>

definition toy_database :: database where
  "toy_database = \<lparr>db_tables = [''genes'' \<mapsto> [], ''gene_annotations'' \<mapsto> []],
                   db_counters = [(''genes'', 0)]\<rparr>"

definition toy_novel_ids :: novel_ids where
  "toy_novel_ids = \<lparr>novel_datasets = [], novel_genes = [(PInt 1, (PInt 1, PStr ''d1''))],
                    novel_transcripts = [], novel_edges = [], novel_vertices = [],
                    novel_observed = []\<rparr>"

definition toy_counter :: counter where
  "toy_counter = \<lparr>counter_genes = 1, counter_transcripts = 0, counter_vertices = 0,
                  counter_edges = 0, counter_datasets = 0, counter_observed = 0\<rparr>"

text \<open>
  A store with every table of a run and rows staged for each of them: three genes, one
  transcript, three edges (two of them exons), three vertices, one observed record, one
  dataset and one abundance row.
\<close>

definition full_database :: database where
  "full_database =
     \<lparr>db_tables = [''genes'' \<mapsto> [], ''gene_annotations'' \<mapsto> [], ''transcripts'' \<mapsto> [],
                   ''transcript_annotations'' \<mapsto> [], ''edge'' \<mapsto> [],
                   ''exon_annotations'' \<mapsto> [], ''vertex'' \<mapsto> [], ''location'' \<mapsto> [],
                   ''observed'' \<mapsto> [], ''dataset'' \<mapsto> [], ''abundance'' \<mapsto> []],
      db_counters = [(''genes'', 0), (''transcripts'', 0), (''edge'', 0), (''vertex'', 0),
                     (''dataset'', 0), (''observed'', 0)]\<rparr>"

definition full_novel_ids :: novel_ids where
  "full_novel_ids =
     \<lparr>novel_datasets = [(PInt 1, (PInt 1, PStr ''d1'', PStr ''s1'', PStr ''p1''))],
      novel_genes = [(PInt 1, (PInt 1, PStr ''d1'')), (PInt 2, (PInt 2, PStr ''d1'')),
                     (PInt 3, (PInt 3, PStr ''d1''))],
      novel_transcripts =
        [(PStr ''1'', (PStr ''1'', PInt 1, PStr ''1'', PInt 1, PInt 2, PInt 1, PStr ''d1''))],
      novel_edges = [(PInt 1, (PInt 1, PInt 1, PInt 2, PStr ''exon'', PStr ''d1'')),
                     (PInt 2, (PInt 2, PInt 2, PInt 3, PStr ''intron'', PStr ''d1'')),
                     (PInt 3, (PInt 3, PInt 3, PInt 4, PStr ''exon'', PStr ''d1''))],
      novel_vertices = [(PInt 1, (PInt 1, PInt 1, PStr ''chr1'', PInt 100, PStr ''+'')),
                        (PInt 2, (PInt 2, PInt 1, PStr ''chr1'', PInt 200, PStr ''+'')),
                        (PInt 3, (PInt 3, PInt 1, PStr ''chr1'', PInt 300, PStr ''+''))],
      novel_observed =
        [(PStr ''1'', (PStr ''1'', PInt 1, PStr ''1'', PStr ''r1'', PStr ''d1'', PInt 1, PInt 2,
                       PInt 0, PInt 0, PInt 101))]\<rparr>"

definition full_counter :: counter where
  "full_counter = \<lparr>counter_genes = 3, counter_transcripts = 1, counter_vertices = 3,
                   counter_edges = 3, counter_datasets = 1, counter_observed = 1\<rparr>"

definition full_abundance :: abundance where
  "full_abundance = [(PStr ''1'', [(''d1'', 5)])]"

subsection \<open>Reading the state of a run\<close>

text \<open>
  \<open>edges_only st st'\<close>: from \<open>st\<close> to \<open>st'\<close> nothing but the two edge trees, the
  vertices, the counters of edges and vertices and the staged edges and vertices may
  have changed.
\<close>

definition edges_only :: "'v run_state \<Rightarrow> 'v run_state \<Rightarrow> bool" where
  "edges_only st st' =
     (st_gene_tree st' = st_gene_tree st
      \<and> st_transcripts st' = st_transcripts st
      \<and> st_abundance st' = st_abundance st
      \<and> counter_genes (st_counter st') = counter_genes (st_counter st)
      \<and> counter_transcripts (st_counter st') = counter_transcripts (st_counter st)
      \<and> counter_datasets (st_counter st') = counter_datasets (st_counter st)
      \<and> counter_observed (st_counter st') = counter_observed (st_counter st)
      \<and> novel_datasets (st_novel_ids st') = novel_datasets (st_novel_ids st)
      \<and> novel_genes (st_novel_ids st') = novel_genes (st_novel_ids st)
      \<and> novel_transcripts (st_novel_ids st') = novel_transcripts (st_novel_ids st)
      \<and> novel_observed (st_novel_ids st') = novel_observed (st_novel_ids st))"




text \<open>
  The observation identifier that is allocated when the counter stands at \<open>c\<close>, and
  the invariant of the staged observations: every key is the string of an integer up to
  the counter.  It holds at the start of a run, where nothing is staged.
\<close>

definition observed_id :: "int \<Rightarrow> pyval" where
  "observed_id c = PStr (str_int (c + 1))"

definition observed_keys_upto :: "int \<Rightarrow> (pyval \<times> observed_tuple) list \<Rightarrow> bool" where
  "observed_keys_upto c staged_rows = (\<forall>k \<in> fst ` set staged_rows. \<exists>i \<le> c. k = PStr (str_int i))"

text \<open>
  Modelled from the spec: the overlap search of the Gene Locus Index
  (\<open>genetree.py\<close> is not among the sources).  "Searches all known gene intervals whose
  span overlaps the read's span on the same strand; if several qualify, policy picks the
  gene whose span overlap is largest (tie-break: lowest gene identifier)"; the result is
  the gene identifier or \<open>None\<close>.  Identifiers are ranked as integers.
\<close>

definition overlap :: "int \<Rightarrow> int \<Rightarrow> gene \<Rightarrow> int" where
  "overlap start end_pos g = min end_pos (g_end g) - max start (g_start g) + 1"

definition ident_rank :: "pyval \<Rightarrow> int" where
  "ident_rank v = (case v of PInt i \<Rightarrow> i | _ \<Rightarrow> 0)"

definition find_gene_by_overlap :: "gene_tree \<Rightarrow> string \<Rightarrow> int \<Rightarrow> int \<Rightarrow> string \<Rightarrow> pyval" where
  "find_gene_by_overlap genes chromosome start end_pos strand =
     (case filter (\<lambda>g. g_chromosome g = chromosome \<and> g_strand g = strand
                        \<and> g_start g \<le> end_pos \<and> start \<le> g_end g) (map snd genes) of
        [] \<Rightarrow> PNone
      | g # gs \<Rightarrow>
          g_identifier
            (foldl (\<lambda>best h.
                      if overlap start end_pos best < overlap start end_pos h
                         \<or> (overlap start end_pos h = overlap start end_pos best
                             \<and> ident_rank (g_identifier h) < ident_rank (g_identifier best))
                      then h else best) g gs))"

text \<open>
  The edge trees of a well-formed run: every edge is stored under its own identifier,
  the identifiers are integers up to the edge counter, and no identifier is in both
  trees (the table \<open>edge\<close> has one row per identifier, and the counter is the number of
  rows).  \<open>tree_grows\<close>: every identifier of the first tree is in the second one, under
  the same gene.
\<close>

definition tree_wf :: "int \<Rightarrow> edge_tree \<Rightarrow> bool" where
  "tree_wf c tree =
     (\<forall>k e0. tree k = Some e0 \<longrightarrow> e_identifier e0 = k \<and> (\<exists>i \<le> c. k = PInt i))"

definition edges_wf :: "'v run_state \<Rightarrow> bool" where
  "edges_wf st =
     (tree_wf (counter_edges (st_counter st)) (st_exon_tree st)
      \<and> tree_wf (counter_edges (st_counter st)) (st_intron_tree st)
      \<and> dom (st_exon_tree st) \<inter> dom (st_intron_tree st) = {})"

definition tree_grows :: "edge_tree \<Rightarrow> edge_tree \<Rightarrow> bool" where
  "tree_grows tree tree' =
     (\<forall>k e0. tree k = Some e0 \<longrightarrow> (\<exists>e1. tree' k = Some e1 \<and> e_gene_id e1 = e_gene_id e0))"

text \<open>
  A transcript is gene-scoped in a state when each of its exons and introns carries the
  transcript's gene and its identifier names, in the exon or intron tree, an edge of that
  gene.  \<open>edge_ids\<close> are the edge identifiers a transcript uses.  \<open>loop_inv\<close> is the
  same for the two lists that the loop of \<open>make_novel_transcript\<close> builds.
\<close>

definition scoped_list :: "edge_tree \<Rightarrow> pyval \<Rightarrow> edge list \<Rightarrow> bool" where
  "scoped_list tree g es =
     (\<forall>e \<in> set es. e_gene_id e = g
         \<and> (\<exists>e1. tree (e_identifier e) = Some e1 \<and> e_gene_id e1 = g))"

definition transcript_scoped :: "'v run_state \<Rightarrow> transcript \<Rightarrow> bool" where
  "transcript_scoped st T =
     (scoped_list (st_exon_tree st) (t_gene_id T) (t_exons T)
      \<and> scoped_list (st_intron_tree st) (t_gene_id T) (t_introns T))"

definition edge_ids :: "transcript \<Rightarrow> pyval set" where
  "edge_ids T = e_identifier ` set (t_exons T @ t_introns T)"

definition loop_inv :: "pyval \<Rightarrow> edge list \<Rightarrow> edge list \<Rightarrow> 'v run_state \<Rightarrow> bool" where
  "loop_inv g exs ins st =
     (edges_wf st \<and> scoped_list (st_exon_tree st) g exs \<and> scoped_list (st_intron_tree st) g ins)"

subsection \<open>Instances for worked examples of the identification\<close>

text \<open>
  An instance of the absent modules: the tracker reports a fixed result, a vertex is
  found at every position and is named by the position, no gene is found by position,
  and \<open>try_vertex_update\<close> names the two vertices of an edge by its coordinates without
  staging anything.
\<close>

definition toy_modules :: "tracker \<Rightarrow> unit talon_modules" where
  "toy_modules tr =
     \<lparr>match_tracker = (\<lambda>q ts ex intr. Inr tr),
      get_all_edges = (\<lambda>t. t_exons t),
      get_5prime_vertex = (\<lambda>t. PInt (t_start t)),
      get_3prime_vertex = (\<lambda>t. PInt (t_end t)),
      get_edge_path = (\<lambda>t. PStr (join '','' (map (\<lambda>e. str (e_identifier e)) (t_exons t)))),
      search_for_gene = (\<lambda>q vs. Inr PNone),
      fetch_vertex = (\<lambda>vs chrom pos g. Inr (Some (PInt pos))),
      try_vertex_update = (\<lambda>e vs staged n. Inr (PInt (e_start e), PInt (e_end e), vs, staged, n)),
      get_difference = (\<lambda>a b strand. Inr (PInt (fst a - fst b), PInt (snd a - snd b)))\<rparr>"

text \<open>A known transcript of gene 1 with one exon, and a read at the same coordinates.\<close>

definition toy_exon :: edge where
  "toy_exon = \<lparr>e_identifier = PInt 1, e_chromosome = ''chr1'', e_start = 100, e_end = 200,
               e_strand = ''+'', e_gene_id = PInt 1, e_transcript_ids = [PStr ''1''],
               e_v1 = PInt 100, e_v2 = PInt 200\<rparr>"

definition toy_transcript :: transcript where
  "toy_transcript = \<lparr>t_identifier = PStr ''1'', t_gene_id = PInt 1, t_chromosome = ''chr1'',
                     t_start = 100, t_end = 200, t_strand = ''+'', t_exons = [toy_exon],
                     t_introns = [], t_n_exons = 1\<rparr>"

definition toy_read :: "string \<Rightarrow> string \<Rightarrow> sam_transcript" where
  "toy_read read_name strand =
     \<lparr>sam_identifier = read_name, sam_chromosome = ''chr1'', sam_start = 100, sam_end = 200,
      sam_strand = strand, sam_n_exons = 1, sam_all_edges = [(100, 200)], sam_length = 101,
      sam_dataset = ''d1'', sam_gene_ID = PNone, sam_transcript_ID = PNone, sam_novel = PNone,
      sam_diff_5 = PNone, sam_diff_3 = PNone\<rparr>"

text \<open>
  A read of one exon inside the span of gene 1 and away from the known exon: it matches
  no known edge.
\<close>

definition toy_inner_read :: sam_transcript where
  "toy_inner_read =
     (toy_read ''r1'' ''+'')\<lparr>sam_start := 300, sam_end := 400, sam_all_edges := [(300, 400)]\<rparr>"

text \<open>The tracker results "full match with the known transcript" and "no match".\<close>

definition full_match_tracker :: tracker where
  "full_match_tracker =
     \<lparr>full_matches = [PStr ''1''], partial_matches = [],
      best_full_match = (toy_transcript, (PInt 0, PInt 0)),
      best_partial_match = toy_transcript, best_edge_matches = [PInt 1]\<rparr>"

definition no_match_tracker :: tracker where
  "no_match_tracker =
     \<lparr>full_matches = [], partial_matches = [],
      best_full_match = (toy_transcript, (PNone, PNone)),
      best_partial_match = toy_transcript, best_edge_matches = [PNone]\<rparr>"

text \<open>
  The state of a run with the known gene 1 (spanning 1 to 1000 on \<open>chr1\<close>, strand
  \<open>+\<close>), its transcript and its exon, and the counters of such a database.
\<close>

definition toy_state :: "unit run_state" where
  "toy_state =
     \<lparr>st_gene_tree = [(PInt 1, \<lparr>g_identifier = PInt 1, g_chromosome = ''chr1'', g_start = 1,
                                   g_end = 1000, g_strand = ''+''\<rparr>)],
      st_transcripts = [PStr ''1'' \<mapsto> toy_transcript],
      st_exon_tree = [PInt 1 \<mapsto> toy_exon],
      st_intron_tree = Map.empty,
      st_vertices = (),
      st_counter = \<lparr>counter_genes = 1, counter_transcripts = 1, counter_vertices = 2,
                     counter_edges = 1, counter_datasets = 1, counter_observed = 0\<rparr>,
      st_novel_ids = \<lparr>novel_datasets = [], novel_genes = [], novel_transcripts = [],
                       novel_edges = [], novel_vertices = [], novel_observed = []\<rparr>,
      st_abundance = []\<rparr>"

section \<open>Properties of transcript.py\<close>

text \<open>
  C9.  For all integers \<open>s\<close> and \<open>e\<close>, \<open>add_exon\<close> raises a \<open>ValueError\<close> and leaves
  the object (so also its exon list) as it was exactly when \<open>s > e\<close>; otherwise it
  raises nothing and the exon list is the old one followed by the two integers \<open>s\<close>
  and \<open>e\<close> as two flat elements, so its length grows by two and every other attribute
  is untouched.
\<close>

theorem add_exon_flat_or_raises:
  "((\<exists>msg. fst (add_exon t s e) = Some (ValueError msg)) = (s > e))
   \<and> ((fst (add_exon t s e) = None) = (\<not> s > e))
   \<and> (if s > e then snd (add_exon t s e) = t
       else T_exons (snd (add_exon t s e)) = T_exons t @ [s, e]
            \<and> length (T_exons (snd (add_exon t s e))) = length (T_exons t) + 2
            \<and> snd (add_exon t s e) = t\<lparr>T_exons := T_exons t @ [s, e]\<rparr>)"
  by (simp add: add_exon_def)

section \<open>Properties of initialize\_talon\_database.py\<close>

subsection \<open>Allocation of vertices and edges\<close>











subsection \<open>The dictionary of exons\<close>

lemma read_gtf_exon_branch:
  "fst (read_gtf_exon d e) =
     (if transcript_ids e = [] \<or> map_of (annotations e) ''gene_id'' = None then None
      else Some Update_existing_exon)"
  by (cases d) (auto simp: read_gtf_exon_def Let_def split: list.splits option.splits)

lemma read_gtf_exon_exons:
  assumes "snd (read_gtf_exon (g, t, x) e) = Inr (g', t', x')"
  shows "x' = x(edge_identifier e \<mapsto> e)" and "g' = g" and "t' = t"
  using assms
  by (auto simp: read_gtf_exon_def Let_def set_add_def domIff
           split: list.splits option.splits if_splits)

lemma read_gtf_exon_stored:
  "read_gtf_exon (g, t, x) e = (br, Inr (g', t', x')) \<Longrightarrow> x' = x(edge_identifier e \<mapsto> e)"
  using read_gtf_exon_exons(1) [of g t x e g' t' x'] by simp

lemma read_gtf_exon_returns:
  "(\<exists>r. snd (read_gtf_exon (g, t, x) e) = Inr r)
   = (transcript_ids e \<noteq> [] \<and> map_of (annotations e) ''gene_id'' \<noteq> None
      \<and> hd (transcript_ids e) \<notin> dom t)"
  by (auto simp: read_gtf_exon_def Let_def domIff split: list.splits option.splits)

lemma read_gtf_exon_type_error:
  assumes "transcript_ids e \<noteq> []" and "map_of (annotations e) ''gene_id'' \<noteq> None"
    and "hd (transcript_ids e) \<in> dom t"
  shows "read_gtf_exon (g, t, x) e
         = (Some Update_existing_exon,
            Inl (TypeError ''add_exon() takes exactly 3 arguments (2 given)''))"
  using assms
  by (auto simp: read_gtf_exon_def Let_def domIff split: list.splits option.splits)

lemma read_gtf_exon_branch_some:
  "read_gtf_exon d e = (Some b, r) \<Longrightarrow> b = Update_existing_exon"
  using read_gtf_exon_branch [of d e] by (auto split: if_splits)

lemma read_gtf_exon_branch_returned:
  "read_gtf_exon (g, t, x) e = (br, Inr r) \<Longrightarrow> br = Some Update_existing_exon"
  by (auto simp: read_gtf_exon_def Let_def domIff split: list.splits option.splits if_splits)

lemma read_gtf_line_branches:
  "set (fst (read_gtf_line M d l)) \<subseteq> {Update_existing_exon}"
  by (cases d)
     (auto simp: read_gtf_line_def Let_def dest: read_gtf_exon_branch_some
           split: sum.splits option.splits prod.splits)

lemma read_gtf_lines_branches:
  "set (fst (read_gtf_lines M d ls)) \<subseteq> {Update_existing_exon}"
proof (induction ls arbitrary: d)
  case Nil
  then show ?case by simp
next
  case (Cons l ls)
  obtain bs r where step: "read_gtf_line M d l = (bs, r)" by (cases "read_gtf_line M d l")
  have b: "set bs \<subseteq> {Update_existing_exon}"
    using read_gtf_line_branches [of M d l] step by simp
  show ?case
  proof (cases r)
    case (Inl err)
    with step b show ?thesis by simp
  next
    case (Inr d')
    obtain bs' r' where rest: "read_gtf_lines M d' ls = (bs', r')"
      by (cases "read_gtf_lines M d' ls")
    have "set bs' \<subseteq> {Update_existing_exon}" using Cons.IH [of d'] rest by simp
    with step b Inr rest show ?thesis by simp
  qed
qed

lemma read_gtf_line_exons:
  assumes "snd (read_gtf_line M (g, t, x) l) = Inr (g', t', x')"
  shows "x' = exons_after_line M x l"
    and "fst (read_gtf_line M (g, t, x) l)
         = (if exon_of_line M l = None then [] else [Update_existing_exon])"
proof -
  show "x' = exons_after_line M x l"
    using assms
    by (auto simp: read_gtf_line_def exon_of_line_def exons_after_line_def Let_def
             dest: read_gtf_exon_stored
             split: sum.splits option.splits if_splits prod.splits)
  show "fst (read_gtf_line M (g, t, x) l)
         = (if exon_of_line M l = None then [] else [Update_existing_exon])"
    using assms
    by (auto simp: read_gtf_line_def exon_of_line_def Let_def
             dest: read_gtf_exon_branch_returned
             split: sum.splits option.splits if_splits prod.splits)
qed

lemma read_gtf_lines_exons:
  assumes "snd (read_gtf_lines M (g, t, x) ls) = Inr (g', t', x')"
  shows "x' = foldl (exons_after_line M) x ls
     \<and> fst (read_gtf_lines M (g, t, x) ls)
         = replicate (length (filter (\<lambda>l. exon_of_line M l \<noteq> None) ls)) Update_existing_exon"
  using assms
proof (induction ls arbitrary: g t x)
  case Nil
  then show ?case by simp
next
  case (Cons l ls)
  obtain bs r where step: "read_gtf_line M (g, t, x) l = (bs, r)"
    by (cases "read_gtf_line M (g, t, x) l")
  from Cons.prems step obtain g1 t1 x1 where r: "r = Inr (g1, t1, x1)"
    by (cases r) (auto split: prod.splits)
  obtain bs' r' where rest: "read_gtf_lines M (g1, t1, x1) ls = (bs', r')"
    by (cases "read_gtf_lines M (g1, t1, x1) ls")
  from Cons.prems step r rest have r': "r' = Inr (g', t', x')" by simp
  have s: "snd (read_gtf_line M (g, t, x) l) = Inr (g1, t1, x1)" using step r by simp
  note line = read_gtf_line_exons [OF s]
  have "snd (read_gtf_lines M (g1, t1, x1) ls) = Inr (g', t', x')" using rest r' by simp
  note IH = Cons.IH [OF this]
  have "fst (read_gtf_lines M (g, t, x) (l # ls)) = bs @ bs'" using step r rest by simp
  with line IH step rest show ?case by simp
qed

lemma foldl_exons_keep:
  assumes "\<forall>l \<in> set ls. \<forall>e'. exon_of_line M l = Some e' \<longrightarrow> edge_identifier e' \<noteq> k"
  shows "foldl (exons_after_line M) x ls k = x k"
  using assms
  by (induction ls arbitrary: x) (auto simp: exons_after_line_def split: option.splits)

lemma later_entry_stored:
  assumes run: "snd (read_gtf_file M (ls1 @ l # ls2)) = Inr (g, t, x)"
    and l: "exon_of_line M l = Some e"
    and last: "\<forall>l' \<in> set ls2. \<forall>e'. exon_of_line M l' = Some e'
                 \<longrightarrow> edge_identifier e' \<noteq> edge_identifier e"
  shows "x (edge_identifier e) = Some e"
proof -
  let ?f = "exons_after_line M"
  have "x = foldl ?f Map.empty (ls1 @ l # ls2)"
    using run read_gtf_lines_exons unfolding read_gtf_file_def by blast
  then have "x (edge_identifier e)
      = foldl ?f (?f (foldl ?f Map.empty ls1) l) ls2 (edge_identifier e)"
    by simp
  also have "\<dots> = ?f (foldl ?f Map.empty ls1) l (edge_identifier e)"
    using foldl_exons_keep [OF last] by blast
  also have "\<dots> = Some e"
    using l by (simp add: exons_after_line_def)
  finally show ?thesis .
qed

lemma returned_file_branches:
  assumes run: "snd (read_gtf_file M ls) = Inr (g, t, x)"
  shows "fst (read_gtf_file M ls)
         = replicate (length (filter (\<lambda>l. exon_of_line M l \<noteq> None) ls)) Update_existing_exon"
  using run read_gtf_lines_exons unfolding read_gtf_file_def by blast

lemma no_new_edge_branch: "Add_new_edge \<notin> set (fst (read_gtf_file M ls))"
  using read_gtf_lines_branches [of M "(Map.empty, Map.empty, Map.empty)" ls]
  unfolding read_gtf_file_def by auto

lemmas eval_gtf = read_gtf_file_def read_gtf_line_def read_gtf_exon_def toy_gtf_classes_def
  toy_exon_line_def strip_def is_space_def startswith_def Let_def set_add_def

lemma toy_two_exons:
  "\<exists>g t x. read_gtf_file toy_gtf_classes
              [toy_exon_line ''E1'' ''T1'', toy_exon_line ''E1'' ''T2'']
            = ([Update_existing_exon, Update_existing_exon], Inr (g, t, x))"
  by (simp add: eval_gtf)

lemma toy_transcript_then_exon:
  "read_gtf_file toy_gtf_classes [toy_transcript_line ''T1'', toy_exon_line ''E1'' ''T1'']
   = ([Update_existing_exon],
      Inl (TypeError ''add_exon() takes exactly 3 arguments (2 given)''))"
  by (simp add: eval_gtf toy_transcript_line_def get_transcript_from_gtf_def py_int_def
        is_digit_def digit_value_def quoted_after_def split_str.simps)

text \<open>
  C10.  In the \<open>exon\<close> branch the new \<open>Edge\<close> is stored under its identifier before
  the membership test, so the test \<open>location_exon_id not in exons\<close> is always false:
  an entry that reaches the test takes the branch ``Update existing exon entry'', and the
  branch ``Add the new edge'' is taken by no entry of any file.  The update fetches the
  entry just stored and adds that entry's own first transcript identifier to it, so one
  \<open>exon\<close> entry that returns turns the dictionary \<open>x0\<close> into
  \<open>x0(identifier \<mapsto> exon)\<close> whatever \<open>x0\<close> held under that identifier: nothing of
  an earlier entry is merged.  An entry returns exactly when its set of transcript
  identifiers is not empty, it has a \<open>gene_id\<close> annotation and its first transcript
  identifier is not a key of \<open>transcripts\<close> (for a known transcript the call of
  \<open>add_exon\<close> raises).  For the whole file: when \<open>read_gtf_file\<close> returns, and
  \<open>l\<close> is the last \<open>exon\<close> entry with its identifier, the dictionary maps that
  identifier to exactly the \<open>Edge\<close> that \<open>create_edge_from_gtf\<close> built from
  \<open>l\<close>, with the transcript identifiers of \<open>l\<close> alone, whichever entries with the
  same identifier came before; and every \<open>exon\<close> entry of the file took the update
  branch.
\<close>

theorem read_gtf_file_later_exon_replaces_earlier:
  "fst (read_gtf_exon (g0, t0, x0) exon) =
     (if transcript_ids exon = [] \<or> map_of (annotations exon) ''gene_id'' = None then None
      else Some Update_existing_exon)
   \<and> Add_new_edge \<notin> set (fst (read_gtf_file M ls))
   \<and> ((\<exists>r. snd (read_gtf_exon (g0, t0, x0) exon) = Inr r)
        = (transcript_ids exon \<noteq> [] \<and> map_of (annotations exon) ''gene_id'' \<noteq> None
           \<and> hd (transcript_ids exon) \<notin> dom t0))
   \<and> (snd (read_gtf_exon (g0, t0, x0) exon) = Inr (g1, t1, x1) \<longrightarrow>
        x1 = x0(edge_identifier exon \<mapsto> exon))
   \<and> (snd (read_gtf_file M (ls1 @ l # ls2)) = Inr (g, t, x)
        \<and> exon_of_line M l = Some e
        \<and> (\<forall>l' \<in> set ls2. \<forall>e'. exon_of_line M l' = Some e'
               \<longrightarrow> edge_identifier e' \<noteq> edge_identifier e) \<longrightarrow>
      x (edge_identifier e) = Some e
      \<and> transcript_ids (the (x (edge_identifier e))) = transcript_ids e
      \<and> fst (read_gtf_file M (ls1 @ l # ls2))
          = replicate (length (filter (\<lambda>l. exon_of_line M l \<noteq> None) (ls1 @ l # ls2)))
              Update_existing_exon)"
proof (intro conjI)
  show "fst (read_gtf_exon (g0, t0, x0) exon) =
     (if transcript_ids exon = [] \<or> map_of (annotations exon) ''gene_id'' = None then None
      else Some Update_existing_exon)"
    by (rule read_gtf_exon_branch)
  show "Add_new_edge \<notin> set (fst (read_gtf_file M ls))"
    by (rule no_new_edge_branch)
  show "(\<exists>r. snd (read_gtf_exon (g0, t0, x0) exon) = Inr r)
        = (transcript_ids exon \<noteq> [] \<and> map_of (annotations exon) ''gene_id'' \<noteq> None
           \<and> hd (transcript_ids exon) \<notin> dom t0)"
    by (rule read_gtf_exon_returns)
  show "snd (read_gtf_exon (g0, t0, x0) exon) = Inr (g1, t1, x1) \<longrightarrow>
        x1 = x0(edge_identifier exon \<mapsto> exon)"
    using read_gtf_exon_exons(1) [of g0 t0 x0 exon g1 t1 x1] by blast
  show "snd (read_gtf_file M (ls1 @ l # ls2)) = Inr (g, t, x)
        \<and> exon_of_line M l = Some e
        \<and> (\<forall>l' \<in> set ls2. \<forall>e'. exon_of_line M l' = Some e'
               \<longrightarrow> edge_identifier e' \<noteq> edge_identifier e) \<longrightarrow>
      x (edge_identifier e) = Some e
      \<and> transcript_ids (the (x (edge_identifier e))) = transcript_ids e
      \<and> fst (read_gtf_file M (ls1 @ l # ls2))
          = replicate (length (filter (\<lambda>l. exon_of_line M l \<noteq> None) (ls1 @ l # ls2)))
              Update_existing_exon"
    using later_entry_stored [of M ls1 l ls2 g t x e]
          returned_file_branches [of M "ls1 @ l # ls2" g t x]
    by auto
qed

theorem read_gtf_file_later_exon_replaces_earlier_witness:
  "(\<exists>g t x. read_gtf_file toy_gtf_classes
               [toy_exon_line ''E1'' ''T1'', toy_exon_line ''E1'' ''T2'']
             = ([Update_existing_exon, Update_existing_exon], Inr (g, t, x))
      \<and> x ''E1'' = Some \<lparr>edge_identifier = ''E1'', transcript_ids = [''T2''],
                          annotations = [(''gene_id'', ''G1'')]\<rparr>)
   \<and> read_gtf_file toy_gtf_classes [toy_transcript_line ''T1'', toy_exon_line ''E1'' ''T1'']
     = ([Update_existing_exon],
        Inl (TypeError ''add_exon() takes exactly 3 arguments (2 given)''))"
proof -
  let ?e = "\<lparr>edge_identifier = ''E1'', transcript_ids = [''T2''],
             annotations = [(''gene_id'', ''G1'')]\<rparr>"
  from toy_two_exons obtain g t x where
    run: "read_gtf_file toy_gtf_classes
            ([toy_exon_line ''E1'' ''T1''] @ toy_exon_line ''E1'' ''T2'' # [])
          = ([Update_existing_exon, Update_existing_exon], Inr (g, t, x))"
    by auto
  have l: "exon_of_line toy_gtf_classes (toy_exon_line ''E1'' ''T2'') = Some ?e"
    by (simp add: exon_of_line_def toy_gtf_classes_def toy_exon_line_def strip_def
          is_space_def startswith_def Let_def)
  have s: "snd (read_gtf_file toy_gtf_classes
                  ([toy_exon_line ''E1'' ''T1''] @ toy_exon_line ''E1'' ''T2'' # []))
           = Inr (g, t, x)"
    using run by simp
  have last: "\<forall>l' \<in> set []. \<forall>e'. exon_of_line toy_gtf_classes l' = Some e'
                \<longrightarrow> edge_identifier e' \<noteq> edge_identifier ?e"
    by simp
  note inst = read_gtf_file_later_exon_replaces_earlier
    [where M = toy_gtf_classes and ?ls1.0 = "[toy_exon_line ''E1'' ''T1'']"
       and l = "toy_exon_line ''E1'' ''T2''" and ?ls2.0 = "[]" and g = g and t = t and x = x
       and e = ?e, THEN conjunct2, THEN conjunct2, THEN conjunct2, THEN conjunct2]
  from inst s l last have "x (edge_identifier ?e) = Some ?e" by blast
  then have "x ''E1'' = Some ?e" by simp
  with run toy_transcript_then_exon show ?thesis by auto
qed

text \<open>
  C10 as the claim states it fails: the branch that adds a transcript identifier to the
  stored exon's set is not unreachable.  In a file whose only entry is one \<open>exon\<close>
  entry, that entry takes it, and \<open>read_gtf_file\<close> returns.
\<close>

theorem update_branch_runs_on_first_exon_entry:
  "\<exists>g t x. read_gtf_file toy_gtf_classes [toy_exon_line ''E7'' ''T1'']
            = ([Update_existing_exon], Inr (g, t, x))"
  by (simp add: read_gtf_file_def read_gtf_line_def read_gtf_exon_def toy_gtf_classes_def
        toy_exon_line_def strip_def is_space_def startswith_def Let_def set_add_def)

section \<open>Properties of update\_database\<close>

lemma inserts_into_append:
  "inserts_into T (xs @ ys) = (inserts_into T xs \<and> inserts_into T ys)"
  by (simp add: inserts_into_def)

lemma staged_refl: "staged T c c"
  by (simp add: staged_def inserts_into_def)

lemma staged_trans: "staged T a b \<Longrightarrow> staged T b c \<Longrightarrow> staged T a c"
  by (auto simp: staged_def inserts_into_append)

lemma insert_rows_counters: "db_counters (fst (insert_rows A t rs db)) = db_counters db"
  by (induction rs arbitrary: db) (auto split: option.splits)

lemma executemany_staged:
  "t \<in> set T \<Longrightarrow> staged T c (fst (executemany A t batch c))"
  by (auto simp: staged_def executemany_def inserts_into_def insert_rows_counters
           split: option.splits prod.splits)
     (metis fst_conv insert_rows_counters)

lemma batch_loop_staged:
  assumes run: "batch_loop body bs n i c = Some c'"
    and body: "\<And>i c. staged T c (body i c)"
  shows "staged T c c'"
proof -
  have "(\<forall>i c. staged T c (body i c)) \<longrightarrow> staged T c c'"
  proof (rule batch_loop.raw_induct
      [where P = "\<lambda>body bs n i c c'. (\<forall>i c. staged T c (body i c)) \<longrightarrow> staged T c c'"])
    show "batch_loop body bs n i c = Some c'" by (rule run)
  next
    fix f :: "(int \<Rightarrow> connection \<Rightarrow> connection) \<Rightarrow> int \<Rightarrow> nat \<Rightarrow> int \<Rightarrow> connection \<Rightarrow> connection option"
    fix body bs n i c y
    assume IH: "\<And>body bs n i c y. f body bs n i c = Some y
                  \<Longrightarrow> (\<forall>i c. staged T c (body i c)) \<longrightarrow> staged T c y"
      and step: "(if i < int n then f body bs n (i + bs) (body i c) else Some c) = Some y"
    show "(\<forall>i c. staged T c (body i c)) \<longrightarrow> staged T c y"
    proof (cases "i < int n")
      case True
      with step have "f body bs n (i + bs) (body i c) = Some y" by simp
      from IH [OF this] show ?thesis by (auto intro: staged_trans)
    next
      case False
      with step show ?thesis by (simp add: staged_refl)
    qed
  qed
  with body show ?thesis by blast
qed

lemma batch_loop_total:
  assumes "0 < bs"
  shows "\<exists>c'. batch_loop body bs n i c = Some c'"
  using assms
proof (induction "nat (int n - i)" arbitrary: i c rule: less_induct)
  case less
  show ?case
  proof (cases "i < int n")
    case True
    then have "nat (int n - (i + bs)) < nat (int n - i)" using less.prems by linarith
    from less.hyps [OF this less.prems] obtain c' where
      "batch_loop body bs n (i + bs) (body i c) = Some c'" by blast
    with True show ?thesis by (subst batch_loop.simps) simp
  next
    case False
    then show ?thesis by (subst batch_loop.simps) simp
  qed
qed

lemma executemany_staged_pair:
  "executemany A t batch c = (c1, ok) \<Longrightarrow> t \<in> set T \<Longrightarrow> staged T c c1"
  using executemany_staged [of t T c A batch] by simp

lemma batch_add_genes_staged:
  "batch_add_genes A nov bs c = Some c' \<Longrightarrow> staged [''genes'', ''gene_annotations''] c c'"
  unfolding batch_add_genes_def Let_def
  by (erule batch_loop_staged) (auto intro!: staged_trans [OF executemany_staged executemany_staged])

lemma batch_add_transcripts_staged:
  "batch_add_transcripts A nov bs c = Some c' \<Longrightarrow> staged [''transcripts'', ''transcript_annotations''] c c'"
  unfolding batch_add_transcripts_def Let_def
  by (erule batch_loop_staged) (auto intro!: staged_trans [OF executemany_staged executemany_staged])

lemma batch_add_edges_staged:
  "batch_add_edges A nov bs c = Some c' \<Longrightarrow> staged [''edge'', ''exon_annotations''] c c'"
  unfolding batch_add_edges_def Let_def
  by (auto simp: bind_eq_Some_conv intro!: executemany_staged
        elim!: staged_trans [OF batch_loop_staged batch_loop_staged])

lemma batch_add_vertices_staged:
  "batch_add_vertices_and_locations A nov gb bs c = Some c' \<Longrightarrow> staged [''vertex'', ''location''] c c'"
  unfolding batch_add_vertices_and_locations_def Let_def
proof (erule batch_loop_staged, goal_cases)
  case (1 i c)
  let ?T = "[''vertex'', ''location'']"
  obtain c1 ok where e: "executemany A ''vertex''
      (py_slice (map (\<lambda>(v, g, chrom, pos, strand). [v, g]) (map snd (novel_vertices nov))) i (i + bs)) c = (c1, ok)"
    by (cases "executemany A ''vertex''
      (py_slice (map (\<lambda>(v, g, chrom, pos, strand). [v, g]) (map snd (novel_vertices nov))) i (i + bs)) c")
  have s1: "staged ?T c c1" using executemany_staged_pair [OF e] by simp
  have s2: "\<And>b. staged ?T c1 (fst (executemany A ''location'' b c1))"
    by (rule executemany_staged) simp
  show ?case using e s1 staged_trans [OF s1 s2] by (simp split: prod.splits)
qed

lemma batch_add_observed_staged:
  "batch_add_observed A nov bs c = Some c' \<Longrightarrow> staged [''observed''] c c'"
  unfolding batch_add_observed_def Let_def
  by (erule batch_loop_staged) (auto intro!: executemany_staged)

lemma batch_add_abundance_staged:
  "batch_add_abundance A ab bs c = Some c' \<Longrightarrow> staged [''abundance''] c c'"
  unfolding batch_add_abundance_def Let_def
  by (erule batch_loop_staged) (auto intro!: executemany_staged)

lemma check_counters_frame:
  assumes "check_counters cs c = (r, c')"
  shows "pending c' = pending c \<and> durable c' = durable c
     \<and> (\<exists>ops. issued c' = issued c @ ops \<and> selects_only ops)"
  using assms
proof (induction cs arbitrary: c)
  case Nil
  then show ?case by (simp add: selects_only_def)
next
  case (Cons a cs)
  obtain t n where a: "a = (t, n)" by (cases a)
  let ?c1 = "c\<lparr>issued := issued c @ [SelectCount t]\<rparr>"
  show ?case
  proof (cases "count_rows (pending c) t = Some n")
    case True
    with Cons.prems a have "check_counters cs ?c1 = (r, c')" by (simp add: Let_def)
    from Cons.IH [OF this] show ?thesis by (auto simp: selects_only_def)
  next
    case False
    with Cons.prems a show ?thesis
      by (auto simp: Let_def selects_only_def split: option.splits if_splits)
  qed
qed

lemma check_counters_error:
  assumes "check_counters cs c = (r, c')"
  shows "(r = None \<longrightarrow> list_all (\<lambda>(t, n). count_rows (pending c) t = Some n) cs)
     \<and> (\<forall>err. r = Some err \<longrightarrow>
           (\<exists>pre t n post. cs = pre @ (t, n) # post
              \<and> list_all (\<lambda>(t, n). count_rows (pending c) t = Some n) pre
              \<and> count_rows (pending c) t \<noteq> Some n
              \<and> err = (if count_rows (pending c) t = None
                        then OperationalError t else counter_mismatch t)))"
  using assms
proof (induction cs arbitrary: c)
  case Nil
  then show ?case by simp
next
  case (Cons a cs)
  obtain t n where a: "a = (t, n)" by (cases a)
  let ?c1 = "c\<lparr>issued := issued c @ [SelectCount t]\<rparr>"
  show ?case
  proof (cases "count_rows (pending c) t = Some n")
    case True
    with Cons.prems a have run: "check_counters cs ?c1 = (r, c')" by (simp add: Let_def)
    have p: "pending ?c1 = pending c" by simp
    note IH = Cons.IH [OF run, unfolded p]
    show ?thesis
    proof (intro conjI allI impI)
      assume "r = None"
      with IH True a show "list_all (\<lambda>(t, n). count_rows (pending c) t = Some n) (a # cs)"
        by simp
    next
      fix err assume "r = Some err"
      with IH obtain pre t' n' post where
        "cs = pre @ (t', n') # post"
        "list_all (\<lambda>(t, n). count_rows (pending c) t = Some n) pre"
        "count_rows (pending c) t' \<noteq> Some n'"
        "err = (if count_rows (pending c) t' = None
                then OperationalError t' else counter_mismatch t')"
        by blast
      with True a show "\<exists>pre t n post. a # cs = pre @ (t, n) # post
              \<and> list_all (\<lambda>(t, n). count_rows (pending c) t = Some n) pre
              \<and> count_rows (pending c) t \<noteq> Some n
              \<and> err = (if count_rows (pending c) t = None
                        then OperationalError t else counter_mismatch t)"
        by (intro exI [of _ "a # pre"] exI [of _ t'] exI [of _ n'] exI [of _ post]) simp
    qed
  next
    case False
    with Cons.prems a have r: "r = Some (if count_rows (pending c) t = None
                        then OperationalError t else counter_mismatch t)"
      by (auto simp: Let_def split: option.splits if_splits)
    show ?thesis
    proof (intro conjI allI impI)
      assume "r = None" with r show "list_all (\<lambda>(t, n). count_rows (pending c) t = Some n) (a # cs)"
        by simp
    next
      fix err assume "r = Some err"
      with r False a show "\<exists>pre t n post. a # cs = pre @ (t, n) # post
              \<and> list_all (\<lambda>(t, n). count_rows (pending c) t = Some n) pre
              \<and> count_rows (pending c) t \<noteq> Some n
              \<and> err = (if count_rows (pending c) t = None
                        then OperationalError t else counter_mismatch t)"
        by (intro exI [of _ "[]"] exI [of _ t] exI [of _ n] exI [of _ cs]) simp
    qed
  qed
qed

lemma add_datasets_staged: "staged [''dataset''] c (add_datasets A nov c)"
  unfolding add_datasets_def Let_def by (rule executemany_staged) simp

lemma add_datasets_issued:
  "\<exists>rows. issued (add_datasets A nov c) = issued c @ [InsertMany ''dataset'' rows]"
  by (simp add: add_datasets_def Let_def executemany_def split: prod.splits)

lemma update_counter_frame:
  "durable (update_counter cnt c) = durable c
   \<and> db_tables (pending (update_counter cnt c)) = db_tables (pending c)
   \<and> issued (update_counter cnt c) = issued c @
       [UpdateCounter ''genes'' (counter_genes cnt),
        UpdateCounter ''transcripts'' (counter_transcripts cnt),
        UpdateCounter ''edge'' (counter_edges cnt),
        UpdateCounter ''vertex'' (counter_vertices cnt),
        UpdateCounter ''dataset'' (counter_datasets cnt),
        UpdateCounter ''observed'' (counter_observed cnt)]"
  by (simp add: update_counter_def execute_update_def Let_def)

lemma staged_no_commit:
  "staged T c c' \<Longrightarrow> Commit \<notin> set (issued c) \<Longrightarrow> Commit \<notin> set (issued c')"
  by (auto simp: staged_def inserts_into_def list_all_iff split: statement.splits)

lemma selects_only_no_commit: "selects_only ops \<Longrightarrow> Commit \<notin> set ops"
  by (auto simp: selects_only_def list_all_iff split: statement.splits)

lemma update_counter_counters:
  "db_counters (pending c) = db_counters (pending c')
   \<Longrightarrow> db_counters (pending (update_counter cnt c)) = db_counters (pending (update_counter cnt c'))"
  by (simp add: update_counter_def execute_update_def Let_def)

lemma update_database_phases:
  assumes "update_database A db cnt nov ab bs gb = Some (outcome, conn)"
  obtains c1 c2 c3 c4 c5 c8 c9 where
    "staged [''genes'', ''gene_annotations''] (connect db) c1"
    "staged [''transcripts'', ''transcript_annotations''] c1 c2"
    "staged [''edge'', ''exon_annotations''] c2 c3"
    "staged [''vertex'', ''location''] c3 c4"
    "staged [''observed''] c4 c5"
    "staged [''abundance''] (update_counter cnt (add_datasets A nov c5)) c8"
    "check_database_integrity c8 = (outcome, c9)"
    "conn = (if outcome = None then commit c9 else c9)"
proof -
  from assms have "\<exists>c1 c2 c3 c4 c5 c8.
      batch_add_genes A nov bs (connect db) = Some c1
    \<and> batch_add_transcripts A nov bs c1 = Some c2
    \<and> batch_add_edges A nov bs c2 = Some c3
    \<and> batch_add_vertices_and_locations A nov gb bs c3 = Some c4
    \<and> batch_add_observed A nov bs c4 = Some c5
    \<and> batch_add_abundance A ab bs (update_counter cnt (add_datasets A nov c5)) = Some c8
    \<and> (case check_database_integrity c8 of
          (Some err, c9) \<Rightarrow> Some (Some err, c9)
        | (None, c9) \<Rightarrow> Some (None, commit c9)) = Some (outcome, conn)"
    by (simp only: update_database_def bind_eq_Some_conv) blast
  then obtain c1 c2 c3 c4 c5 c8 where
    1: "batch_add_genes A nov bs (connect db) = Some c1"
    and 2: "batch_add_transcripts A nov bs c1 = Some c2"
    and 3: "batch_add_edges A nov bs c2 = Some c3"
    and 4: "batch_add_vertices_and_locations A nov gb bs c3 = Some c4"
    and 5: "batch_add_observed A nov bs c4 = Some c5"
    and 8: "batch_add_abundance A ab bs (update_counter cnt (add_datasets A nov c5)) = Some c8"
    and fin: "(case check_database_integrity c8 of
          (Some err, c9) \<Rightarrow> Some (Some err, c9)
        | (None, c9) \<Rightarrow> Some (None, commit c9)) = Some (outcome, conn)"
    by blast
  obtain r c9 where chk: "check_database_integrity c8 = (r, c9)"
    by (cases "check_database_integrity c8")
  with fin have "r = outcome" and "conn = (if outcome = None then commit c9 else c9)"
    by (auto split: option.splits)
  with chk have a: "check_database_integrity c8 = (outcome, c9)"
    and b: "conn = (if outcome = None then commit c9 else c9)" by simp_all
  show thesis
    by (rule that [OF batch_add_genes_staged [OF 1] batch_add_transcripts_staged [OF 2]
      batch_add_edges_staged [OF 3] batch_add_vertices_staged [OF 4]
      batch_add_observed_staged [OF 5] batch_add_abundance_staged [OF 8] a b])
qed

lemma update_database_total:
  assumes "0 < bs"
  shows "\<exists>r. update_database A db cnt nov ab bs gb = Some r"
proof -
  note tot = batch_loop_total [OF assms]
  have 1: "\<And>c. \<exists>c'. batch_add_genes A nov bs c = Some c'"
    by (simp add: batch_add_genes_def Let_def tot)
  have 2: "\<And>c. \<exists>c'. batch_add_transcripts A nov bs c = Some c'"
    by (simp add: batch_add_transcripts_def Let_def tot)
  have 3: "\<And>c. \<exists>c'. batch_add_edges A nov bs c = Some c'"
  proof -
    fix c
    obtain c1 where "batch_loop
              (\<lambda>index c.
                 fst (executemany A ''edge''
                        (py_slice (map (\<lambda>(e, v1, v2, ty, d). [e, v1, v2, ty]) (map snd (novel_edges nov))) index (index + bs)) c))
              bs (length (map (\<lambda>(e, v1, v2, ty, d). [e, v1, v2, ty]) (map snd (novel_edges nov)))) 0 c = Some c1"
      using tot by blast
    then show "\<exists>c'. batch_add_edges A nov bs c = Some c'"
      by (simp add: batch_add_edges_def Let_def tot)
  qed
  have 4: "\<And>c. \<exists>c'. batch_add_vertices_and_locations A nov gb bs c = Some c'"
    by (simp add: batch_add_vertices_and_locations_def Let_def tot)
  have 5: "\<And>c. \<exists>c'. batch_add_observed A nov bs c = Some c'"
    by (simp add: batch_add_observed_def Let_def tot)
  have 8: "\<And>c. \<exists>c'. batch_add_abundance A ab bs c = Some c'"
    by (simp add: batch_add_abundance_def Let_def tot)
  obtain c1 where a1: "batch_add_genes A nov bs (connect db) = Some c1" using 1 by blast
  obtain c2 where a2: "batch_add_transcripts A nov bs c1 = Some c2" using 2 by blast
  obtain c3 where a3: "batch_add_edges A nov bs c2 = Some c3" using 3 by blast
  obtain c4 where a4: "batch_add_vertices_and_locations A nov gb bs c3 = Some c4" using 4 by blast
  obtain c5 where a5: "batch_add_observed A nov bs c4 = Some c5" using 5 by blast
  obtain c8 where a8: "batch_add_abundance A ab bs (update_counter cnt (add_datasets A nov c5)) = Some c8"
    using 8 by blast
  show ?thesis
    unfolding update_database_def using a1 a2 a3 a4 a5 a8
    by (simp split: prod.splits option.splits)
qed

lemma staged_from_connect:
  assumes "staged T1 (connect db) c1" "staged T2 c1 c2" "staged T3 c2 c3" "staged T4 c3 c4"
    "staged T5 c4 c5" "staged T8 (update_counter cnt (add_datasets A nov c5)) c8"
  shows "durable c8 = db"
    and "db_counters (pending c8) = db_counters (pending (update_counter cnt (connect db)))"
    and "Commit \<notin> set (issued c8)"
proof -
  have d5: "durable c5 = db" and k5: "db_counters (pending c5) = db_counters (pending (connect db))"
    using assms(1-5) by (simp_all add: staged_def connect_def)
  have n5: "Commit \<notin> set (issued c5)"
    using assms(1-5) staged_no_commit by (metis connect_def connection.select_convs(3) empty_iff list.set(1))
  let ?c6 = "add_datasets A nov c5"
  have s6: "staged [''dataset''] c5 ?c6" by (rule add_datasets_staged)
  have d6: "durable ?c6 = db" and k6: "db_counters (pending ?c6) = db_counters (pending (connect db))"
    using s6 d5 k5 by (simp_all add: staged_def)
  have n6: "Commit \<notin> set (issued ?c6)" using staged_no_commit [OF s6 n5] .
  let ?c7 = "update_counter cnt ?c6"
  have d7: "durable ?c7 = db" using d6 update_counter_frame by simp
  have k7: "db_counters (pending ?c7) = db_counters (pending (update_counter cnt (connect db)))"
    by (rule update_counter_counters [OF k6])
  have n7: "Commit \<notin> set (issued ?c7)" using n6 update_counter_frame [of cnt ?c6] by simp
  show "durable c8 = db" using assms(6) d7 by (simp add: staged_def)
  show "db_counters (pending c8) = db_counters (pending (update_counter cnt (connect db)))"
    using assms(6) k7 by (simp add: staged_def)
  show "Commit \<notin> set (issued c8)" using staged_no_commit [OF assms(6) n7] .
qed

lemma update_database_outcome:
  assumes run: "update_database A db cnt nov ab bs gb = Some (outcome, conn)"
  shows "db_counters (pending conn) = db_counters (pending (update_counter cnt (connect db)))"
    and "(outcome = None) = counts_match (pending conn)"
    and "outcome = None \<Longrightarrow> durable conn = pending conn \<and> last (issued conn) = Commit"
    and "outcome \<noteq> None \<Longrightarrow> durable conn = db \<and> Commit \<notin> set (issued conn)"
    and "outcome = Some err \<Longrightarrow>
           \<exists>pre t n post. db_counters (pending conn) = pre @ (t, n) # post
              \<and> list_all (\<lambda>(t, n). count_rows (pending conn) t = Some n) pre
              \<and> count_rows (pending conn) t \<noteq> Some n
              \<and> err = (if count_rows (pending conn) t = None
                        then OperationalError t else counter_mismatch t)"
proof -
  from update_database_phases [OF run] obtain c1 c2 c3 c4 c5 c8 c9 where
    st: "staged [''genes'', ''gene_annotations''] (connect db) c1"
    "staged [''transcripts'', ''transcript_annotations''] c1 c2"
    "staged [''edge'', ''exon_annotations''] c2 c3"
    "staged [''vertex'', ''location''] c3 c4"
    "staged [''observed''] c4 c5"
    "staged [''abundance''] (update_counter cnt (add_datasets A nov c5)) c8"
    and chk: "check_database_integrity c8 = (outcome, c9)"
    and conn: "conn = (if outcome = None then commit c9 else c9)"
    by blast
  note base = staged_from_connect [OF st]
  let ?c8' = "c8\<lparr>issued := issued c8 @ [SelectCounters]\<rparr>"
  from chk have cc: "check_counters (db_counters (pending ?c8')) ?c8' = (outcome, c9)"
    by (simp add: check_database_integrity_def)
  note fr = check_counters_frame [OF cc]
  note er = check_counters_error [OF cc]
  have p9: "pending c9 = pending c8" and d9: "durable c9 = durable c8" using fr by simp_all
  have pc: "pending conn = pending c8" using conn p9 by (simp add: commit_def)
  show "db_counters (pending conn) = db_counters (pending (update_counter cnt (connect db)))"
    using pc base(2) by simp
  have iff: "(outcome = None) = list_all (\<lambda>(t, n). count_rows (pending c8) t = Some n) (db_counters (pending c8))"
  proof
    assume "outcome = None" then show "list_all (\<lambda>(t, n). count_rows (pending c8) t = Some n) (db_counters (pending c8))"
      using er by simp
  next
    assume all: "list_all (\<lambda>(t, n). count_rows (pending c8) t = Some n) (db_counters (pending c8))"
    show "outcome = None"
    proof (cases outcome)
      case None then show ?thesis .
    next
      case (Some err)
      with er obtain pre t n post where
        "db_counters (pending c8) = pre @ (t, n) # post" "count_rows (pending c8) t \<noteq> Some n"
        by auto
      with all show ?thesis by simp
    qed
  qed
  then show "(outcome = None) = counts_match (pending conn)"
    by (simp add: counts_match_def pc)
  from fr obtain ops where ops: "issued c9 = issued c8 @ SelectCounters # ops" "selects_only ops"
    by auto
  show "outcome = None \<Longrightarrow> durable conn = pending conn \<and> last (issued conn) = Commit"
    using conn by (simp add: commit_def)
  show "outcome \<noteq> None \<Longrightarrow> durable conn = db \<and> Commit \<notin> set (issued conn)"
    using conn d9 base(1,3) ops selects_only_no_commit [OF ops(2)] by auto
  show "outcome = Some err \<Longrightarrow>
           \<exists>pre t n post. db_counters (pending conn) = pre @ (t, n) # post
              \<and> list_all (\<lambda>(t, n). count_rows (pending conn) t = Some n) pre
              \<and> count_rows (pending conn) t \<noteq> Some n
              \<and> err = (if count_rows (pending conn) t = None
                        then OperationalError t else counter_mismatch t)"
    using er pc by simp
qed

lemmas eval_db = update_database_def batch_add_genes_def batch_add_transcripts_def
  batch_add_edges_def batch_add_vertices_and_locations_def batch_add_observed_def
  add_datasets_def update_counter_def batch_add_abundance_def check_database_integrity_def
  executemany_def execute_update_def connect_def commit_def py_slice_def slice_bound_def
  count_rows_def toy_database_def toy_novel_ids_def toy_counter_def Let_def batch_loop.simps

lemma toy_update_commits: "\<exists>conn. update_database (\<lambda>_ _ _. True) toy_database toy_counter toy_novel_ids [] 2 ''hg38''
         = Some (None, conn)"
  by (simp add: eval_db)

lemma toy_update_refused: "\<exists>conn. update_database (\<lambda>_ _ _. False) toy_database toy_counter toy_novel_ids [] 2 ''hg38''
         = Some (Some (counter_mismatch ''genes''), conn)"
  by (simp add: eval_db)

text \<open>
  C1.  Whenever \<open>update_database\<close> returns or raises (and with a positive batch size
  it always does), the check has compared, for every row of \<open>counters\<close> as
  \<open>update_counter\<close> left it, the number of rows the table has after all staged inserts
  with the counter.  No exception leaves the function exactly when all of them agree,
  and only then is the transaction committed, as the last statement: the pending content
  becomes the durable one.  Otherwise the exception names the first table (in the order
  of \<open>counters\<close>) whose count differs from its counter or which does not exist; no
  \<open>Commit\<close> was issued and the durable content is the database as it was opened.
\<close>

theorem update_database_commits_iff_counts_match:
  "(0 < batch_size \<longrightarrow> (\<exists>r. update_database A db cnt nov ab batch_size gb = Some r))
   \<and> (update_database A db cnt nov ab batch_size gb = Some (outcome, conn) \<longrightarrow>
        db_counters (pending conn) = db_counters (pending (update_counter cnt (connect db)))
      \<and> (outcome = None) = counts_match (pending conn)
      \<and> (outcome = None \<longrightarrow> durable conn = pending conn \<and> last (issued conn) = Commit)
      \<and> (outcome \<noteq> None \<longrightarrow> durable conn = db \<and> Commit \<notin> set (issued conn))
      \<and> (\<forall>err. outcome = Some err \<longrightarrow>
            (\<exists>pre t n post. db_counters (pending conn) = pre @ (t, n) # post
               \<and> list_all (\<lambda>(t, n). count_rows (pending conn) t = Some n) pre
               \<and> count_rows (pending conn) t \<noteq> Some n
               \<and> err = (if count_rows (pending conn) t = None
                         then OperationalError t else counter_mismatch t))))"
  using update_database_total [of batch_size A db cnt nov ab gb]
        update_database_outcome [of A db cnt nov ab batch_size gb outcome conn]
  by blast

theorem update_database_commits_iff_counts_match_witness:
  "(\<exists>conn. update_database (\<lambda>_ _ _. True) toy_database toy_counter toy_novel_ids [] 2 ''hg38''
             = Some (None, conn)
          \<and> durable conn = pending conn \<and> counts_match (pending conn))
   \<and> (\<exists>conn. update_database (\<lambda>_ _ _. False) toy_database toy_counter toy_novel_ids [] 2 ''hg38''
             = Some (Some (counter_mismatch ''genes''), conn)
          \<and> durable conn = toy_database \<and> \<not> counts_match (pending conn))"
proof -
  from toy_update_commits obtain c1 where
    r1: "update_database (\<lambda>_ _ _. True) toy_database toy_counter toy_novel_ids [] 2 ''hg38''
         = Some (None, c1)" by blast
  from toy_update_refused obtain c2 where
    r2: "update_database (\<lambda>_ _ _. False) toy_database toy_counter toy_novel_ids [] 2 ''hg38''
         = Some (Some (counter_mismatch ''genes''), c2)" by blast
  from update_database_commits_iff_counts_match
         [of 2 "\<lambda>_ _ _. True" toy_database toy_counter toy_novel_ids "[]" "''hg38''" None c1] r1
  have a: "durable c1 = pending c1 \<and> counts_match (pending c1)" by simp
  from update_database_commits_iff_counts_match
         [of 2 "\<lambda>_ _ _. False" toy_database toy_counter toy_novel_ids "[]" "''hg38''"
             "Some (counter_mismatch ''genes'')" c2] r2
  have b: "durable c2 = toy_database \<and> \<not> counts_match (pending c2)" by simp
  from r1 r2 a b show ?thesis by blast
qed

subsection \<open>The statements of a run, step by step\<close>

lemma batch_loop_positive:
  assumes run: "batch_loop body bs n i c = Some c'"
  shows "i < int n \<longrightarrow> 0 < bs"
proof (rule batch_loop.raw_induct [where P = "\<lambda>body bs n i c c'. i < int n \<longrightarrow> 0 < bs"])
  show "batch_loop body bs n i c = Some c'" by (rule run)
next
  fix f :: "(int \<Rightarrow> connection \<Rightarrow> connection) \<Rightarrow> int \<Rightarrow> nat \<Rightarrow> int \<Rightarrow> connection \<Rightarrow> connection option"
  fix body bs n i c y
  assume IH: "\<And>body bs n i c y. f body bs n i c = Some y \<Longrightarrow> i < int n \<longrightarrow> 0 < bs"
    and step: "(if i < int n then f body bs n (i + bs) (body i c) else Some c) = Some y"
  show "i < int n \<longrightarrow> 0 < bs"
  proof
    assume lt: "i < int n"
    with step have "f body bs n (i + bs) (body i c) = Some y" by simp
    from IH [OF this] have "i + bs < int n \<longrightarrow> 0 < bs" .
    with lt show "0 < bs" by linarith
  qed
qed

lemma batch_loop_issued_pos:
  assumes pos: "0 < bs"
    and body: "\<And>j c. j < n \<Longrightarrow> I c \<Longrightarrow>
                 \<exists>ops. issued (body (int j) c) = issued c @ ops \<and> R j ops \<and> I (body (int j) c)"
  shows "I c \<Longrightarrow> \<exists>c' opss. batch_loop body bs n (int i) c = Some c'
           \<and> issued c' = issued c @ concat opss
           \<and> list_all2 R (batch_starts (nat bs) n i) opss \<and> I c'"
proof (induction "n - i" arbitrary: i c rule: less_induct)
  case less
  show ?case
  proof (cases "i < n")
    case True
    from body [OF True less.prems] obtain ops where
      ops: "issued (body (int i) c) = issued c @ ops" "R i ops" "I (body (int i) c)"
      by blast
    have "n - (i + nat bs) < n - i" using True pos by linarith
    from less.hyps [OF this ops(3)] obtain c' opss where
      r: "batch_loop body bs n (int (i + nat bs)) (body (int i) c) = Some c'"
      "issued c' = issued (body (int i) c) @ concat opss"
      "list_all2 R (batch_starts (nat bs) n (i + nat bs)) opss" "I c'"
      by blast
    have e: "int (i + nat bs) = int i + bs" using pos by simp
    have run: "batch_loop body bs n (int i) c = Some c'"
      using True r(1) e by (subst batch_loop.simps) simp
    have st: "batch_starts (nat bs) n i = i # batch_starts (nat bs) n (i + nat bs)"
      using True pos by (subst batch_starts.simps) simp
    have "issued c' = issued c @ concat (ops # opss)" using r(2) ops(1) by simp
    moreover have "list_all2 R (batch_starts (nat bs) n i) (ops # opss)"
      using st ops(2) r(3) by simp
    ultimately show ?thesis using run r(4) by blast
  next
    case False
    then have run: "batch_loop body bs n (int i) c = Some c"
      by (subst batch_loop.simps) simp
    have st: "batch_starts (nat bs) n i = []"
      using False by (subst batch_starts.simps) simp
    have "issued c = issued c @ concat []" by simp
    moreover have "list_all2 R (batch_starts (nat bs) n i) []" using st by simp
    ultimately show ?thesis using run less.prems by blast
  qed
qed

lemma batch_loop_issued:
  assumes run: "batch_loop body bs n 0 c = Some c'"
    and body: "\<And>j c. j < n \<Longrightarrow> 0 < bs \<Longrightarrow> I c \<Longrightarrow>
                 \<exists>ops. issued (body (int j) c) = issued c @ ops \<and> R j ops \<and> I (body (int j) c)"
    and inv: "I c"
  shows "\<exists>opss. issued c' = issued c @ concat opss
           \<and> list_all2 R (batch_starts (nat bs) n 0) opss \<and> I c'"
proof (cases "0 < n")
  case True
  then have pos: "0 < bs" using batch_loop_positive [OF run] by simp
  from batch_loop_issued_pos [of bs n I body R c 0, OF pos body [OF _ pos] inv]
  obtain c'' opss where
    "batch_loop body bs n (int 0) c = Some c''" "issued c'' = issued c @ concat opss"
    "list_all2 R (batch_starts (nat bs) n 0) opss" "I c''"
    by blast
  with run show ?thesis by auto
next
  case False
  then have "batch_loop body bs n 0 c = Some c" by (subst batch_loop.simps) simp
  with run have c: "c' = c" by simp
  have st: "batch_starts (nat bs) n 0 = []"
    using False by (subst batch_starts.simps) simp
  have "issued c' = issued c @ concat []" using c by simp
  moreover have "list_all2 R (batch_starts (nat bs) n 0) []" using st by simp
  ultimately show ?thesis using inv c by blast
qed

lemma list_all2_is_map: "list_all2 (\<lambda>j ops. ops = f j) js opss \<Longrightarrow> opss = map f js"
  by (induction js opss rule: list_all2_induct) auto

lemma batch_loop_issued_map:
  assumes run: "batch_loop body bs n 0 c = Some c'"
    and body: "\<And>j c. j < n \<Longrightarrow> 0 < bs \<Longrightarrow> issued (body (int j) c) = issued c @ f j"
  shows "issued c' = issued c @ concat (map f (batch_starts (nat bs) n 0))"
proof -
  from batch_loop_issued [of body bs n c c' "\<lambda>_. True" "\<lambda>j ops. ops = f j", OF run]
  obtain opss where "issued c' = issued c @ concat opss"
    "list_all2 (\<lambda>j ops. ops = f j) (batch_starts (nat bs) n 0) opss"
    using body by auto
  with list_all2_is_map [of f] show ?thesis by auto
qed

lemma py_slice_batch:
  assumes "0 < bs" and "j \<le> length xs"
  shows "py_slice xs (int j) (int j + bs) = batch_of xs (nat bs) j"
proof -
  have a: "slice_bound (int j) (length xs) = j" using assms by (simp add: slice_bound_def)
  have b: "slice_bound (int j + bs) (length xs) = min (j + nat bs) (length xs)"
    using assms by (simp add: slice_bound_def nat_add_distrib)
  have "take (min (j + nat bs) (length xs) - j) (drop j xs) = take (nat bs) (drop j xs)"
    using assms by (cases "j + nat bs \<le> length xs") (simp_all add: min_def)
  then show ?thesis by (simp add: py_slice_def a b batch_of_def Let_def)
qed

lemma executemany_issued:
  "issued (fst (executemany A t batch c)) = issued c @ [InsertMany t batch]"
  by (simp add: executemany_def split: prod.splits option.splits)

lemma batch_add_genes_issued:
  assumes "batch_add_genes A nov bs c = Some c'"
  shows "issued c' = issued c @ gene_statements nov (nat bs)"
  using assms unfolding batch_add_genes_def gene_statements_def Let_def
  by (drule_tac f = "\<lambda>i. [InsertMany ''genes'' (batch_of (map (\<lambda>(g, d). [g]) (map snd (novel_genes nov))) (nat bs) i),
        InsertMany ''gene_annotations'' (batch_of (map (\<lambda>(g, d). [g, PStr ''talon_run'', d, PStr ''gene_status'', PStr ''NOVEL'']) (map snd (novel_genes nov))) (nat bs) i)]"
        in batch_loop_issued_map)
     (simp_all add: executemany_issued py_slice_batch)

lemma batch_add_transcripts_issued:
  assumes "batch_add_transcripts A nov bs c = Some c'"
  shows "issued c' = issued c @ transcript_statements nov (nat bs)"
  using assms unfolding batch_add_transcripts_def transcript_statements_def Let_def
  by (drule_tac f = "\<lambda>i. [InsertMany ''transcripts'' (batch_of (map (\<lambda>(t, g, path, sv, ev, n, d). [t, g, path, sv, ev, n]) (map snd (novel_transcripts nov))) (nat bs) i),
        InsertMany ''transcript_annotations'' (batch_of (map (\<lambda>(t, g, path, sv, ev, n, d). [t, PStr ''talon_run'', d, PStr ''transcript_status'', PStr ''NOVEL'']) (map snd (novel_transcripts nov))) (nat bs) i)]"
        in batch_loop_issued_map)
     (simp_all add: executemany_issued py_slice_batch)

lemma concat_singletons: "concat (map (\<lambda>i. [f i]) js) = map f js"
  by (induction js) simp_all

lemma batch_loop_issued_single:
  assumes run: "batch_loop (\<lambda>index c. fst (executemany A t (py_slice xs index (index + bs)) c))
                  bs (length xs) 0 c = Some c'"
  shows "issued c' = issued c
           @ map (\<lambda>i. InsertMany t (batch_of xs (nat bs) i)) (batch_starts (nat bs) (length xs) 0)"
proof -
  have "issued c' = issued c
      @ concat (map (\<lambda>i. [InsertMany t (batch_of xs (nat bs) i)])
                  (batch_starts (nat bs) (length xs) 0))"
    by (rule batch_loop_issued_map [OF run]) (simp add: executemany_issued py_slice_batch)
  then show ?thesis by (simp add: concat_singletons)
qed

lemma batch_add_edges_issued:
  assumes "batch_add_edges A nov bs c = Some c'"
  shows "issued c' = issued c @ edge_statements nov (nat bs)"
proof -
  let ?ee = "map (\<lambda>(e, v1, v2, ty, d). [e, v1, v2, ty]) (map snd (novel_edges nov))"
  let ?xa = "map (\<lambda>(e, v1, v2, ty, d).
                   [e, PStr ''talon_run'', d, PStr ''exon_status'', PStr ''NOVEL''])
              (filter (\<lambda>(e, v1, v2, ty, d). ty = PStr ''exon'') (map snd (novel_edges nov)))"
  from assms obtain c1 where
    1: "batch_loop (\<lambda>index c. fst (executemany A ''edge'' (py_slice ?ee index (index + bs)) c))
          bs (length ?ee) 0 c = Some c1"
    and 2: "batch_loop (\<lambda>index c. fst (executemany A ''exon_annotations''
                                          (py_slice ?xa index (index + bs)) c))
          bs (length ?xa) 0 c1 = Some c'"
    unfolding batch_add_edges_def Let_def by (auto simp: bind_eq_Some_conv)
  from batch_loop_issued_single [OF 1] batch_loop_issued_single [OF 2]
  show ?thesis by (simp add: edge_statements_def Let_def)
qed

lemma batch_add_observed_issued:
  assumes "batch_add_observed A nov bs c = Some c'"
  shows "issued c' = issued c @ observed_statements nov (nat bs)"
  using assms unfolding batch_add_observed_def observed_statements_def Let_def
  by (rule batch_loop_issued_single)

lemma batch_add_abundance_issued:
  assumes "batch_add_abundance A ab bs c = Some c'"
  shows "issued c' = issued c @ abundance_statements ab (nat bs)"
  using assms unfolding batch_add_abundance_def abundance_statements_def Let_def
  by (rule batch_loop_issued_single)

lemma add_datasets_statement:
  "issued (add_datasets A nov c) = issued c @ [dataset_statement nov]"
  by (simp add: add_datasets_def dataset_statement_def Let_def executemany_issued)

lemma insert_rows_tables:
  "dom (db_tables (fst (insert_rows A t rs db))) = dom (db_tables db)"
  by (induction rs arbitrary: db) (auto split: option.splits)

lemma executemany_tables:
  "dom (db_tables (pending (fst (executemany A t batch c)))) = dom (db_tables (pending c))"
proof (cases "db_tables (pending c) t")
  case None
  then show ?thesis by (simp add: executemany_def)
next
  case (Some rows)
  obtain db' ok where e: "insert_rows A t batch (pending c) = (db', ok)"
    by (cases "insert_rows A t batch (pending c)")
  from insert_rows_tables [of A t batch "pending c"] e
  have "dom (db_tables db') = dom (db_tables (pending c))" by simp
  with Some e show ?thesis by (simp add: executemany_def)
qed

lemma insert_rows_accepted:
  assumes "\<forall>t rows r. A t rows r" and "t \<in> dom (db_tables db)"
  shows "snd (insert_rows A t rs db)"
  using assms(2)
proof (induction rs arbitrary: db)
  case Nil
  then show ?case by simp
next
  case (Cons r rs)
  then obtain rows where rows: "db_tables db t = Some rows" by auto
  have "t \<in> dom (db_tables (db\<lparr>db_tables := (db_tables db)(t \<mapsto> rows @ [r])\<rparr>))" by simp
  from Cons.IH [OF this] rows assms(1) show ?case by simp
qed

lemma executemany_accepted:
  assumes "\<forall>t rows r. A t rows r" and "t \<in> dom (db_tables (pending c))"
  shows "snd (executemany A t batch c)"
proof -
  from assms(2) obtain rows where rows: "db_tables (pending c) t = Some rows" by auto
  obtain db' ok where e: "insert_rows A t batch (pending c) = (db', ok)"
    by (cases "insert_rows A t batch (pending c)")
  from insert_rows_accepted [OF assms, of batch] e have ok by simp
  with rows e show ?thesis by (simp add: executemany_def)
qed

lemma batch_loop_keeps:
  assumes run: "batch_loop body bs n i c = Some c'"
    and body: "\<And>i c. I c \<Longrightarrow> I (body i c)"
    and inv: "I c"
  shows "I c'"
proof -
  have "(\<forall>i c. I c \<longrightarrow> I (body i c)) \<longrightarrow> I c \<longrightarrow> I c'"
  proof (rule batch_loop.raw_induct
      [where P = "\<lambda>body bs n i c c'. (\<forall>i c. I c \<longrightarrow> I (body i c)) \<longrightarrow> I c \<longrightarrow> I c'"])
    show "batch_loop body bs n i c = Some c'" by (rule run)
  next
    fix f :: "(int \<Rightarrow> connection \<Rightarrow> connection) \<Rightarrow> int \<Rightarrow> nat \<Rightarrow> int \<Rightarrow> connection \<Rightarrow> connection option"
    fix body bs n i c y
    assume IH: "\<And>body bs n i c y. f body bs n i c = Some y
                  \<Longrightarrow> (\<forall>i c. I c \<longrightarrow> I (body i c)) \<longrightarrow> I c \<longrightarrow> I y"
      and step: "(if i < int n then f body bs n (i + bs) (body i c) else Some c) = Some y"
    show "(\<forall>i c. I c \<longrightarrow> I (body i c)) \<longrightarrow> I c \<longrightarrow> I y"
    proof (cases "i < int n")
      case True
      with step have "f body bs n (i + bs) (body i c) = Some y" by simp
      from IH [OF this] show ?thesis by blast
    next
      case False
      with step show ?thesis by simp
    qed
  qed
  with body inv show ?thesis by blast
qed

lemma batch_add_genes_tables:
  assumes "batch_add_genes A nov bs c = Some c'"
  shows "dom (db_tables (pending c')) = dom (db_tables (pending c))"
  using assms unfolding batch_add_genes_def Let_def
  by (rule batch_loop_keeps [where I = "\<lambda>x. dom (db_tables (pending x)) = dom (db_tables (pending c))"])
     (simp_all add: executemany_tables)

lemma batch_add_transcripts_tables:
  assumes "batch_add_transcripts A nov bs c = Some c'"
  shows "dom (db_tables (pending c')) = dom (db_tables (pending c))"
  using assms unfolding batch_add_transcripts_def Let_def
  by (rule batch_loop_keeps [where I = "\<lambda>x. dom (db_tables (pending x)) = dom (db_tables (pending c))"])
     (simp_all add: executemany_tables)

lemma batch_add_edges_tables:
  assumes "batch_add_edges A nov bs c = Some c'"
  shows "dom (db_tables (pending c')) = dom (db_tables (pending c))"
proof -
  let ?I = "\<lambda>x. dom (db_tables (pending x)) = dom (db_tables (pending c))"
  from assms obtain c1 b1 n1 b2 n2 where
    1: "batch_loop b1 bs n1 0 c = Some c1" and 2: "batch_loop b2 bs n2 0 c1 = Some c'"
    and b1: "b1 = (\<lambda>index c. fst (executemany A ''edge''
                (py_slice (map (\<lambda>(e, v1, v2, ty, d). [e, v1, v2, ty]) (map snd (novel_edges nov)))
                   index (index + bs)) c))"
    and b2: "b2 = (\<lambda>index c. fst (executemany A ''exon_annotations''
                (py_slice (map (\<lambda>(e, v1, v2, ty, d).
                   [e, PStr ''talon_run'', d, PStr ''exon_status'', PStr ''NOVEL''])
              (filter (\<lambda>(e, v1, v2, ty, d). ty = PStr ''exon'') (map snd (novel_edges nov))))
                   index (index + bs)) c))"
    unfolding batch_add_edges_def Let_def by (auto simp: bind_eq_Some_conv)
  have "?I c1"
    by (rule batch_loop_keeps [where I = ?I, OF 1]) (simp_all add: b1 executemany_tables)
  then show "?I c'"
    by (rule batch_loop_keeps [where I = ?I, OF 2, rotated]) (simp add: b2 executemany_tables)
qed

lemma list_all2_choice:
  "list_all2 (\<lambda>j ops. \<exists>r. ops = g (j, r) \<and> Q r) js opss
   \<Longrightarrow> \<exists>rs. length rs = length js \<and> opss = map g (zip js rs) \<and> list_all Q rs"
proof (induction js opss rule: list_all2_induct)
  case Nil
  then show ?case by simp
next
  case (Cons j js ops opss)
  then obtain r rs where "ops = g (j, r)" "Q r" "length rs = length js"
    "opss = map g (zip js rs)" "list_all Q rs" by blast
  then have "length (r # rs) = length (j # js) \<and> ops # opss = map g (zip (j # js) (r # rs))
     \<and> list_all Q (r # rs)" by simp
  then show ?case by (intro exI [of _ "r # rs"])
qed

lemma vertex_round:
  assumes e: "executemany A ''vertex'' vb x = (c1, ok)"
  shows "issued (if ok then fst (executemany A ''location'' lb c1) else c1)
         = issued x @ (if \<not> ok then [InsertMany ''vertex'' vb]
                       else [InsertMany ''vertex'' vb, InsertMany ''location'' lb])"
    and "dom (db_tables (pending (if ok then fst (executemany A ''location'' lb c1) else c1)))
         = dom (db_tables (pending x))"
    and "(\<forall>t rows r. A t rows r) \<Longrightarrow> ''vertex'' \<in> dom (db_tables (pending x)) \<Longrightarrow> ok"
proof -
  have i1: "issued c1 = issued x @ [InsertMany ''vertex'' vb]"
    using executemany_issued [of A "''vertex''" vb x] e by simp
  have t1: "dom (db_tables (pending c1)) = dom (db_tables (pending x))"
    using executemany_tables [of A "''vertex''" vb x] e by simp
  show "issued (if ok then fst (executemany A ''location'' lb c1) else c1)
         = issued x @ (if \<not> ok then [InsertMany ''vertex'' vb]
                       else [InsertMany ''vertex'' vb, InsertMany ''location'' lb])"
    using i1 by (simp add: executemany_issued)
  show "dom (db_tables (pending (if ok then fst (executemany A ''location'' lb c1) else c1)))
         = dom (db_tables (pending x))"
    using t1 by (simp add: executemany_tables)
  show "(\<forall>t rows r. A t rows r) \<Longrightarrow> ''vertex'' \<in> dom (db_tables (pending x)) \<Longrightarrow> ok"
    using executemany_accepted [of A "''vertex''" x vb] e by simp
qed

lemma batch_add_vertices_issued:
  assumes run: "batch_add_vertices_and_locations A nov gb bs c = Some c'"
  shows "\<exists>raised. length raised
                   = length (batch_starts (nat bs) (length (novel_vertices nov)) 0)
           \<and> issued c' = issued c @ vertex_statements nov gb (nat bs) raised
           \<and> ((\<forall>t rows r. A t rows r) \<and> ''vertex'' \<in> dom (db_tables (pending c))
                \<longrightarrow> list_all Not raised)"
proof -
  define acc where "acc = ((\<forall>t rows r. A t rows r) \<and> ''vertex'' \<in> dom (db_tables (pending c)))"
  define ve where "ve = map (\<lambda>(v, g, chrom, pos, strand). [v, g]) (map snd (novel_vertices nov))"
  define le where "le = map (\<lambda>(v, g, chrom, pos, strand). [v, PStr gb, chrom, pos, strand])
               (map snd (novel_vertices nov))"
  define G where "G = (\<lambda>(i, r). if r then [InsertMany ''vertex'' (batch_of ve (nat bs) i)]
                       else [InsertMany ''vertex'' (batch_of ve (nat bs) i),
                             InsertMany ''location'' (batch_of le (nat bs) i)])"
  define body where "body = (\<lambda>index c.
              case executemany A ''vertex'' (py_slice ve index (index + bs)) c of
                (c1, ok) \<Rightarrow>
                  if ok then fst (executemany A ''location'' (py_slice le index (index + bs)) c1)
                  else c1)"
  define I :: "connection \<Rightarrow> bool" where "I = (\<lambda>x. dom (db_tables (pending x)) = dom (db_tables (pending c)))"
  define R where "R = (\<lambda>j ops. \<exists>r. ops = G (j, r) \<and> (acc \<longrightarrow> \<not> r))"
  have lv: "length ve = length (novel_vertices nov)" and ll: "length le = length ve"
    by (simp_all add: ve_def le_def)
  from run have loop: "batch_loop body bs (length ve) 0 c = Some c'"
    unfolding batch_add_vertices_and_locations_def Let_def body_def ve_def le_def .
  have step: "\<exists>ops. issued (body (int j) x) = issued x @ ops \<and> R j ops \<and> I (body (int j) x)"
    if j: "j < length ve" and pos: "0 < bs" and inv: "I x" for j and x :: connection
  proof -
    have sv: "py_slice ve (int j) (int j + bs) = batch_of ve (nat bs) j"
      using j pos by (intro py_slice_batch) simp_all
    have sl: "py_slice le (int j) (int j + bs) = batch_of le (nat bs) j"
      using j pos ll by (intro py_slice_batch) simp_all
    obtain c1 ok where e: "executemany A ''vertex'' (batch_of ve (nat bs) j) x = (c1, ok)"
      by (cases "executemany A ''vertex'' (batch_of ve (nat bs) j) x")
    have b: "body (int j) x
             = (if ok then fst (executemany A ''location'' (batch_of le (nat bs) j) c1) else c1)"
      by (simp add: body_def sv sl e)
    note vr1 = vertex_round(1) [where lb = "batch_of le (nat bs) j", OF e]
    note vr2 = vertex_round(2) [where lb = "batch_of le (nat bs) j", OF e]
    note vr3 = vertex_round(3) [OF e]
    have 1: "issued (body (int j) x) = issued x @ G (j, \<not> ok)"
      using vr1 by (simp add: b G_def)
    have 2: "I (body (int j) x)" using vr2 inv by (simp add: b I_def)
    have 3: "acc \<longrightarrow> ok"
    proof
      assume a: acc
      then have "\<forall>t rows r. A t rows r" by (simp add: acc_def)
      moreover have "''vertex'' \<in> dom (db_tables (pending x))"
        using a inv by (simp add: acc_def I_def)
      ultimately show ok by (rule vr3)
    qed
    have "R j (G (j, \<not> ok))" unfolding R_def using 3 by blast
    with 1 2 show ?thesis by blast
  qed
  have "I c" by (simp add: I_def)
  from batch_loop_issued [of body bs "length ve" c c' I R, OF loop step this]
  obtain opss where
    iss: "issued c' = issued c @ concat opss"
    and all: "list_all2 R (batch_starts (nat bs) (length ve) 0) opss"
    by blast
  from all have "list_all2 (\<lambda>j ops. \<exists>r. ops = G (j, r) \<and> (acc \<longrightarrow> \<not> r))
                   (batch_starts (nat bs) (length ve) 0) opss"
    by (simp add: R_def)
  from list_all2_choice [OF this] obtain rs where
    rs: "length rs = length (batch_starts (nat bs) (length ve) 0)"
    "opss = map G (zip (batch_starts (nat bs) (length ve) 0) rs)"
    "list_all (\<lambda>r. acc \<longrightarrow> \<not> r) rs" by blast
  have vs: "vertex_statements nov gb (nat bs) rs
            = concat (map G (zip (batch_starts (nat bs) (length ve) 0) rs))"
    unfolding vertex_statements_def Let_def G_def ve_def le_def by simp
  have a: "issued c' = issued c @ vertex_statements nov gb (nat bs) rs"
    using iss rs(2) vs by simp
  have b: "acc \<longrightarrow> list_all Not rs" using rs(3) by (simp add: list_all_iff)
  have l: "length rs = length (batch_starts (nat bs) (length (novel_vertices nov)) 0)"
    using rs(1) lv by simp
  from a b l show ?thesis unfolding acc_def by blast
qed

lemma update_database_steps:
  assumes "update_database A db cnt nov ab bs gb = Some (outcome, conn)"
  shows "\<exists>c1 c2 c3 c4 c5 c8 c9.
      batch_add_genes A nov bs (connect db) = Some c1
    \<and> batch_add_transcripts A nov bs c1 = Some c2
    \<and> batch_add_edges A nov bs c2 = Some c3
    \<and> batch_add_vertices_and_locations A nov gb bs c3 = Some c4
    \<and> batch_add_observed A nov bs c4 = Some c5
    \<and> batch_add_abundance A ab bs (update_counter cnt (add_datasets A nov c5)) = Some c8
    \<and> check_database_integrity c8 = (outcome, c9)
    \<and> conn = (if outcome = None then commit c9 else c9)"
proof -
  from assms have "\<exists>c1 c2 c3 c4 c5 c8.
      batch_add_genes A nov bs (connect db) = Some c1
    \<and> batch_add_transcripts A nov bs c1 = Some c2
    \<and> batch_add_edges A nov bs c2 = Some c3
    \<and> batch_add_vertices_and_locations A nov gb bs c3 = Some c4
    \<and> batch_add_observed A nov bs c4 = Some c5
    \<and> batch_add_abundance A ab bs (update_counter cnt (add_datasets A nov c5)) = Some c8
    \<and> (case check_database_integrity c8 of
          (Some err, c9) \<Rightarrow> Some (Some err, c9)
        | (None, c9) \<Rightarrow> Some (None, commit c9)) = Some (outcome, conn)"
    by (simp only: update_database_def bind_eq_Some_conv) blast
  then obtain c1 c2 c3 c4 c5 c8 where
    1: "batch_add_genes A nov bs (connect db) = Some c1"
    and 2: "batch_add_transcripts A nov bs c1 = Some c2"
    and 3: "batch_add_edges A nov bs c2 = Some c3"
    and 4: "batch_add_vertices_and_locations A nov gb bs c3 = Some c4"
    and 5: "batch_add_observed A nov bs c4 = Some c5"
    and 8: "batch_add_abundance A ab bs (update_counter cnt (add_datasets A nov c5)) = Some c8"
    and fin: "(case check_database_integrity c8 of
          (Some err, c9) \<Rightarrow> Some (Some err, c9)
        | (None, c9) \<Rightarrow> Some (None, commit c9)) = Some (outcome, conn)"
    by blast
  obtain r c9 where chk: "check_database_integrity c8 = (r, c9)"
    by (cases "check_database_integrity c8")
  with fin have "r = outcome" and "conn = (if outcome = None then commit c9 else c9)"
    by (auto split: option.splits)
  with chk have a: "check_database_integrity c8 = (outcome, c9)"
    and b: "conn = (if outcome = None then commit c9 else c9)" by simp_all
  from 1 2 3 4 5 8 a b show ?thesis by blast
qed

lemma update_database_statements:
  assumes run: "update_database A db cnt nov ab bs gb = Some (outcome, conn)"
  shows "\<exists>raised chk.
      issued conn = gene_statements nov (nat bs) @ transcript_statements nov (nat bs)
                    @ edge_statements nov (nat bs) @ vertex_statements nov gb (nat bs) raised
                    @ observed_statements nov (nat bs) @ [dataset_statement nov]
                    @ counter_updates cnt @ abundance_statements ab (nat bs)
                    @ [SelectCounters] @ chk @ (if outcome = None then [Commit] else [])
      \<and> length raised = length (batch_starts (nat bs) (length (novel_vertices nov)) 0)
      \<and> ((\<forall>t rows r. A t rows r) \<and> ''vertex'' \<in> dom (db_tables db) \<longrightarrow> list_all Not raised)
      \<and> selects_only chk"
proof -
  from update_database_steps [OF run] obtain c1 c2 c3 c4 c5 c8 c9 where
    1: "batch_add_genes A nov bs (connect db) = Some c1"
    and 2: "batch_add_transcripts A nov bs c1 = Some c2"
    and 3: "batch_add_edges A nov bs c2 = Some c3"
    and 4: "batch_add_vertices_and_locations A nov gb bs c3 = Some c4"
    and 5: "batch_add_observed A nov bs c4 = Some c5"
    and 8: "batch_add_abundance A ab bs (update_counter cnt (add_datasets A nov c5)) = Some c8"
    and chk: "check_database_integrity c8 = (outcome, c9)"
    and conn: "conn = (if outcome = None then commit c9 else c9)"
    by blast
  have i1: "issued c1 = gene_statements nov (nat bs)"
    using batch_add_genes_issued [OF 1] by (simp add: connect_def)
  have i2: "issued c2 = issued c1 @ transcript_statements nov (nat bs)"
    by (rule batch_add_transcripts_issued [OF 2])
  have i3: "issued c3 = issued c2 @ edge_statements nov (nat bs)"
    by (rule batch_add_edges_issued [OF 3])
  have t3: "dom (db_tables (pending c3)) = dom (db_tables db)"
    using batch_add_genes_tables [OF 1] batch_add_transcripts_tables [OF 2]
      batch_add_edges_tables [OF 3] by (simp add: connect_def)
  from batch_add_vertices_issued [OF 4] t3 obtain raised where
    len: "length raised = length (batch_starts (nat bs) (length (novel_vertices nov)) 0)"
    and i4: "issued c4 = issued c3 @ vertex_statements nov gb (nat bs) raised"
    and acc: "(\<forall>t rows r. A t rows r) \<and> ''vertex'' \<in> dom (db_tables db) \<longrightarrow> list_all Not raised"
    by auto
  have i5: "issued c5 = issued c4 @ observed_statements nov (nat bs)"
    by (rule batch_add_observed_issued [OF 5])
  have i7: "issued (update_counter cnt (add_datasets A nov c5))
           = issued c5 @ [dataset_statement nov] @ counter_updates cnt"
    using update_counter_frame [of cnt "add_datasets A nov c5"]
    by (simp add: counter_updates_def add_datasets_statement)
  have i8: "issued c8 = issued (update_counter cnt (add_datasets A nov c5))
                          @ abundance_statements ab (nat bs)"
    by (rule batch_add_abundance_issued [OF 8])
  let ?c8' = "c8\<lparr>issued := issued c8 @ [SelectCounters]\<rparr>"
  from chk have cc: "check_counters (db_counters (pending ?c8')) ?c8' = (outcome, c9)"
    by (simp add: check_database_integrity_def)
  from check_counters_frame [OF cc] obtain ck where
    ck: "issued c9 = issued c8 @ [SelectCounters] @ ck" "selects_only ck"
    by auto
  have "issued conn = gene_statements nov (nat bs) @ transcript_statements nov (nat bs)
                    @ edge_statements nov (nat bs) @ vertex_statements nov gb (nat bs) raised
                    @ observed_statements nov (nat bs) @ [dataset_statement nov]
                    @ counter_updates cnt @ abundance_statements ab (nat bs)
                    @ [SelectCounters] @ ck @ (if outcome = None then [Commit] else [])"
    using conn i1 i2 i3 i4 i5 i7 i8 ck(1) by (simp add: commit_def)
  with len acc ck(2) show ?thesis by blast
qed

lemma list_all_Not_two: "length rs = 2 \<Longrightarrow> list_all Not rs \<Longrightarrow> rs = [False, False]"
  by (cases rs; cases "tl rs") auto

text \<open>
  C2.  The statements of a run of \<open>update_database\<close> are exactly these, in this order:
  for each batch of the staged genes the insert of the batch into \<open>genes\<close> and then
  the insert of its annotations into \<open>gene_annotations\<close>; the same for the batches of
  transcripts, into \<open>transcripts\<close> and \<open>transcript_annotations\<close>; the inserts of
  the batches of edges into \<open>edge\<close> and then those of the exon annotations into
  \<open>exon_annotations\<close>; for each batch of vertices the insert into \<open>vertex\<close> and,
  unless that insert raised, the insert into \<open>location\<close> (none raises in a store that
  accepts every row and has the table \<open>vertex\<close>); the inserts of the batches of
  observed records; the one insert of all datasets; the six updates of \<open>counters\<close>;
  the inserts of the batches of abundance rows; then the queries of the integrity check;
  and last, only when the check raised nothing, the commit.  A batch holds the rows from
  \<open>index\<close> up to \<open>index + batch_size\<close>, for \<open>index\<close> = 0, \<open>batch_size\<close>, and so on.
\<close>

theorem update_database_statement_order:
  "update_database A db cnt nov ab batch_size gb = Some (outcome, conn) \<longrightarrow>
     (\<exists>raised chk.
        issued conn = gene_statements nov (nat batch_size)
                      @ transcript_statements nov (nat batch_size)
                      @ edge_statements nov (nat batch_size)
                      @ vertex_statements nov gb (nat batch_size) raised
                      @ observed_statements nov (nat batch_size)
                      @ [dataset_statement nov]
                      @ counter_updates cnt
                      @ abundance_statements ab (nat batch_size)
                      @ [SelectCounters] @ chk @ (if outcome = None then [Commit] else [])
      \<and> length raised
          = length (batch_starts (nat batch_size) (length (novel_vertices nov)) 0)
      \<and> ((\<forall>t rows r. A t rows r) \<and> ''vertex'' \<in> dom (db_tables db) \<longrightarrow> list_all Not raised)
      \<and> selects_only chk)"
  using update_database_statements [of A db cnt nov ab batch_size gb outcome conn]
  by blast

theorem update_database_statement_order_witness:
  "(\<exists>outcome conn chk.
      update_database (\<lambda>_ _ _. True) full_database full_counter full_novel_ids full_abundance
        2 ''hg38'' = Some (outcome, conn)
    \<and> issued conn =
        [InsertMany ''genes'' [[PInt 1], [PInt 2]],
         InsertMany ''gene_annotations''
           [[PInt 1, PStr ''talon_run'', PStr ''d1'', PStr ''gene_status'', PStr ''NOVEL''],
            [PInt 2, PStr ''talon_run'', PStr ''d1'', PStr ''gene_status'', PStr ''NOVEL'']],
         InsertMany ''genes'' [[PInt 3]],
         InsertMany ''gene_annotations''
           [[PInt 3, PStr ''talon_run'', PStr ''d1'', PStr ''gene_status'', PStr ''NOVEL'']],
         InsertMany ''transcripts'' [[PStr ''1'', PInt 1, PStr ''1'', PInt 1, PInt 2, PInt 1]],
         InsertMany ''transcript_annotations''
           [[PStr ''1'', PStr ''talon_run'', PStr ''d1'', PStr ''transcript_status'',
             PStr ''NOVEL'']],
         InsertMany ''edge'' [[PInt 1, PInt 1, PInt 2, PStr ''exon''],
                              [PInt 2, PInt 2, PInt 3, PStr ''intron'']],
         InsertMany ''edge'' [[PInt 3, PInt 3, PInt 4, PStr ''exon'']],
         InsertMany ''exon_annotations''
           [[PInt 1, PStr ''talon_run'', PStr ''d1'', PStr ''exon_status'', PStr ''NOVEL''],
            [PInt 3, PStr ''talon_run'', PStr ''d1'', PStr ''exon_status'', PStr ''NOVEL'']],
         InsertMany ''vertex'' [[PInt 1, PInt 1], [PInt 2, PInt 1]],
         InsertMany ''location''
           [[PInt 1, PStr ''hg38'', PStr ''chr1'', PInt 100, PStr ''+''],
            [PInt 2, PStr ''hg38'', PStr ''chr1'', PInt 200, PStr ''+'']],
         InsertMany ''vertex'' [[PInt 3, PInt 1]],
         InsertMany ''location'' [[PInt 3, PStr ''hg38'', PStr ''chr1'', PInt 300, PStr ''+'']],
         InsertMany ''observed''
           [[PStr ''1'', PInt 1, PStr ''1'', PStr ''r1'', PStr ''d1'', PInt 1, PInt 2, PInt 0,
             PInt 0, PInt 101]],
         InsertMany ''dataset'' [[PInt 1, PStr ''d1'', PStr ''s1'', PStr ''p1'']],
         UpdateCounter ''genes'' 3, UpdateCounter ''transcripts'' 1, UpdateCounter ''edge'' 3,
         UpdateCounter ''vertex'' 3, UpdateCounter ''dataset'' 1, UpdateCounter ''observed'' 1,
         InsertMany ''abundance'' [[PStr ''1'', PStr ''d1'', PInt 5]],
         SelectCounters] @ chk @ (if outcome = None then [Commit] else [])
    \<and> selects_only chk)
   \<and> (\<exists>conn chk.
      update_database (\<lambda>_ _ _. True) toy_database toy_counter toy_novel_ids [] 2 ''hg38''
        = Some (None, conn)
    \<and> issued conn =
        [InsertMany ''genes'' [[PInt 1]],
         InsertMany ''gene_annotations''
           [[PInt 1, PStr ''talon_run'', PStr ''d1'', PStr ''gene_status'', PStr ''NOVEL'']],
         InsertMany ''dataset'' [],
         UpdateCounter ''genes'' 1, UpdateCounter ''transcripts'' 0, UpdateCounter ''edge'' 0,
         UpdateCounter ''vertex'' 0, UpdateCounter ''dataset'' 0, UpdateCounter ''observed'' 0,
         SelectCounters] @ chk @ [Commit]
    \<and> selects_only chk)"
proof (rule conjI)
  have "\<exists>r. update_database (\<lambda>_ _ _. True) full_database full_counter full_novel_ids
              full_abundance 2 ''hg38'' = Some r"
    by (rule update_database_total) simp
  then obtain outcome conn where
    run: "update_database (\<lambda>_ _ _. True) full_database full_counter full_novel_ids
            full_abundance 2 ''hg38'' = Some (outcome, conn)" by auto
  from update_database_statement_order
         [of "\<lambda>_ _ _. True" full_database full_counter full_novel_ids full_abundance 2
             "''hg38''" outcome conn] run
  obtain raised chk where
    iss: "issued conn = gene_statements full_novel_ids (nat 2)
                      @ transcript_statements full_novel_ids (nat 2)
                      @ edge_statements full_novel_ids (nat 2)
                      @ vertex_statements full_novel_ids ''hg38'' (nat 2) raised
                      @ observed_statements full_novel_ids (nat 2)
                      @ [dataset_statement full_novel_ids]
                      @ counter_updates full_counter
                      @ abundance_statements full_abundance (nat 2)
                      @ [SelectCounters] @ chk @ (if outcome = None then [Commit] else [])"
    and len: "length raised
          = length (batch_starts (nat 2) (length (novel_vertices full_novel_ids)) 0)"
    and acc: "''vertex'' \<in> dom (db_tables full_database) \<longrightarrow> list_all Not raised"
    and sel: "selects_only chk"
    by auto
  have s3: "batch_starts 2 3 0 = [0, 2]" and s2: "batch_starts 2 2 0 = [0]"
    and s1: "batch_starts 2 1 0 = [0]"
    by (simp_all add: batch_starts.simps)
  have n3: "Suc (Suc (Suc 0)) = 3" and n2: "Suc (Suc 0) = 2" and n1: "Suc 0 = 1" by simp_all
  have "length (novel_vertices full_novel_ids) = 3" by (simp add: full_novel_ids_def)
  with len have "length raised = 2" by (simp add: s3)
  moreover have "list_all Not raised" using acc by (simp add: full_database_def)
  ultimately have r: "raised = [False, False]" by (rule list_all_Not_two)
  have g: "gene_statements full_novel_ids (nat 2) =
        [InsertMany ''genes'' [[PInt 1], [PInt 2]],
         InsertMany ''gene_annotations''
           [[PInt 1, PStr ''talon_run'', PStr ''d1'', PStr ''gene_status'', PStr ''NOVEL''],
            [PInt 2, PStr ''talon_run'', PStr ''d1'', PStr ''gene_status'', PStr ''NOVEL'']],
         InsertMany ''genes'' [[PInt 3]],
         InsertMany ''gene_annotations''
           [[PInt 3, PStr ''talon_run'', PStr ''d1'', PStr ''gene_status'', PStr ''NOVEL'']]]"
    by (simp add: gene_statements_def full_novel_ids_def batch_of_def n3 s3)
  have t: "transcript_statements full_novel_ids (nat 2) =
        [InsertMany ''transcripts'' [[PStr ''1'', PInt 1, PStr ''1'', PInt 1, PInt 2, PInt 1]],
         InsertMany ''transcript_annotations''
           [[PStr ''1'', PStr ''talon_run'', PStr ''d1'', PStr ''transcript_status'',
             PStr ''NOVEL'']]]"
    by (simp add: transcript_statements_def full_novel_ids_def batch_of_def n1 s1 del: One_nat_def)
  have e: "edge_statements full_novel_ids (nat 2) =
        [InsertMany ''edge'' [[PInt 1, PInt 1, PInt 2, PStr ''exon''],
                              [PInt 2, PInt 2, PInt 3, PStr ''intron'']],
         InsertMany ''edge'' [[PInt 3, PInt 3, PInt 4, PStr ''exon'']],
         InsertMany ''exon_annotations''
           [[PInt 1, PStr ''talon_run'', PStr ''d1'', PStr ''exon_status'', PStr ''NOVEL''],
            [PInt 3, PStr ''talon_run'', PStr ''d1'', PStr ''exon_status'', PStr ''NOVEL'']]]"
    by (simp add: edge_statements_def full_novel_ids_def batch_of_def n3 n2 s3 s2)
  have v: "vertex_statements full_novel_ids ''hg38'' (nat 2) [False, False] =
        [InsertMany ''vertex'' [[PInt 1, PInt 1], [PInt 2, PInt 1]],
         InsertMany ''location''
           [[PInt 1, PStr ''hg38'', PStr ''chr1'', PInt 100, PStr ''+''],
            [PInt 2, PStr ''hg38'', PStr ''chr1'', PInt 200, PStr ''+'']],
         InsertMany ''vertex'' [[PInt 3, PInt 1]],
         InsertMany ''location'' [[PInt 3, PStr ''hg38'', PStr ''chr1'', PInt 300, PStr ''+'']]]"
    by (simp add: vertex_statements_def full_novel_ids_def batch_of_def n3 s3)
  have ob: "observed_statements full_novel_ids (nat 2) =
        [InsertMany ''observed''
           [[PStr ''1'', PInt 1, PStr ''1'', PStr ''r1'', PStr ''d1'', PInt 1, PInt 2, PInt 0,
             PInt 0, PInt 101]]]"
    by (simp add: observed_statements_def full_novel_ids_def batch_of_def n1 s1 del: One_nat_def)
  have d: "dataset_statement full_novel_ids
           = InsertMany ''dataset'' [[PInt 1, PStr ''d1'', PStr ''s1'', PStr ''p1'']]"
    by (simp add: dataset_statement_def full_novel_ids_def)
  have u: "counter_updates full_counter =
        [UpdateCounter ''genes'' 3, UpdateCounter ''transcripts'' 1, UpdateCounter ''edge'' 3,
         UpdateCounter ''vertex'' 3, UpdateCounter ''dataset'' 1, UpdateCounter ''observed'' 1]"
    by (simp add: counter_updates_def full_counter_def)
  have a: "abundance_statements full_abundance (nat 2)
           = [InsertMany ''abundance'' [[PStr ''1'', PStr ''d1'', PInt 5]]]"
    by (simp add: abundance_statements_def full_abundance_def batch_of_def n1 s1 del: One_nat_def)
  from iss have "issued conn =
        [InsertMany ''genes'' [[PInt 1], [PInt 2]],
         InsertMany ''gene_annotations''
           [[PInt 1, PStr ''talon_run'', PStr ''d1'', PStr ''gene_status'', PStr ''NOVEL''],
            [PInt 2, PStr ''talon_run'', PStr ''d1'', PStr ''gene_status'', PStr ''NOVEL'']],
         InsertMany ''genes'' [[PInt 3]],
         InsertMany ''gene_annotations''
           [[PInt 3, PStr ''talon_run'', PStr ''d1'', PStr ''gene_status'', PStr ''NOVEL'']],
         InsertMany ''transcripts'' [[PStr ''1'', PInt 1, PStr ''1'', PInt 1, PInt 2, PInt 1]],
         InsertMany ''transcript_annotations''
           [[PStr ''1'', PStr ''talon_run'', PStr ''d1'', PStr ''transcript_status'',
             PStr ''NOVEL'']],
         InsertMany ''edge'' [[PInt 1, PInt 1, PInt 2, PStr ''exon''],
                              [PInt 2, PInt 2, PInt 3, PStr ''intron'']],
         InsertMany ''edge'' [[PInt 3, PInt 3, PInt 4, PStr ''exon'']],
         InsertMany ''exon_annotations''
           [[PInt 1, PStr ''talon_run'', PStr ''d1'', PStr ''exon_status'', PStr ''NOVEL''],
            [PInt 3, PStr ''talon_run'', PStr ''d1'', PStr ''exon_status'', PStr ''NOVEL'']],
         InsertMany ''vertex'' [[PInt 1, PInt 1], [PInt 2, PInt 1]],
         InsertMany ''location''
           [[PInt 1, PStr ''hg38'', PStr ''chr1'', PInt 100, PStr ''+''],
            [PInt 2, PStr ''hg38'', PStr ''chr1'', PInt 200, PStr ''+'']],
         InsertMany ''vertex'' [[PInt 3, PInt 1]],
         InsertMany ''location'' [[PInt 3, PStr ''hg38'', PStr ''chr1'', PInt 300, PStr ''+'']],
         InsertMany ''observed''
           [[PStr ''1'', PInt 1, PStr ''1'', PStr ''r1'', PStr ''d1'', PInt 1, PInt 2, PInt 0,
             PInt 0, PInt 101]],
         InsertMany ''dataset'' [[PInt 1, PStr ''d1'', PStr ''s1'', PStr ''p1'']],
         UpdateCounter ''genes'' 3, UpdateCounter ''transcripts'' 1, UpdateCounter ''edge'' 3,
         UpdateCounter ''vertex'' 3, UpdateCounter ''dataset'' 1, UpdateCounter ''observed'' 1,
         InsertMany ''abundance'' [[PStr ''1'', PStr ''d1'', PInt 5]],
         SelectCounters] @ chk @ (if outcome = None then [Commit] else [])"
    unfolding r g t e v ob d u a by simp
  with run sel show "\<exists>outcome conn chk.
      update_database (\<lambda>_ _ _. True) full_database full_counter full_novel_ids full_abundance
        2 ''hg38'' = Some (outcome, conn)
    \<and> issued conn =
        [InsertMany ''genes'' [[PInt 1], [PInt 2]],
         InsertMany ''gene_annotations''
           [[PInt 1, PStr ''talon_run'', PStr ''d1'', PStr ''gene_status'', PStr ''NOVEL''],
            [PInt 2, PStr ''talon_run'', PStr ''d1'', PStr ''gene_status'', PStr ''NOVEL'']],
         InsertMany ''genes'' [[PInt 3]],
         InsertMany ''gene_annotations''
           [[PInt 3, PStr ''talon_run'', PStr ''d1'', PStr ''gene_status'', PStr ''NOVEL'']],
         InsertMany ''transcripts'' [[PStr ''1'', PInt 1, PStr ''1'', PInt 1, PInt 2, PInt 1]],
         InsertMany ''transcript_annotations''
           [[PStr ''1'', PStr ''talon_run'', PStr ''d1'', PStr ''transcript_status'',
             PStr ''NOVEL'']],
         InsertMany ''edge'' [[PInt 1, PInt 1, PInt 2, PStr ''exon''],
                              [PInt 2, PInt 2, PInt 3, PStr ''intron'']],
         InsertMany ''edge'' [[PInt 3, PInt 3, PInt 4, PStr ''exon'']],
         InsertMany ''exon_annotations''
           [[PInt 1, PStr ''talon_run'', PStr ''d1'', PStr ''exon_status'', PStr ''NOVEL''],
            [PInt 3, PStr ''talon_run'', PStr ''d1'', PStr ''exon_status'', PStr ''NOVEL'']],
         InsertMany ''vertex'' [[PInt 1, PInt 1], [PInt 2, PInt 1]],
         InsertMany ''location''
           [[PInt 1, PStr ''hg38'', PStr ''chr1'', PInt 100, PStr ''+''],
            [PInt 2, PStr ''hg38'', PStr ''chr1'', PInt 200, PStr ''+'']],
         InsertMany ''vertex'' [[PInt 3, PInt 1]],
         InsertMany ''location'' [[PInt 3, PStr ''hg38'', PStr ''chr1'', PInt 300, PStr ''+'']],
         InsertMany ''observed''
           [[PStr ''1'', PInt 1, PStr ''1'', PStr ''r1'', PStr ''d1'', PInt 1, PInt 2, PInt 0,
             PInt 0, PInt 101]],
         InsertMany ''dataset'' [[PInt 1, PStr ''d1'', PStr ''s1'', PStr ''p1'']],
         UpdateCounter ''genes'' 3, UpdateCounter ''transcripts'' 1, UpdateCounter ''edge'' 3,
         UpdateCounter ''vertex'' 3, UpdateCounter ''dataset'' 1, UpdateCounter ''observed'' 1,
         InsertMany ''abundance'' [[PStr ''1'', PStr ''d1'', PInt 5]],
         SelectCounters] @ chk @ (if outcome = None then [Commit] else [])
    \<and> selects_only chk" by blast
next
  from toy_update_commits obtain conn where
    run: "update_database (\<lambda>_ _ _. True) toy_database toy_counter toy_novel_ids [] 2 ''hg38''
            = Some (None, conn)" by blast
  from update_database_statement_order
         [of "\<lambda>_ _ _. True" toy_database toy_counter toy_novel_ids "[]" 2 "''hg38''" None conn]
       run
  obtain raised chk where
    iss: "issued conn = gene_statements toy_novel_ids (nat 2)
                      @ transcript_statements toy_novel_ids (nat 2)
                      @ edge_statements toy_novel_ids (nat 2)
                      @ vertex_statements toy_novel_ids ''hg38'' (nat 2) raised
                      @ observed_statements toy_novel_ids (nat 2)
                      @ [dataset_statement toy_novel_ids]
                      @ counter_updates toy_counter
                      @ abundance_statements [] (nat 2)
                      @ [SelectCounters] @ chk @ [Commit]"
    and sel: "selects_only chk"
    by auto
  have s1: "batch_starts 2 1 0 = [0]" and s0: "batch_starts 2 0 0 = []"
    by (simp_all add: batch_starts.simps)
  have n1: "Suc 0 = 1" by simp
  have g: "gene_statements toy_novel_ids (nat 2) =
        [InsertMany ''genes'' [[PInt 1]],
         InsertMany ''gene_annotations''
           [[PInt 1, PStr ''talon_run'', PStr ''d1'', PStr ''gene_status'', PStr ''NOVEL'']]]"
    by (simp add: gene_statements_def toy_novel_ids_def batch_of_def n1 s1 del: One_nat_def)
  have rest: "transcript_statements toy_novel_ids (nat 2) = []"
    "edge_statements toy_novel_ids (nat 2) = []"
    "vertex_statements toy_novel_ids ''hg38'' (nat 2) raised = []"
    "observed_statements toy_novel_ids (nat 2) = []"
    "abundance_statements [] (nat 2) = []"
    "dataset_statement toy_novel_ids = InsertMany ''dataset'' []"
    by (simp_all add: transcript_statements_def edge_statements_def vertex_statements_def
          observed_statements_def abundance_statements_def dataset_statement_def
          toy_novel_ids_def s0)
  have u: "counter_updates toy_counter =
        [UpdateCounter ''genes'' 1, UpdateCounter ''transcripts'' 0, UpdateCounter ''edge'' 0,
         UpdateCounter ''vertex'' 0, UpdateCounter ''dataset'' 0, UpdateCounter ''observed'' 0]"
    by (simp add: counter_updates_def toy_counter_def)
  from iss have "issued conn =
        [InsertMany ''genes'' [[PInt 1]],
         InsertMany ''gene_annotations''
           [[PInt 1, PStr ''talon_run'', PStr ''d1'', PStr ''gene_status'', PStr ''NOVEL'']],
         InsertMany ''dataset'' [],
         UpdateCounter ''genes'' 1, UpdateCounter ''transcripts'' 0, UpdateCounter ''edge'' 0,
         UpdateCounter ''vertex'' 0, UpdateCounter ''dataset'' 0, UpdateCounter ''observed'' 0,
         SelectCounters] @ chk @ [Commit]"
    unfolding g rest u by simp
  with run sel show "\<exists>conn chk.
      update_database (\<lambda>_ _ _. True) toy_database toy_counter toy_novel_ids [] 2 ''hg38''
        = Some (None, conn)
    \<and> issued conn =
        [InsertMany ''genes'' [[PInt 1]],
         InsertMany ''gene_annotations''
           [[PInt 1, PStr ''talon_run'', PStr ''d1'', PStr ''gene_status'', PStr ''NOVEL'']],
         InsertMany ''dataset'' [],
         UpdateCounter ''genes'' 1, UpdateCounter ''transcripts'' 0, UpdateCounter ''edge'' 0,
         UpdateCounter ''vertex'' 0, UpdateCounter ''dataset'' 0, UpdateCounter ''observed'' 0,
         SelectCounters] @ chk @ [Commit]
    \<and> selects_only chk" by blast
qed

section \<open>Properties of the identification\<close>

subsection \<open>find\_transcript\_match\<close>

lemma find_transcript_match_cases:
  assumes "match_tracker M q ts ex intr = Inr tr"
  shows "\<exists>m ty em d. find_transcript_match M q ts ex intr = Inr (m, ty, em, d)
     \<and> (ty = ''full'') = (full_matches tr \<noteq> [])
     \<and> (ty = ''full'' \<longrightarrow> m = Matched (fst (best_full_match tr)) \<and> d = snd (best_full_match tr))
     \<and> (ty = ''partial'') = (full_matches tr = [] \<and> partial_matches tr \<noteq> [])
     \<and> (ty = ''partial'' \<longrightarrow> m = Matched (best_partial_match tr))
     \<and> (ty = ''none'') = (full_matches tr = [] \<and> partial_matches tr = [])
     \<and> (ty = ''none'' \<longrightarrow> m = NoneString)
     \<and> (ty \<noteq> ''full'' \<longrightarrow> d = (PNone, PNone))"
  using assms by (auto simp: find_transcript_match_def Let_def split: prod.splits)

text \<open>
  C3.  For every query for which the tracker is built (\<open>tr\<close> is the tracker after
  \<open>match_all_edges\<close> and \<open>compute_match_sets\<close>), \<open>find_transcript_match\<close> returns.
  The match type is \<open>"full"\<close> exactly when \<open>full_matches\<close> is not empty, and then the
  match is the transcript and the diff is the pair of deltas that
  \<open>get_best_full_match\<close> returns.  Otherwise it is \<open>"partial"\<close> exactly when
  \<open>partial_matches\<close> is not empty and \<open>"none"\<close> exactly when both sets are empty, and
  in both cases the diff is \<open>[None, None]\<close>.
\<close>

theorem find_transcript_match_type:
  "match_tracker M q ts ex intr = Inr tr \<longrightarrow>
     (\<exists>m ty em d. find_transcript_match M q ts ex intr = Inr (m, ty, em, d)
        \<and> (ty = ''full'') = (full_matches tr \<noteq> [])
        \<and> (ty = ''full'' \<longrightarrow> m = Matched (fst (best_full_match tr))
                              \<and> d = snd (best_full_match tr))
        \<and> (ty = ''partial'') = (full_matches tr = [] \<and> partial_matches tr \<noteq> [])
        \<and> (ty = ''partial'' \<longrightarrow> m = Matched (best_partial_match tr))
        \<and> (ty = ''none'') = (full_matches tr = [] \<and> partial_matches tr = [])
        \<and> (ty = ''none'' \<longrightarrow> m = NoneString)
        \<and> (ty \<noteq> ''full'' \<longrightarrow> d = (PNone, PNone)))"
  using find_transcript_match_cases [of M q ts ex intr tr] by blast

theorem find_transcript_match_type_witness:
  "(\<exists>em. find_transcript_match (toy_modules full_match_tracker) (toy_read ''r1'' ''+'')
            (st_transcripts toy_state) (st_exon_tree toy_state) (st_intron_tree toy_state)
          = Inr (Matched toy_transcript, ''full'', em, (PInt 0, PInt 0)))
   \<and> (\<exists>em. find_transcript_match (toy_modules no_match_tracker) (toy_read ''r1'' ''+'')
            (st_transcripts toy_state) (st_exon_tree toy_state) (st_intron_tree toy_state)
          = Inr (NoneString, ''none'', em, (PNone, PNone)))"
proof -
  have a: "match_tracker (toy_modules full_match_tracker) (toy_read ''r1'' ''+'')
            (st_transcripts toy_state) (st_exon_tree toy_state) (st_intron_tree toy_state)
           = Inr full_match_tracker"
    by (simp add: toy_modules_def)
  have b: "match_tracker (toy_modules no_match_tracker) (toy_read ''r1'' ''+'')
            (st_transcripts toy_state) (st_exon_tree toy_state) (st_intron_tree toy_state)
           = Inr no_match_tracker"
    by (simp add: toy_modules_def)
  from find_transcript_match_type [of "toy_modules full_match_tracker" "toy_read ''r1'' ''+''"
         "st_transcripts toy_state" "st_exon_tree toy_state" "st_intron_tree toy_state"
         full_match_tracker] a
  have 1: "\<exists>em. find_transcript_match (toy_modules full_match_tracker) (toy_read ''r1'' ''+'')
            (st_transcripts toy_state) (st_exon_tree toy_state) (st_intron_tree toy_state)
          = Inr (Matched toy_transcript, ''full'', em, (PInt 0, PInt 0))"
    by (auto simp: full_match_tracker_def)
  from find_transcript_match_type [of "toy_modules no_match_tracker" "toy_read ''r1'' ''+''"
         "st_transcripts toy_state" "st_exon_tree toy_state" "st_intron_tree toy_state"
         no_match_tracker] b
  have 2: "\<exists>em. find_transcript_match (toy_modules no_match_tracker) (toy_read ''r1'' ''+'')
            (st_transcripts toy_state) (st_exon_tree toy_state) (st_intron_tree toy_state)
          = Inr (NoneString, ''none'', em, (PNone, PNone))"
    by (auto simp: no_match_tracker_def)
  from 1 2 show ?thesis by blast
qed

subsection \<open>What make\_novel\_transcript leaves alone\<close>

lemma edges_only_refl: "edges_only st st"
  by (simp add: edges_only_def)

lemma edges_only_trans: "edges_only a b \<Longrightarrow> edges_only b c \<Longrightarrow> edges_only a c"
  by (simp add: edges_only_def)

lemma append_edge_state: "append_edge b e exs ins st = (eo', exs', ins', st') \<Longrightarrow> st' = st"
  by (auto simp: append_edge_def split: if_splits)

lemma mint_edge_only:
  assumes "mint_edge M sam tid b s e exs ins st = Inr (eo', exs', ins', st')"
  shows "edges_only st st'"
  using assms
  by (auto simp: mint_edge_def Let_def create_novel_edge_def append_edge_def edges_only_def
           split: sum.splits prod.splits if_splits)

lemma reuse_edge_only:
  assumes "reuse_edge tid b found em eo exs ins st = Inr (eo', exs', ins', st')"
  shows "edges_only st st'"
  using assms
  by (auto simp: reuse_edge_def Let_def append_edge_def edges_only_def
           split: option.splits edge_match.splits if_splits)

lemma novel_edge_step_only:
  assumes "novel_edge_step M sam tid i pair (eo, exs, ins, st) = Inr (eo', exs', ins', st')"
  shows "edges_only st st'"
proof -
  obtain s e em where p: "pair = ((s, e), em)" by (metis prod.exhaust)
  from assms show ?thesis
    unfolding novel_edge_step_def p Let_def
    by (auto dest: mint_edge_only reuse_edge_only split: if_splits)
qed

lemma novel_edges_loop_only:
  assumes "novel_edges_loop M sam tid i pairs (eo, exs, ins, st) = Inr (eo', exs', ins', st')"
  shows "edges_only st st'"
  using assms
proof (induction pairs arbitrary: i eo exs ins st)
  case Nil
  then show ?case by (simp add: edges_only_refl)
next
  case (Cons p ps)
  then obtain eo1 exs1 ins1 st1 where
    1: "novel_edge_step M sam tid i p (eo, exs, ins, st) = Inr (eo1, exs1, ins1, st1)"
    and 2: "novel_edges_loop M sam tid (Suc i) ps (eo1, exs1, ins1, st1) = Inr (eo', exs', ins', st')"
    by (auto split: sum.splits)
  from edges_only_trans [OF novel_edge_step_only [OF 1] Cons.IH [OF 2]] show ?case .
qed

lemma make_novel_transcript_frame:
  assumes "make_novel_transcript M sam ems st = Inr (sam', T, st')"
  shows "sam' = sam\<lparr>sam_transcript_ID := t_identifier T\<rparr>"
    and "t_identifier T = PStr (str_int (counter_transcripts (st_counter st) + 1))"
    and "t_gene_id T = sam_gene_ID sam"
    and "st_gene_tree st' = st_gene_tree st"
    and "st_transcripts st' = st_transcripts st"
    and "st_abundance st' = st_abundance st"
    and "counter_genes (st_counter st') = counter_genes (st_counter st)"
    and "counter_observed (st_counter st') = counter_observed (st_counter st)"
    and "counter_transcripts (st_counter st') = counter_transcripts (st_counter st) + 1"
    and "novel_genes (st_novel_ids st') = novel_genes (st_novel_ids st)"
    and "novel_observed (st_novel_ids st') = novel_observed (st_novel_ids st)"
    and "novel_transcripts (st_novel_ids st') = novel_transcripts (st_novel_ids st)"
proof -
  from assms obtain eo exs ins st1 where
    loop: "novel_edges_loop M sam (PStr (str_int (counter_transcripts (st_counter st) + 1))) 0
             (zip (sam_all_edges sam) ems) (None, [], [], st) = Inr (eo, exs, ins, st1)"
    and ne: "exs \<noteq> []"
    and res: "(sam', T, st') =
        (let (annot, counter') = create_novel_transcript (sam_chromosome sam) (e_start (hd exs))
                  (e_end (last exs)) (sam_strand sam) (sam_gene_ID sam) (st_counter st1) exs ins
         in (sam\<lparr>sam_transcript_ID := t_identifier annot\<rparr>, annot, st1\<lparr>st_counter := counter'\<rparr>))"
    by (auto simp: make_novel_transcript_def Let_def split: sum.splits prod.splits if_splits)
  note only = novel_edges_loop_only [OF loop]
  from res only
  show "sam' = sam\<lparr>sam_transcript_ID := t_identifier T\<rparr>"
    and "t_identifier T = PStr (str_int (counter_transcripts (st_counter st) + 1))"
    and "t_gene_id T = sam_gene_ID sam"
    and "st_gene_tree st' = st_gene_tree st"
    and "st_transcripts st' = st_transcripts st"
    and "st_abundance st' = st_abundance st"
    and "counter_genes (st_counter st') = counter_genes (st_counter st)"
    and "counter_observed (st_counter st') = counter_observed (st_counter st)"
    and "counter_transcripts (st_counter st') = counter_transcripts (st_counter st) + 1"
    and "novel_genes (st_novel_ids st') = novel_genes (st_novel_ids st)"
    and "novel_observed (st_novel_ids st') = novel_observed (st_novel_ids st)"
    and "novel_transcripts (st_novel_ids st') = novel_transcripts (st_novel_ids st)"
    by (simp_all add: create_novel_transcript_def Let_def edges_only_def)
qed

subsection \<open>The gene of a read without a full match\<close>

lemma assign_gene_result:
  assumes "assign_gene M sam bm dataset st = Inr (sam', st')"
  shows "\<exists>gid.
      (if sam_n_exons sam = 1
       then gid = (case bm of Matched t \<Rightarrow> t_gene_id t | NoneString \<Rightarrow> PNone)
       else search_for_gene M sam (st_vertices st) = Inr gid)
    \<and> (if gid = PNone
       then sam' = sam\<lparr>sam_gene_ID := PInt (counter_genes (st_counter st) + 1)\<rparr>
          \<and> st' = st\<lparr>st_counter := (st_counter st)\<lparr>counter_genes := counter_genes (st_counter st) + 1\<rparr>,
                      st_novel_ids := (st_novel_ids st)
                          \<lparr>novel_genes := AList.update (PInt (counter_genes (st_counter st) + 1))
                               (PInt (counter_genes (st_counter st) + 1), PStr dataset)
                               (novel_genes (st_novel_ids st))\<rparr>,
                      st_gene_tree := AList.update (PInt (counter_genes (st_counter st) + 1))
                           \<lparr>g_identifier = PInt (counter_genes (st_counter st) + 1),
                            g_chromosome = sam_chromosome sam, g_start = sam_start sam,
                            g_end = sam_end sam, g_strand = sam_strand sam\<rparr> (st_gene_tree st)\<rparr>
       else (\<exists>g. map_of (st_gene_tree st) gid = Some g
                \<and> sam' = sam\<lparr>sam_gene_ID := g_identifier g\<rparr>) \<and> st' = st)"
  using assms
  by (auto simp: assign_gene_def Let_def create_novel_gene_def add_gene_def
           split: sum.splits if_splits option.splits prod.splits)

lemma resolve_identity_novel:
  assumes tr: "match_tracker M sam (st_transcripts st) (st_exon_tree st) (st_intron_tree st) = Inr tr"
    and nofull: "full_matches tr = []"
    and run: "resolve_identity M dataset st sam = Inr (sam', annot, st')"
  shows "\<exists>sam1 st1 st2.
    assign_gene M (sam\<lparr>sam_novel := PStr ''Novel''\<rparr>)
       (if partial_matches tr \<noteq> [] then Matched (best_partial_match tr) else NoneString)
       dataset st = Inr (sam1, st1)
    \<and> make_novel_transcript M sam1 (map EdgeId (best_edge_matches tr)) st1 = Inr (sam', annot, st2)
    \<and> st' = st2\<lparr>st_novel_ids := (st_novel_ids st2)
                  \<lparr>novel_transcripts :=
                     AList.update (t_identifier annot)
                       (t_identifier annot, t_gene_id annot, get_edge_path M annot,
                        get_5prime_vertex M annot, get_3prime_vertex M annot,
                        PInt (t_n_exons annot), PStr dataset)
                       (novel_transcripts (st_novel_ids st2))\<rparr>,
                st_transcripts := (st_transcripts st2)(t_identifier annot \<mapsto> annot)\<rparr>"
proof -
  have ftm: "find_transcript_match M sam (st_transcripts st) (st_exon_tree st) (st_intron_tree st)
        = Inr (if partial_matches tr \<noteq> [] then Matched (best_partial_match tr) else NoneString,
               if partial_matches tr \<noteq> [] then ''partial'' else ''none'',
               map EdgeId (best_edge_matches tr), (PNone, PNone))"
    using tr nofull by (simp add: find_transcript_match_def Let_def)
  from run show ?thesis
    unfolding resolve_identity_def ftm
    by (auto simp: Let_def split: sum.splits if_splits)
qed

lemma resolve_identity_full:
  assumes tr: "match_tracker M sam (st_transcripts st) (st_exon_tree st) (st_intron_tree st) = Inr tr"
    and full: "full_matches tr \<noteq> []"
    and run: "resolve_identity M dataset st sam = Inr (sam', annot, st')"
  shows "annot = fst (best_full_match tr) \<and> st' = st
     \<and> sam' = sam\<lparr>sam_gene_ID := t_gene_id annot, sam_transcript_ID := t_identifier annot,
                   sam_novel := PStr ''Seen_previously''\<rparr>"
proof -
  have ftm: "find_transcript_match M sam (st_transcripts st) (st_exon_tree st) (st_intron_tree st)
        = Inr (Matched (fst (best_full_match tr)), ''full'',
               map EdgeObj (get_all_edges M (fst (best_full_match tr))), snd (best_full_match tr))"
    using tr full by (simp add: find_transcript_match_def Let_def split: prod.splits)
  from run show ?thesis
    unfolding resolve_identity_def ftm by auto
qed

lemma resolve_identity_tracker:
  assumes "resolve_identity M dataset st sam = Inr (sam', annot, st')"
  shows "\<exists>tr. match_tracker M sam (st_transcripts st) (st_exon_tree st) (st_intron_tree st) = Inr tr"
  using assms
  by (auto simp: resolve_identity_def find_transcript_match_def split: sum.splits)

lemma gene_rule:
  assumes tr: "match_tracker M sam (st_transcripts st) (st_exon_tree st) (st_intron_tree st) = Inr tr"
    and nofull: "full_matches tr = []"
    and run: "resolve_identity M dataset st sam = Inr (sam', annot, st')"
  shows "\<exists>gid.
      (if sam_n_exons sam = 1
       then gid = (if partial_matches tr \<noteq> [] then t_gene_id (best_partial_match tr) else PNone)
       else search_for_gene M (sam\<lparr>sam_novel := PStr ''Novel''\<rparr>) (st_vertices st) = Inr gid)
    \<and> (if gid = PNone
       then sam_gene_ID sam' = PInt (counter_genes (st_counter st) + 1)
          \<and> counter_genes (st_counter st') = counter_genes (st_counter st) + 1
          \<and> st_gene_tree st' =
              AList.update (sam_gene_ID sam')
                \<lparr>g_identifier = sam_gene_ID sam', g_chromosome = sam_chromosome sam,
                 g_start = sam_start sam, g_end = sam_end sam, g_strand = sam_strand sam\<rparr>
                (st_gene_tree st)
       else (\<exists>g. map_of (st_gene_tree st) gid = Some g \<and> sam_gene_ID sam' = g_identifier g)
          \<and> counter_genes (st_counter st') = counter_genes (st_counter st)
          \<and> st_gene_tree st' = st_gene_tree st)"
proof -
  let ?bm = "if partial_matches tr \<noteq> [] then Matched (best_partial_match tr) else NoneString"
  let ?sam0 = "sam\<lparr>sam_novel := PStr ''Novel''\<rparr>"
  from resolve_identity_novel [OF tr nofull run] obtain sam1 st1 st2 where
    ag: "assign_gene M ?sam0 ?bm dataset st = Inr (sam1, st1)"
    and mk: "make_novel_transcript M sam1 (map EdgeId (best_edge_matches tr)) st1 = Inr (sam', annot, st2)"
    and st': "st' = st2\<lparr>st_novel_ids := (st_novel_ids st2)
                  \<lparr>novel_transcripts :=
                     AList.update (t_identifier annot)
                       (t_identifier annot, t_gene_id annot, get_edge_path M annot,
                        get_5prime_vertex M annot, get_3prime_vertex M annot,
                        PInt (t_n_exons annot), PStr dataset)
                       (novel_transcripts (st_novel_ids st2))\<rparr>,
                st_transcripts := (st_transcripts st2)(t_identifier annot \<mapsto> annot)\<rparr>"
    by blast
  note fr = make_novel_transcript_frame [OF mk]
  have g': "sam_gene_ID sam' = sam_gene_ID sam1" using fr(1) by simp
  have t': "st_gene_tree st' = st_gene_tree st1" using st' fr(4) by simp
  have c': "counter_genes (st_counter st') = counter_genes (st_counter st1)" using st' fr(7) by simp
  from assign_gene_result [OF ag] obtain gid where
    gid: "(if sam_n_exons ?sam0 = 1
       then gid = (case ?bm of Matched t \<Rightarrow> t_gene_id t | NoneString \<Rightarrow> PNone)
       else search_for_gene M ?sam0 (st_vertices st) = Inr gid)"
    and res: "(if gid = PNone
       then sam1 = ?sam0\<lparr>sam_gene_ID := PInt (counter_genes (st_counter st) + 1)\<rparr>
          \<and> st1 = st\<lparr>st_counter := (st_counter st)\<lparr>counter_genes := counter_genes (st_counter st) + 1\<rparr>,
                      st_novel_ids := (st_novel_ids st)
                          \<lparr>novel_genes := AList.update (PInt (counter_genes (st_counter st) + 1))
                               (PInt (counter_genes (st_counter st) + 1), PStr dataset)
                               (novel_genes (st_novel_ids st))\<rparr>,
                      st_gene_tree := AList.update (PInt (counter_genes (st_counter st) + 1))
                           \<lparr>g_identifier = PInt (counter_genes (st_counter st) + 1),
                            g_chromosome = sam_chromosome ?sam0, g_start = sam_start ?sam0,
                            g_end = sam_end ?sam0, g_strand = sam_strand ?sam0\<rparr> (st_gene_tree st)\<rparr>
       else (\<exists>g. map_of (st_gene_tree st) gid = Some g
                \<and> sam1 = ?sam0\<lparr>sam_gene_ID := g_identifier g\<rparr>) \<and> st1 = st)"
    by blast
  show ?thesis
  proof (intro exI [of _ gid] conjI)
    from gid show "(if sam_n_exons sam = 1
       then gid = (if partial_matches tr \<noteq> [] then t_gene_id (best_partial_match tr) else PNone)
       else search_for_gene M ?sam0 (st_vertices st) = Inr gid)"
      by (auto split: if_splits)
  next
    show "(if gid = PNone
       then sam_gene_ID sam' = PInt (counter_genes (st_counter st) + 1)
          \<and> counter_genes (st_counter st') = counter_genes (st_counter st) + 1
          \<and> st_gene_tree st' =
              AList.update (sam_gene_ID sam')
                \<lparr>g_identifier = sam_gene_ID sam', g_chromosome = sam_chromosome sam,
                 g_start = sam_start sam, g_end = sam_end sam, g_strand = sam_strand sam\<rparr>
                (st_gene_tree st)
       else (\<exists>g. map_of (st_gene_tree st) gid = Some g \<and> sam_gene_ID sam' = g_identifier g)
          \<and> counter_genes (st_counter st') = counter_genes (st_counter st)
          \<and> st_gene_tree st' = st_gene_tree st)"
    proof (cases "gid = PNone")
      case True
      with res g' t' c' show ?thesis by simp
    next
      case False
      with res g' t' c' show ?thesis by auto
    qed
  qed
qed

lemmas eval_identify = identify_one_def resolve_identity_def find_transcript_match_def
  assign_gene_def make_novel_transcript_def novel_edge_step_def mint_edge_def reuse_edge_def
  append_edge_def create_novel_gene_def create_novel_edge_def create_novel_transcript_def
  add_gene_def add_edge_def get_transcript_start_and_end_diffs_def add_abundance_def
  set_add_def toy_modules_def toy_read_def toy_state_def toy_transcript_def toy_exon_def
  no_match_tracker_def full_match_tracker_def Let_def str_int_def str_nat.simps digit_char_def

subsection \<open>One read, and the loop over the reads\<close>


lemma diffs_result:
  assumes "get_transcript_start_and_end_diffs M sam annot dataset st = Inr (sam', st')"
  shows "\<exists>d5 d3 fv lv.
      get_difference M (sam_start sam, sam_end sam) (t_start annot, t_end annot) (sam_strand sam)
        = Inr (d5, d3)
    \<and> fetch_vertex M (st_vertices st) (t_chromosome annot) (t_start annot) (sam_gene_ID sam)
        = Inr (Some fv)
    \<and> fetch_vertex M (st_vertices st) (t_chromosome annot) (t_end annot) (sam_gene_ID sam)
        = Inr (Some lv)
    \<and> (sam_strand sam = ''+'' \<or> sam_strand sam = ''-'')
    \<and> sam' = sam\<lparr>sam_diff_5 := d5, sam_diff_3 := d3\<rparr>
    \<and> st' = st\<lparr>st_counter := (st_counter st)
                    \<lparr>counter_observed := counter_observed (st_counter st) + 1\<rparr>,
                st_novel_ids := (st_novel_ids st)
                    \<lparr>novel_observed :=
                       AList.update (PStr (str_int (counter_observed (st_counter st) + 1)))
                         (PStr (str_int (counter_observed (st_counter st) + 1)),
                          t_gene_id annot, t_identifier annot, PStr (sam_identifier sam),
                          PStr dataset,
                          (if sam_strand sam = ''-'' then lv else fv),
                          (if sam_strand sam = ''-'' then fv else lv),
                          d5, d3, PInt (sam_length sam))
                         (novel_observed (st_novel_ids st))\<rparr>\<rparr>"
  using assms
  by (auto simp: get_transcript_start_and_end_diffs_def Let_def
           split: sum.splits option.splits if_splits prod.splits)

lemma identify_one_parts:
  assumes "identify_one M dataset st sam = Inr (sam', st')"
  shows "\<exists>sam1 annot st1 st2.
      resolve_identity M dataset st sam = Inr (sam1, annot, st1)
    \<and> get_transcript_start_and_end_diffs M sam1 annot dataset st1 = Inr (sam', st2)
    \<and> st' = st2\<lparr>st_abundance := add_abundance (st_abundance st2) (t_identifier annot) dataset\<rparr>"
  using assms
  by (auto simp: identify_one_def split: sum.splits)

lemma resolve_identity_frame:
  assumes run: "resolve_identity M dataset st sam = Inr (sam1, annot, st1)"
  shows "sam_transcript_ID sam1 = t_identifier annot"
    and "st_abundance st1 = st_abundance st"
    and "counter_observed (st_counter st1) = counter_observed (st_counter st)"
    and "novel_observed (st_novel_ids st1) = novel_observed (st_novel_ids st)"
    and "sam_strand sam1 = sam_strand sam"
    and "sam_identifier sam1 = sam_identifier sam"
    and "sam_length sam1 = sam_length sam"
proof -
  from resolve_identity_tracker [OF run] obtain tr where
    tr: "match_tracker M sam (st_transcripts st) (st_exon_tree st) (st_intron_tree st) = Inr tr"
    by blast
  have "sam_transcript_ID sam1 = t_identifier annot
    \<and> st_abundance st1 = st_abundance st
    \<and> counter_observed (st_counter st1) = counter_observed (st_counter st)
    \<and> novel_observed (st_novel_ids st1) = novel_observed (st_novel_ids st)
    \<and> sam_strand sam1 = sam_strand sam
    \<and> sam_identifier sam1 = sam_identifier sam
    \<and> sam_length sam1 = sam_length sam"
  proof (cases "full_matches tr = []")
    case False
    from resolve_identity_full [OF tr False run] show ?thesis by simp
  next
    case True
    let ?bm = "if partial_matches tr \<noteq> [] then Matched (best_partial_match tr) else NoneString"
    let ?sam0 = "sam\<lparr>sam_novel := PStr ''Novel''\<rparr>"
    from resolve_identity_novel [OF tr True run] obtain sam0 st0 st2 where
      ag: "assign_gene M ?sam0 ?bm dataset st = Inr (sam0, st0)"
      and mk: "make_novel_transcript M sam0 (map EdgeId (best_edge_matches tr)) st0
                 = Inr (sam1, annot, st2)"
      and st1: "st1 = st2\<lparr>st_novel_ids := (st_novel_ids st2)
                  \<lparr>novel_transcripts :=
                     AList.update (t_identifier annot)
                       (t_identifier annot, t_gene_id annot, get_edge_path M annot,
                        get_5prime_vertex M annot, get_3prime_vertex M annot,
                        PInt (t_n_exons annot), PStr dataset)
                       (novel_transcripts (st_novel_ids st2))\<rparr>,
                st_transcripts := (st_transcripts st2)(t_identifier annot \<mapsto> annot)\<rparr>"
      by blast
    note fr = make_novel_transcript_frame [OF mk]
    from assign_gene_result [OF ag] have
      a: "st_abundance st0 = st_abundance st
        \<and> counter_observed (st_counter st0) = counter_observed (st_counter st)
        \<and> novel_observed (st_novel_ids st0) = novel_observed (st_novel_ids st)
        \<and> sam_strand sam0 = sam_strand sam
        \<and> sam_identifier sam0 = sam_identifier sam
        \<and> sam_length sam0 = sam_length sam"
      by (auto split: if_splits)
    from a fr(1) fr(6) fr(8) fr(11) st1 show ?thesis by simp
  qed
  then show "sam_transcript_ID sam1 = t_identifier annot"
    and "st_abundance st1 = st_abundance st"
    and "counter_observed (st_counter st1) = counter_observed (st_counter st)"
    and "novel_observed (st_novel_ids st1) = novel_observed (st_novel_ids st)"
    and "sam_strand sam1 = sam_strand sam"
    and "sam_identifier sam1 = sam_identifier sam"
    and "sam_length sam1 = sam_length sam"
    by simp_all
qed

subsection \<open>Strings of integers are distinct\<close>

lemma digit_char_inj:
  assumes "a < 10" "b < 10" "digit_char a = digit_char b"
  shows "a = b"
proof -
  have d: "distinct ''0123456789''" by simp
  have l: "length ''0123456789'' = 10" by simp
  from assms show ?thesis
    unfolding digit_char_def using nth_eq_iff_index_eq [OF d, of a b] l by simp
qed

lemma digit_char_ne_minus: "d < 10 \<Longrightarrow> digit_char d \<noteq> CHR ''-''"
proof -
  assume "d < 10"
  then have "digit_char d \<in> set ''0123456789''"
    unfolding digit_char_def by (intro nth_mem) simp
  then show ?thesis by auto
qed

lemma str_nat_nonempty: "str_nat n \<noteq> []"
  by (subst str_nat.simps) simp

lemma str_nat_no_minus: "CHR ''-'' \<notin> set (str_nat n)"
proof (induction n rule: str_nat.induct)
  case (1 n)
  show ?case
  proof (cases "n < 10")
    case True
    then show ?thesis using digit_char_ne_minus [of n] by (subst str_nat.simps) auto
  next
    case False
    have "n mod 10 < 10" by simp
    with 1 False digit_char_ne_minus [of "n mod 10"] show ?thesis
      by (subst str_nat.simps) auto
  qed
qed

lemma str_nat_inj: "str_nat m = str_nat n \<Longrightarrow> m = n"
proof (induction m arbitrary: n rule: str_nat.induct)
  case (1 m)
  show ?case
  proof (cases "m < 10")
    case True
    then have sm: "str_nat m = [digit_char m]" by (subst str_nat.simps) simp
    show ?thesis
    proof (cases "n < 10")
      case True
      then have "str_nat n = [digit_char n]" by (subst str_nat.simps) simp
      with sm 1 \<open>m < 10\<close> True show ?thesis by (auto dest: digit_char_inj)
    next
      case False
      then have "str_nat n = str_nat (n div 10) @ [digit_char (n mod 10)]"
        by (subst str_nat.simps) simp
      with sm "1.prems" str_nat_nonempty [of "n div 10"] show ?thesis by (cases "str_nat (n div 10)") auto
    qed
  next
    case False
    then have sm: "str_nat m = str_nat (m div 10) @ [digit_char (m mod 10)]"
      by (subst str_nat.simps) simp
    show ?thesis
    proof (cases "n < 10")
      case True
      then have "str_nat n = [digit_char n]" by (subst str_nat.simps) simp
      with sm "1.prems" str_nat_nonempty [of "m div 10"] show ?thesis by (cases "str_nat (m div 10)") auto
    next
      case nf: False
      then have sn: "str_nat n = str_nat (n div 10) @ [digit_char (n mod 10)]"
        by (subst str_nat.simps) simp
      from sm sn "1.prems" have a: "str_nat (m div 10) = str_nat (n div 10)"
        and b: "digit_char (m mod 10) = digit_char (n mod 10)" by simp_all
      from "1.IH" [OF False a] have q: "m div 10 = n div 10" .
      have "m mod 10 < 10" "n mod 10 < 10" by simp_all
      from digit_char_inj [OF this b] have r: "m mod 10 = n mod 10" .
      from q r show ?thesis by (metis div_mult_mod_eq)
    qed
  qed
qed

lemma str_int_inj: "str_int a = str_int b \<Longrightarrow> a = b"
proof -
  assume e: "str_int a = str_int b"
  have hd: "\<And>n. hd (str_nat n) \<noteq> CHR ''-''"
    using str_nat_no_minus str_nat_nonempty by (metis list.set_sel(1))
  show ?thesis
  proof (cases "a < 0")
    case True
    show ?thesis
    proof (cases "b < 0")
      case b: True
      with True e have "str_nat (nat (- a)) = str_nat (nat (- b))" by (simp add: str_int_def)
      from str_nat_inj [OF this] True b show ?thesis by simp
    next
      case False
      with True e have "CHR ''-'' # str_nat (nat (- a)) = str_nat (nat b)" by (simp add: str_int_def)
      with hd [of "nat b"] show ?thesis by (metis list.sel(1))
    qed
  next
    case False
    show ?thesis
    proof (cases "b < 0")
      case True
      with False e have "str_nat (nat a) = CHR ''-'' # str_nat (nat (- b))" by (simp add: str_int_def)
      with hd [of "nat a"] show ?thesis by (metis list.sel(1))
    next
      case b: False
      with False e have "str_nat (nat a) = str_nat (nat b)" by (simp add: str_int_def)
      from str_nat_inj [OF this] False b show ?thesis by simp
    qed
  qed
qed

lemma length_alist_update:
  "length (AList.update k v al) = (if k \<in> fst ` set al then length al else Suc (length al))"
  by (induction al) auto

lemma identify_one_summary:
  assumes run: "identify_one M dataset st sam = Inr (sam', st')"
  shows "\<exists>sam1 annot st1 d5 d3 fv lv.
      resolve_identity M dataset st sam = Inr (sam1, annot, st1)
    \<and> fetch_vertex M (st_vertices st1) (t_chromosome annot) (t_start annot) (sam_gene_ID sam1)
        = Inr (Some fv)
    \<and> fetch_vertex M (st_vertices st1) (t_chromosome annot) (t_end annot) (sam_gene_ID sam1)
        = Inr (Some lv)
    \<and> (sam_strand sam = ''+'' \<or> sam_strand sam = ''-'')
    \<and> sam_transcript_ID sam' = t_identifier annot
    \<and> st_abundance st' = add_abundance (st_abundance st) (t_identifier annot) dataset
    \<and> counter_observed (st_counter st') = counter_observed (st_counter st) + 1
    \<and> novel_observed (st_novel_ids st') =
        AList.update (observed_id (counter_observed (st_counter st)))
          (observed_id (counter_observed (st_counter st)),
           t_gene_id annot, t_identifier annot, PStr (sam_identifier sam), PStr dataset,
           (if sam_strand sam = ''-'' then lv else fv),
           (if sam_strand sam = ''-'' then fv else lv),
           d5, d3, PInt (sam_length sam))
          (novel_observed (st_novel_ids st))"
proof -
  from identify_one_parts [OF run] obtain sam1 annot st1 st2 where
    rs: "resolve_identity M dataset st sam = Inr (sam1, annot, st1)"
    and df: "get_transcript_start_and_end_diffs M sam1 annot dataset st1 = Inr (sam', st2)"
    and st': "st' = st2\<lparr>st_abundance := add_abundance (st_abundance st2) (t_identifier annot) dataset\<rparr>"
    by blast
  note fr = resolve_identity_frame [OF rs]
  from diffs_result [OF df] obtain d5 d3 fv lv where
    fv: "fetch_vertex M (st_vertices st1) (t_chromosome annot) (t_start annot) (sam_gene_ID sam1)
        = Inr (Some fv)"
    and lv: "fetch_vertex M (st_vertices st1) (t_chromosome annot) (t_end annot) (sam_gene_ID sam1)
        = Inr (Some lv)"
    and strand: "sam_strand sam1 = ''+'' \<or> sam_strand sam1 = ''-''"
    and sam': "sam' = sam1\<lparr>sam_diff_5 := d5, sam_diff_3 := d3\<rparr>"
    and st2: "st2 = st1\<lparr>st_counter := (st_counter st1)
                    \<lparr>counter_observed := counter_observed (st_counter st1) + 1\<rparr>,
                st_novel_ids := (st_novel_ids st1)
                    \<lparr>novel_observed :=
                       AList.update (PStr (str_int (counter_observed (st_counter st1) + 1)))
                         (PStr (str_int (counter_observed (st_counter st1) + 1)),
                          t_gene_id annot, t_identifier annot, PStr (sam_identifier sam1),
                          PStr dataset,
                          (if sam_strand sam1 = ''-'' then lv else fv),
                          (if sam_strand sam1 = ''-'' then fv else lv),
                          d5, d3, PInt (sam_length sam1))
                         (novel_observed (st_novel_ids st1))\<rparr>\<rparr>"
    by blast
  show ?thesis
    apply (rule exI [of _ sam1], rule exI [of _ annot], rule exI [of _ st1])
    apply (rule exI [of _ d5], rule exI [of _ d3], rule exI [of _ fv], rule exI [of _ lv])
    using rs fv lv strand sam' st2 st' fr
    apply (simp add: observed_id_def)
    done
qed


lemma observed_fresh:
  assumes "observed_keys_upto c rows"
  shows "observed_id c \<notin> fst ` set rows"
proof
  assume "observed_id c \<in> fst ` set rows"
  with assms obtain i where "i \<le> c" "observed_id c = PStr (str_int i)"
    unfolding observed_keys_upto_def by blast
  then have "str_int (c + 1) = str_int i" by (simp add: observed_id_def)
  from str_int_inj [OF this] \<open>i \<le> c\<close> show False by simp
qed

lemma observed_keys_step:
  assumes "observed_keys_upto c rows"
  shows "observed_keys_upto (c + 1) (AList.update (observed_id c) v rows)"
  unfolding observed_keys_upto_def
proof
  fix k assume "k \<in> fst ` set (AList.update (observed_id c) v rows)"
  then have "k = observed_id c \<or> k \<in> fst ` set rows" by (simp add: dom_update)
  then show "\<exists>i\<le>c + 1. k = PStr (str_int i)"
  proof
    assume "k = observed_id c"
    then show ?thesis by (intro exI [of _ "c + 1"]) (simp add: observed_id_def)
  next
    assume "k \<in> fst ` set rows"
    with assms obtain i where "i \<le> c" "k = PStr (str_int i)"
      unfolding observed_keys_upto_def by blast
    then show ?thesis by (intro exI [of _ i]) simp
  qed
qed

lemma identify_observed:
  assumes "identify_sam_transcripts M dataset sams st = Inr (sams', st')"
    and "observed_keys_upto (counter_observed (st_counter st)) (novel_observed (st_novel_ids st))"
  shows "counter_observed (st_counter st') = counter_observed (st_counter st) + int (length sams)
     \<and> length (novel_observed (st_novel_ids st'))
         = length (novel_observed (st_novel_ids st)) + length sams
     \<and> observed_keys_upto (counter_observed (st_counter st')) (novel_observed (st_novel_ids st'))"
  using assms
proof (induction sams arbitrary: st sams' st')
  case Nil
  then show ?case by simp
next
  case (Cons sam sams)
  then obtain s1 st1 ss where
    one: "identify_one M dataset st sam = Inr (s1, st1)"
    and rest: "identify_sam_transcripts M dataset sams st1 = Inr (ss, st')"
    by (auto split: sum.splits)
  let ?c = "counter_observed (st_counter st)"
  from identify_one_summary [OF one] obtain v where
    c1: "counter_observed (st_counter st1) = ?c + 1"
    and o1: "novel_observed (st_novel_ids st1)
             = AList.update (observed_id ?c) v (novel_observed (st_novel_ids st))"
    by auto
  have inv1: "observed_keys_upto (counter_observed (st_counter st1)) (novel_observed (st_novel_ids st1))"
    unfolding c1 o1 by (rule observed_keys_step [OF Cons.prems(2)])
  have len1: "length (novel_observed (st_novel_ids st1))
              = length (novel_observed (st_novel_ids st)) + 1"
    unfolding o1 using observed_fresh [OF Cons.prems(2)] by (simp add: length_alist_update)
  note ih = Cons.IH [OF rest inv1]
  show ?case
  proof (intro conjI)
    show "counter_observed (st_counter st') = ?c + int (length (sam # sams))"
      using ih c1 by simp
    show "length (novel_observed (st_novel_ids st'))
          = length (novel_observed (st_novel_ids st)) + length (sam # sams)"
      using ih len1 by simp
    show "observed_keys_upto (counter_observed (st_counter st')) (novel_observed (st_novel_ids st'))"
      using ih by blast
  qed
qed

subsection \<open>Worked runs\<close>



lemma toy_minus_novel:
  "\<exists>sams' st'. identify_sam_transcripts (toy_modules no_match_tracker) ''d1''
                  [toy_read ''r1'' ''-''] toy_state = Inr (sams', st')
     \<and> novel_observed (st_novel_ids st')
          = [(PStr ''1'', (PStr ''1'', PInt 2, PStr ''2'', PStr ''r1'', PStr ''d1'',
                           PInt 200, PInt 100, PInt 0, PInt 0, PInt 101))]"
  by (simp add: eval_identify)

lemma toy_plus_full:
  "\<exists>sams' st'. identify_sam_transcripts (toy_modules full_match_tracker) ''d1''
                  [toy_read ''r1'' ''+''] toy_state = Inr (sams', st')
     \<and> novel_observed (st_novel_ids st')
          = [(PStr ''1'', (PStr ''1'', PInt 1, PStr ''1'', PStr ''r1'', PStr ''d1'',
                           PInt 100, PInt 200, PInt 0, PInt 0, PInt 101))]"
  by (simp add: eval_identify)

subsection \<open>Edges stay with their gene\<close>

lemma tree_grows_refl: "tree_grows t t"
  by (simp add: tree_grows_def)

lemma tree_grows_trans: "tree_grows a b \<Longrightarrow> tree_grows b c \<Longrightarrow> tree_grows a c"
  unfolding tree_grows_def by (metis)

lemma scoped_list_grows: "scoped_list t g es \<Longrightarrow> tree_grows t t' \<Longrightarrow> scoped_list t' g es"
  unfolding scoped_list_def tree_grows_def by metis

lemma scoped_list_snoc:
  "scoped_list t g (es @ [e]) =
     (scoped_list t g es \<and> e_gene_id e = g
        \<and> (\<exists>e1. t (e_identifier e) = Some e1 \<and> e_gene_id e1 = g))"
  by (auto simp: scoped_list_def)

lemma tree_wf_mono: "tree_wf c t \<Longrightarrow> c \<le> c' \<Longrightarrow> tree_wf c' t"
  unfolding tree_wf_def by (meson order_trans)

lemma tree_wf_fresh: "tree_wf c t \<Longrightarrow> t (PInt (c + 1)) = None"
proof (rule ccontr)
  assume wf: "tree_wf c t" and "t (PInt (c + 1)) \<noteq> None"
  then obtain e0 where "t (PInt (c + 1)) = Some e0" by auto
  with wf obtain i where "i \<le> c" "PInt (c + 1) = PInt i" unfolding tree_wf_def by blast
  then show False by simp
qed

lemma mint_edge_result:
  assumes "mint_edge M sam tid b s e exs ins st = Inr (eo', exs', ins', st')"
  shows "\<exists>en. eo' = Some en
     \<and> e_identifier en = PInt (counter_edges (st_counter st) + 1)
     \<and> e_gene_id en = sam_gene_ID sam
     \<and> counter_edges (st_counter st') = counter_edges (st_counter st) + 1
     \<and> (if b then exs' = exs @ [en] \<and> ins' = ins
                  \<and> st_exon_tree st' = (st_exon_tree st)(PInt (counter_edges (st_counter st) + 1) \<mapsto> en)
                  \<and> st_intron_tree st' = st_intron_tree st
         else exs' = exs \<and> ins' = ins @ [en]
                  \<and> st_intron_tree st' = (st_intron_tree st)(PInt (counter_edges (st_counter st) + 1) \<mapsto> en)
                  \<and> st_exon_tree st' = st_exon_tree st)"
  using assms
  by (auto simp: mint_edge_def Let_def create_novel_edge_def append_edge_def add_edge_def
           split: sum.splits prod.splits if_splits)

lemma reuse_edge_result:
  assumes "reuse_edge tid b (Some e0) (EdgeId k) eo exs ins st = Inr (eo', exs', ins', st')"
  shows "\<exists>en. eo' = Some en
     \<and> e_identifier en = e_identifier e0
     \<and> e_gene_id en = e_gene_id e0
     \<and> counter_edges (st_counter st') = counter_edges (st_counter st)
     \<and> (if b then exs' = exs @ [en] \<and> ins' = ins
                  \<and> st_exon_tree st' = (st_exon_tree st)(k \<mapsto> en)
                  \<and> st_intron_tree st' = st_intron_tree st
         else exs' = exs \<and> ins' = ins @ [en]
                  \<and> st_intron_tree st' = (st_intron_tree st)(k \<mapsto> en)
                  \<and> st_exon_tree st' = st_exon_tree st)"
  using assms
  by (auto simp: reuse_edge_def Let_def append_edge_def split: if_splits)

lemma tree_grows_fresh: "t k = None \<Longrightarrow> tree_grows t (t(k \<mapsto> e))"
  by (auto simp: tree_grows_def)

lemma tree_grows_same_gene:
  "t k = Some e0 \<Longrightarrow> e_gene_id e = e_gene_id e0 \<Longrightarrow> tree_grows t (t(k \<mapsto> e))"
  by (auto simp: tree_grows_def)

lemma tree_wf_insert:
  "tree_wf c t \<Longrightarrow> e_identifier e = PInt (c + 1) \<Longrightarrow> tree_wf (c + 1) (t(PInt (c + 1) \<mapsto> e))"
  unfolding tree_wf_def by (auto intro: exI [of _ "c + 1"]) (metis add.commute add_increasing zero_le_one)+

lemma tree_wf_replace:
  "tree_wf c t \<Longrightarrow> t k = Some e0 \<Longrightarrow> e_identifier e = e_identifier e0 \<Longrightarrow> tree_wf c (t(k \<mapsto> e))"
  unfolding tree_wf_def by auto

lemma mint_inv:
  assumes inv: "loop_inv g exs ins st"
    and g: "g = sam_gene_ID sam"
    and run: "mint_edge M sam tid b s e exs ins st = Inr (eo', exs', ins', st')"
  shows "loop_inv g exs' ins' st'
     \<and> tree_grows (st_exon_tree st) (st_exon_tree st')
     \<and> tree_grows (st_intron_tree st) (st_intron_tree st')"
proof -
  let ?c = "counter_edges (st_counter st)"
  let ?k = "PInt (?c + 1)"
  from inv have wfe: "tree_wf ?c (st_exon_tree st)" and wfi: "tree_wf ?c (st_intron_tree st)"
    and dj: "dom (st_exon_tree st) \<inter> dom (st_intron_tree st) = {}"
    and se: "scoped_list (st_exon_tree st) g exs" and si: "scoped_list (st_intron_tree st) g ins"
    by (simp_all add: loop_inv_def edges_wf_def)
  note fe = tree_wf_fresh [OF wfe] and fi = tree_wf_fresh [OF wfi]
  from mint_edge_result [OF run] obtain en where
    id: "e_identifier en = ?k" and gn: "e_gene_id en = sam_gene_ID sam"
    and c': "counter_edges (st_counter st') = ?c + 1"
    and sh: "(if b then exs' = exs @ [en] \<and> ins' = ins
                  \<and> st_exon_tree st' = (st_exon_tree st)(?k \<mapsto> en)
                  \<and> st_intron_tree st' = st_intron_tree st
         else exs' = exs \<and> ins' = ins @ [en]
                  \<and> st_intron_tree st' = (st_intron_tree st)(?k \<mapsto> en)
                  \<and> st_exon_tree st' = st_exon_tree st)"
    by blast
  show ?thesis
  proof (cases b)
    case True
    with sh have ex': "st_exon_tree st' = (st_exon_tree st)(?k \<mapsto> en)"
      and in': "st_intron_tree st' = st_intron_tree st" and l: "exs' = exs @ [en]" "ins' = ins"
      by simp_all
    have ge: "tree_grows (st_exon_tree st) (st_exon_tree st')"
      unfolding ex' by (rule tree_grows_fresh) (rule fe)
    have gi: "tree_grows (st_intron_tree st) (st_intron_tree st')"
      unfolding in' by (rule tree_grows_refl)
    have w1: "tree_wf (?c + 1) (st_exon_tree st')" unfolding ex' by (rule tree_wf_insert) (rule wfe, rule id)
    have w2: "tree_wf (?c + 1) (st_intron_tree st')" unfolding in' by (rule tree_wf_mono [OF wfi]) simp
    have d: "dom (st_exon_tree st') \<inter> dom (st_intron_tree st') = {}"
      unfolding ex' in' using dj fi by (auto simp: domIff)
    have s1: "scoped_list (st_exon_tree st') g exs'"
      unfolding l scoped_list_snoc using scoped_list_grows [OF se ge] gn g id ex' by simp
    have s2: "scoped_list (st_intron_tree st') g ins'"
      unfolding l using scoped_list_grows [OF si gi] .
    from w1 w2 d s1 s2 ge gi c' show ?thesis by (simp add: loop_inv_def edges_wf_def)
  next
    case False
    with sh have in': "st_intron_tree st' = (st_intron_tree st)(?k \<mapsto> en)"
      and ex': "st_exon_tree st' = st_exon_tree st" and l: "exs' = exs" "ins' = ins @ [en]"
      by simp_all
    have gi: "tree_grows (st_intron_tree st) (st_intron_tree st')"
      unfolding in' by (rule tree_grows_fresh) (rule fi)
    have ge: "tree_grows (st_exon_tree st) (st_exon_tree st')"
      unfolding ex' by (rule tree_grows_refl)
    have w1: "tree_wf (?c + 1) (st_intron_tree st')" unfolding in' by (rule tree_wf_insert) (rule wfi, rule id)
    have w2: "tree_wf (?c + 1) (st_exon_tree st')" unfolding ex' by (rule tree_wf_mono [OF wfe]) simp
    have d: "dom (st_exon_tree st') \<inter> dom (st_intron_tree st') = {}"
      unfolding ex' in' using dj fe by (auto simp: domIff)
    have s1: "scoped_list (st_intron_tree st') g ins'"
      unfolding l scoped_list_snoc using scoped_list_grows [OF si gi] gn g id in' by simp
    have s2: "scoped_list (st_exon_tree st') g exs'"
      unfolding l using scoped_list_grows [OF se ge] .
    from w1 w2 d s1 s2 ge gi c' show ?thesis by (simp add: loop_inv_def edges_wf_def)
  qed
qed

lemma reuse_inv:
  assumes inv: "loop_inv g exs ins st"
    and found: "(if b then st_exon_tree st else st_intron_tree st) k = Some e0"
    and gene: "e_gene_id e0 = g"
    and run: "reuse_edge tid b (Some e0) (EdgeId k) eo exs ins st = Inr (eo', exs', ins', st')"
  shows "loop_inv g exs' ins' st'
     \<and> tree_grows (st_exon_tree st) (st_exon_tree st')
     \<and> tree_grows (st_intron_tree st) (st_intron_tree st')"
proof -
  let ?c = "counter_edges (st_counter st)"
  from inv have wfe: "tree_wf ?c (st_exon_tree st)" and wfi: "tree_wf ?c (st_intron_tree st)"
    and dj: "dom (st_exon_tree st) \<inter> dom (st_intron_tree st) = {}"
    and se: "scoped_list (st_exon_tree st) g exs" and si: "scoped_list (st_intron_tree st) g ins"
    by (simp_all add: loop_inv_def edges_wf_def)
  from reuse_edge_result [OF run] obtain en where
    id: "e_identifier en = e_identifier e0" and gn: "e_gene_id en = e_gene_id e0"
    and c': "counter_edges (st_counter st') = ?c"
    and sh: "(if b then exs' = exs @ [en] \<and> ins' = ins
                  \<and> st_exon_tree st' = (st_exon_tree st)(k \<mapsto> en)
                  \<and> st_intron_tree st' = st_intron_tree st
         else exs' = exs \<and> ins' = ins @ [en]
                  \<and> st_intron_tree st' = (st_intron_tree st)(k \<mapsto> en)
                  \<and> st_exon_tree st' = st_exon_tree st)"
    by blast
  show ?thesis
  proof (cases b)
    case True
    with found have f: "st_exon_tree st k = Some e0" by simp
    from wfe f have idk: "e_identifier e0 = k" unfolding tree_wf_def by blast
    from True sh have ex': "st_exon_tree st' = (st_exon_tree st)(k \<mapsto> en)"
      and in': "st_intron_tree st' = st_intron_tree st" and l: "exs' = exs @ [en]" "ins' = ins"
      by simp_all
    have ge: "tree_grows (st_exon_tree st) (st_exon_tree st')"
      unfolding ex' by (rule tree_grows_same_gene) (rule f, rule gn)
    have gi: "tree_grows (st_intron_tree st) (st_intron_tree st')"
      unfolding in' by (rule tree_grows_refl)
    have w1: "tree_wf ?c (st_exon_tree st')" unfolding ex' by (rule tree_wf_replace) (rule wfe, rule f, rule id)
    have w2: "tree_wf ?c (st_intron_tree st')" unfolding in' by (rule wfi)
    have d: "dom (st_exon_tree st') \<inter> dom (st_intron_tree st') = {}"
      unfolding ex' in' using dj f by (auto simp: domIff)
    have s1: "scoped_list (st_exon_tree st') g exs'"
      unfolding l scoped_list_snoc using scoped_list_grows [OF se ge] gn gene id idk ex' by simp
    have s2: "scoped_list (st_intron_tree st') g ins'"
      unfolding l using scoped_list_grows [OF si gi] .
    from w1 w2 d s1 s2 ge gi c' show ?thesis by (simp add: loop_inv_def edges_wf_def)
  next
    case False
    with found have f: "st_intron_tree st k = Some e0" by simp
    from wfi f have idk: "e_identifier e0 = k" unfolding tree_wf_def by blast
    from False sh have in': "st_intron_tree st' = (st_intron_tree st)(k \<mapsto> en)"
      and ex': "st_exon_tree st' = st_exon_tree st" and l: "exs' = exs" "ins' = ins @ [en]"
      by simp_all
    have gi: "tree_grows (st_intron_tree st) (st_intron_tree st')"
      unfolding in' by (rule tree_grows_same_gene) (rule f, rule gn)
    have ge: "tree_grows (st_exon_tree st) (st_exon_tree st')"
      unfolding ex' by (rule tree_grows_refl)
    have w1: "tree_wf ?c (st_intron_tree st')" unfolding in' by (rule tree_wf_replace) (rule wfi, rule f, rule id)
    have w2: "tree_wf ?c (st_exon_tree st')" unfolding ex' by (rule wfe)
    have d: "dom (st_exon_tree st') \<inter> dom (st_intron_tree st') = {}"
      unfolding ex' in' using dj f by (auto simp: domIff)
    have s1: "scoped_list (st_intron_tree st') g ins'"
      unfolding l scoped_list_snoc using scoped_list_grows [OF si gi] gn gene id idk in' by simp
    have s2: "scoped_list (st_exon_tree st') g exs'"
      unfolding l using scoped_list_grows [OF se ge] .
    from w1 w2 d s1 s2 ge gi c' show ?thesis by (simp add: loop_inv_def edges_wf_def)
  qed
qed

lemma novel_edge_step_cases:
  assumes step: "novel_edge_step M sam tid i ((s, e), em) (eo, exs, ins, st) = Inr r"
    and g: "sam_gene_ID sam \<noteq> PNone"
  shows "mint_edge M sam tid (i mod 2 = 0) s e exs ins st = Inr r
     \<or> (\<exists>k e0. em = EdgeId k
            \<and> (if i mod 2 = 0 then st_exon_tree st else st_intron_tree st) k = Some e0
            \<and> e_gene_id e0 = sam_gene_ID sam
            \<and> reuse_edge tid (i mod 2 = 0) (Some e0) (EdgeId k) eo exs ins st = Inr r)"
proof (cases em)
  case (EdgeObj x)
  with step g show ?thesis by (simp add: novel_edge_step_def Let_def)
next
  case (EdgeId k)
  let ?tree = "if i mod 2 = 0 then st_exon_tree st else st_intron_tree st"
  show ?thesis
  proof (cases "?tree k")
    case None
    with step g EdgeId show ?thesis by (simp add: novel_edge_step_def Let_def)
  next
    case (Some e0)
    show ?thesis
    proof (cases "e_gene_id e0 \<noteq> sam_gene_ID sam \<or> k = PNone")
      case True
      with step EdgeId Some have "mint_edge M sam tid (i mod 2 = 0) s e exs ins st = Inr r"
        by (auto simp: novel_edge_step_def Let_def split: if_splits)
      then show ?thesis by blast
    next
      case False
      with step EdgeId Some
      have "reuse_edge tid (i mod 2 = 0) (Some e0) (EdgeId k) eo exs ins st = Inr r"
        by (auto simp: novel_edge_step_def Let_def split: if_splits)
      with False EdgeId Some show ?thesis by blast
    qed
  qed
qed

lemma novel_edge_step_inv:
  assumes inv: "loop_inv (sam_gene_ID sam) exs ins st"
    and g: "sam_gene_ID sam \<noteq> PNone"
    and step: "novel_edge_step M sam tid i pair (eo, exs, ins, st) = Inr (eo', exs', ins', st')"
  shows "loop_inv (sam_gene_ID sam) exs' ins' st'
     \<and> tree_grows (st_exon_tree st) (st_exon_tree st')
     \<and> tree_grows (st_intron_tree st) (st_intron_tree st')"
proof -
  obtain s e em where p: "pair = ((s, e), em)" by (metis prod.exhaust)
  from novel_edge_step_cases [OF step [unfolded p] g]
  show ?thesis
  proof
    assume "mint_edge M sam tid (i mod 2 = 0) s e exs ins st = Inr (eo', exs', ins', st')"
    from mint_inv [OF inv refl this] show ?thesis .
  next
    assume "\<exists>k e0. em = EdgeId k
            \<and> (if i mod 2 = 0 then st_exon_tree st else st_intron_tree st) k = Some e0
            \<and> e_gene_id e0 = sam_gene_ID sam
            \<and> reuse_edge tid (i mod 2 = 0) (Some e0) (EdgeId k) eo exs ins st
                = Inr (eo', exs', ins', st')"
    then obtain k e0 where
      f: "(if i mod 2 = 0 then st_exon_tree st else st_intron_tree st) k = Some e0"
      and ge: "e_gene_id e0 = sam_gene_ID sam"
      and r: "reuse_edge tid (i mod 2 = 0) (Some e0) (EdgeId k) eo exs ins st
                = Inr (eo', exs', ins', st')"
      by blast
    from reuse_inv [OF inv f ge r] show ?thesis .
  qed
qed

lemma novel_edges_loop_inv:
  assumes "loop_inv (sam_gene_ID sam) exs ins st"
    and "sam_gene_ID sam \<noteq> PNone"
    and "novel_edges_loop M sam tid i pairs (eo, exs, ins, st) = Inr (eo', exs', ins', st')"
  shows "loop_inv (sam_gene_ID sam) exs' ins' st'
     \<and> tree_grows (st_exon_tree st) (st_exon_tree st')
     \<and> tree_grows (st_intron_tree st) (st_intron_tree st')"
  using assms
proof (induction pairs arbitrary: i eo exs ins st)
  case Nil
  then show ?case by (simp add: tree_grows_refl)
next
  case (Cons p ps)
  from Cons.prems(3) obtain eo1 exs1 ins1 st1 where
    1: "novel_edge_step M sam tid i p (eo, exs, ins, st) = Inr (eo1, exs1, ins1, st1)"
    and 2: "novel_edges_loop M sam tid (Suc i) ps (eo1, exs1, ins1, st1) = Inr (eo', exs', ins', st')"
    by (auto split: sum.splits)
  note s1 = novel_edge_step_inv [OF Cons.prems(1) Cons.prems(2) 1]
  from s1 have i1: "loop_inv (sam_gene_ID sam) exs1 ins1 st1" by blast
  note s2 = Cons.IH [OF i1 Cons.prems(2) 2]
  from s1 s2 show ?case by (blast intro: tree_grows_trans)
qed

lemma make_novel_transcript_scoped:
  assumes wf: "edges_wf st"
    and g: "sam_gene_ID sam \<noteq> PNone"
    and run: "make_novel_transcript M sam ems st = Inr (sam', T, st')"
  shows "edges_wf st'" and "transcript_scoped st' T" and "t_gene_id T = sam_gene_ID sam"
    and "tree_grows (st_exon_tree st) (st_exon_tree st')"
    and "tree_grows (st_intron_tree st) (st_intron_tree st')"
proof -
  from run obtain eo exs ins st1 where
    loop: "novel_edges_loop M sam (PStr (str_int (counter_transcripts (st_counter st) + 1))) 0
             (zip (sam_all_edges sam) ems) (None, [], [], st) = Inr (eo, exs, ins, st1)"
    and res: "(sam', T, st') =
        (let (annot, counter') = create_novel_transcript (sam_chromosome sam) (e_start (hd exs))
                  (e_end (last exs)) (sam_strand sam) (sam_gene_ID sam) (st_counter st1) exs ins
         in (sam\<lparr>sam_transcript_ID := t_identifier annot\<rparr>, annot, st1\<lparr>st_counter := counter'\<rparr>))"
    by (auto simp: make_novel_transcript_def Let_def split: sum.splits prod.splits if_splits)
  have inv0: "loop_inv (sam_gene_ID sam) [] [] st"
    using wf by (simp add: loop_inv_def scoped_list_def)
  note l = novel_edges_loop_inv [OF inv0 g loop]
  from res have T: "t_exons T = exs" "t_introns T = ins" "t_gene_id T = sam_gene_ID sam"
    and st': "st_exon_tree st' = st_exon_tree st1" "st_intron_tree st' = st_intron_tree st1"
             "counter_edges (st_counter st') = counter_edges (st_counter st1)"
    by (simp_all add: create_novel_transcript_def Let_def)
  from l st' show "edges_wf st'" by (simp add: loop_inv_def edges_wf_def)
  from l st' T show "transcript_scoped st' T" by (simp add: loop_inv_def transcript_scoped_def)
  from T show "t_gene_id T = sam_gene_ID sam" by simp
  from l st' show "tree_grows (st_exon_tree st) (st_exon_tree st')"
    and "tree_grows (st_intron_tree st) (st_intron_tree st')" by simp_all
qed

lemma transcript_scoped_grows:
  assumes "transcript_scoped st T"
    and "tree_grows (st_exon_tree st) (st_exon_tree st')"
    and "tree_grows (st_intron_tree st) (st_intron_tree st')"
  shows "transcript_scoped st' T"
  using assms unfolding transcript_scoped_def by (blast intro: scoped_list_grows)

lemma scoped_share_no_edge:
  assumes wf: "edges_wf st"
    and s1: "transcript_scoped st T1" and s2: "transcript_scoped st T2"
    and ne: "t_gene_id T1 \<noteq> t_gene_id T2"
  shows "edge_ids T1 \<inter> edge_ids T2 = {}"
proof (rule ccontr)
  assume "edge_ids T1 \<inter> edge_ids T2 \<noteq> {}"
  then obtain k where k1: "k \<in> edge_ids T1" and k2: "k \<in> edge_ids T2" by blast
  from wf have dj: "dom (st_exon_tree st) \<inter> dom (st_intron_tree st) = {}"
    by (simp add: edges_wf_def)
  have loc: "\<And>T. transcript_scoped st T \<Longrightarrow> k \<in> edge_ids T \<Longrightarrow>
      (\<exists>e1. st_exon_tree st k = Some e1 \<and> e_gene_id e1 = t_gene_id T)
    \<or> (\<exists>e1. st_intron_tree st k = Some e1 \<and> e_gene_id e1 = t_gene_id T)"
    unfolding transcript_scoped_def scoped_list_def edge_ids_def by auto
  from loc [OF s1 k1] loc [OF s2 k2] dj ne show False
    by (auto simp: domIff)
qed

lemma mismatched_match_is_minted:
  assumes step: "novel_edge_step M sam tid i ((s, e), EdgeId k) (eo, exs, ins, st)
                   = Inr (eo', exs', ins', st')"
    and found: "(if i mod 2 = 0 then st_exon_tree st else st_intron_tree st) k = Some m"
    and diff: "e_gene_id m \<noteq> sam_gene_ID sam"
  shows "\<exists>en. eo' = Some en
     \<and> e_identifier en = PInt (counter_edges (st_counter st) + 1)
     \<and> e_gene_id en = sam_gene_ID sam
     \<and> counter_edges (st_counter st') = counter_edges (st_counter st) + 1
     \<and> (if i mod 2 = 0 then exs' = exs @ [en] \<and> ins' = ins
         else exs' = exs \<and> ins' = ins @ [en])
     \<and> (edges_wf st \<longrightarrow>
           e_identifier en \<noteq> k
         \<and> (if i mod 2 = 0 then st_exon_tree st' else st_intron_tree st') k = Some m)"
proof -
  let ?c = "counter_edges (st_counter st)"
  from step found diff
  have mint: "mint_edge M sam tid (i mod 2 = 0) s e exs ins st = Inr (eo', exs', ins', st')"
    by (auto simp: novel_edge_step_def Let_def split: if_splits)
  from mint_edge_result [OF mint] obtain en where
    en: "eo' = Some en" "e_identifier en = PInt (?c + 1)" "e_gene_id en = sam_gene_ID sam"
        "counter_edges (st_counter st') = ?c + 1"
    and sh: "(if i mod 2 = 0 then exs' = exs @ [en] \<and> ins' = ins
                  \<and> st_exon_tree st' = (st_exon_tree st)(PInt (?c + 1) \<mapsto> en)
                  \<and> st_intron_tree st' = st_intron_tree st
         else exs' = exs \<and> ins' = ins @ [en]
                  \<and> st_intron_tree st' = (st_intron_tree st)(PInt (?c + 1) \<mapsto> en)
                  \<and> st_exon_tree st' = st_exon_tree st)"
    by blast
  have w: "edges_wf st \<longrightarrow>
           e_identifier en \<noteq> k
         \<and> (if i mod 2 = 0 then st_exon_tree st' else st_intron_tree st') k = Some m"
  proof
    assume wf: "edges_wf st"
    then have "tree_wf ?c (if i mod 2 = 0 then st_exon_tree st else st_intron_tree st)"
      by (simp add: edges_wf_def)
    from tree_wf_fresh [OF this] found have "k \<noteq> PInt (?c + 1)" by auto
    with en(2) sh found show "e_identifier en \<noteq> k
         \<and> (if i mod 2 = 0 then st_exon_tree st' else st_intron_tree st') k = Some m"
      by (auto split: if_splits)
  qed
  from en sh w show ?thesis by (auto split: if_splits)
qed

lemma toy_wf: "edges_wf toy_state"
  by (simp add: edges_wf_def tree_wf_def toy_state_def toy_exon_def)

lemma toy_scoped: "transcript_scoped toy_state toy_transcript"
  by (simp add: transcript_scoped_def scoped_list_def toy_state_def toy_transcript_def toy_exon_def)

lemma toy_other_gene_run:
  "\<exists>sam' T st'. make_novel_transcript (toy_modules no_match_tracker)
                   ((toy_read ''r2'' ''+'')\<lparr>sam_gene_ID := PInt 2\<rparr>) [EdgeId (PInt 1)] toy_state
                 = Inr (sam', T, st')
      \<and> map e_identifier (t_exons T) = [PInt 2]
      \<and> map (\<lambda>e. (e_start e, e_end e)) (t_exons T) = [(100, 200)]
      \<and> t_introns T = []"
  by (simp add: make_novel_transcript_def novel_edge_step_def mint_edge_def reuse_edge_def
        append_edge_def create_novel_edge_def create_novel_transcript_def add_edge_def
        set_add_def toy_modules_def toy_read_def toy_state_def toy_transcript_def toy_exon_def
        Let_def str_int_def str_nat.simps digit_char_def)

subsection \<open>The claims about the identification\<close>

text \<open>
  C4, as the code has it.  For a read without a full match that
  \<open>identify_sam_transcripts\<close> gets through: with exactly one exon the candidate gene
  is the gene of the best partial match when there is a partial match, and none
  otherwise (the gene tree is not searched by overlap); with any other number of exons
  the candidate is what \<open>Vertex.search_for_gene\<close> finds by position, whatever the
  partial match.  Without a candidate a novel gene spanning the read's coordinates is
  minted, the gene counter going up by one, and it is in the gene tree right away; with
  a candidate the read gets the identifier of the gene stored under it, and counter and
  gene tree stay as they are.
\<close>

theorem gene_of_read_without_full_match:
  "match_tracker M sam (st_transcripts st) (st_exon_tree st) (st_intron_tree st) = Inr tr
   \<and> full_matches tr = []
   \<and> resolve_identity M dataset st sam = Inr (sam', annot, st') \<longrightarrow>
   (\<exists>gid.
      (if sam_n_exons sam = 1
       then gid = (if partial_matches tr \<noteq> [] then t_gene_id (best_partial_match tr) else PNone)
       else search_for_gene M (sam\<lparr>sam_novel := PStr ''Novel''\<rparr>) (st_vertices st) = Inr gid)
    \<and> (if gid = PNone
       then sam_gene_ID sam' = PInt (counter_genes (st_counter st) + 1)
          \<and> counter_genes (st_counter st') = counter_genes (st_counter st) + 1
          \<and> st_gene_tree st' =
              AList.update (sam_gene_ID sam')
                \<lparr>g_identifier = sam_gene_ID sam', g_chromosome = sam_chromosome sam,
                 g_start = sam_start sam, g_end = sam_end sam, g_strand = sam_strand sam\<rparr>
                (st_gene_tree st)
       else (\<exists>g. map_of (st_gene_tree st) gid = Some g \<and> sam_gene_ID sam' = g_identifier g)
          \<and> counter_genes (st_counter st') = counter_genes (st_counter st)
          \<and> st_gene_tree st' = st_gene_tree st))"
  using gene_rule [of M sam st tr dataset sam' annot st'] by blast

lemma toy_novel_gene_run:
  "\<exists>sam' T st'. resolve_identity (toy_modules no_match_tracker) ''d1'' toy_state
                   toy_inner_read = Inr (sam', T, st')"
  by (simp add: eval_identify toy_inner_read_def)

theorem gene_of_read_without_full_match_witness:
  "\<exists>sam' T st'. resolve_identity (toy_modules no_match_tracker) ''d1'' toy_state
                   toy_inner_read = Inr (sam', T, st')
     \<and> sam_gene_ID sam' = PInt 2
     \<and> counter_genes (st_counter st') = 2
     \<and> map_of (st_gene_tree st') (PInt 2)
         = Some \<lparr>g_identifier = PInt 2, g_chromosome = ''chr1'', g_start = 300, g_end = 400,
                 g_strand = ''+''\<rparr>"
proof -
  from toy_novel_gene_run obtain sam' T st' where
    run: "resolve_identity (toy_modules no_match_tracker) ''d1'' toy_state
            toy_inner_read = Inr (sam', T, st')" by blast
  have tr: "match_tracker (toy_modules no_match_tracker) toy_inner_read
              (st_transcripts toy_state) (st_exon_tree toy_state) (st_intron_tree toy_state)
            = Inr no_match_tracker"
    by (simp add: toy_modules_def)
  have nf: "full_matches no_match_tracker = []" and np: "partial_matches no_match_tracker = []"
    by (simp_all add: no_match_tracker_def)
  have one: "sam_n_exons toy_inner_read = 1" by (simp add: toy_inner_read_def toy_read_def)
  from gene_of_read_without_full_match
         [of "toy_modules no_match_tracker" toy_inner_read toy_state no_match_tracker
             "''d1''" sam' T st'] tr nf run one np
  have "sam_gene_ID sam' = PInt (counter_genes (st_counter toy_state) + 1)
      \<and> counter_genes (st_counter st') = counter_genes (st_counter toy_state) + 1
      \<and> st_gene_tree st' =
          AList.update (sam_gene_ID sam')
            \<lparr>g_identifier = sam_gene_ID sam', g_chromosome = sam_chromosome toy_inner_read,
             g_start = sam_start toy_inner_read, g_end = sam_end toy_inner_read,
             g_strand = sam_strand toy_inner_read\<rparr>
            (st_gene_tree toy_state)"
    by simp
  then have "sam_gene_ID sam' = PInt 2 \<and> counter_genes (st_counter st') = 2
     \<and> map_of (st_gene_tree st') (PInt 2)
         = Some \<lparr>g_identifier = PInt 2, g_chromosome = ''chr1'', g_start = 300, g_end = 400,
                 g_strand = ''+''\<rparr>"
    by (simp add: toy_state_def toy_inner_read_def toy_read_def)
  with run show ?thesis by blast
qed

text \<open>
  C4 as the claim states it fails: a read with one exon that matches no known edge, and
  so has no partial match, lies inside the known gene 1; the overlap search of the Gene
  Locus Index finds gene 1, yet \<open>identify_sam_transcripts\<close> gives the read the newly
  minted gene 2.
\<close>

theorem single_exon_read_is_not_searched_by_overlap:
  "sam_n_exons toy_inner_read = 1
   \<and> match_tracker (toy_modules no_match_tracker) toy_inner_read
        (st_transcripts toy_state) (st_exon_tree toy_state) (st_intron_tree toy_state)
      = Inr no_match_tracker
   \<and> full_matches no_match_tracker = []
   \<and> partial_matches no_match_tracker = []
   \<and> find_gene_by_overlap (st_gene_tree toy_state) (sam_chromosome toy_inner_read)
       (sam_start toy_inner_read) (sam_end toy_inner_read) (sam_strand toy_inner_read)
     = PInt 1
   \<and> map sam_gene_ID
        (fst (projr (identify_sam_transcripts (toy_modules no_match_tracker) ''d1''
                       [toy_inner_read] toy_state))) = [PInt 2]"
proof -
  have a: "sam_n_exons toy_inner_read = 1" by (simp add: toy_inner_read_def toy_read_def)
  have b: "match_tracker (toy_modules no_match_tracker) toy_inner_read
        (st_transcripts toy_state) (st_exon_tree toy_state) (st_intron_tree toy_state)
      = Inr no_match_tracker" by (simp add: toy_modules_def)
  have c: "full_matches no_match_tracker = [] \<and> partial_matches no_match_tracker = []"
    by (simp add: no_match_tracker_def)
  have d: "find_gene_by_overlap (st_gene_tree toy_state) (sam_chromosome toy_inner_read)
       (sam_start toy_inner_read) (sam_end toy_inner_read) (sam_strand toy_inner_read)
     = PInt 1"
    by (simp add: find_gene_by_overlap_def toy_state_def toy_inner_read_def toy_read_def)
  have e: "map sam_gene_ID
        (fst (projr (identify_sam_transcripts (toy_modules no_match_tracker) ''d1''
                       [toy_inner_read] toy_state))) = [PInt 2]"
    by (simp add: eval_identify toy_inner_read_def)
  from a b c d e show ?thesis by simp
qed

text \<open>
  C6.  Whatever the tracker reports (full, partial or no match), a read that
  \<open>identify_sam_transcripts\<close> gets through raises the observed counter by exactly one
  and stages one record under the identifier made of the new counter value; the record
  starts with that identifier, and its start and end vertex are the vertices at the start
  and the end of the assigned transcript on strand \<open>+\<close> and the other way round on strand
  \<open>-\<close> (no other strand gets through).  When every staged key is the string of an
  integer up to the counter, as at the start of a run, that identifier is new: over a
  list of reads the counter and the number of staged records both grow by the number of
  reads.
\<close>

theorem one_observed_record_per_read:
  "(identify_one M dataset st sam = Inr (sam', st') \<longrightarrow>
      (\<exists>sam1 annot st1 d5 d3 fv lv.
          resolve_identity M dataset st sam = Inr (sam1, annot, st1)
        \<and> fetch_vertex M (st_vertices st1) (t_chromosome annot) (t_start annot)
            (sam_gene_ID sam1) = Inr (Some fv)
        \<and> fetch_vertex M (st_vertices st1) (t_chromosome annot) (t_end annot)
            (sam_gene_ID sam1) = Inr (Some lv)
        \<and> (sam_strand sam = ''+'' \<or> sam_strand sam = ''-'')
        \<and> counter_observed (st_counter st') = counter_observed (st_counter st) + 1
        \<and> novel_observed (st_novel_ids st') =
            AList.update (observed_id (counter_observed (st_counter st)))
              (observed_id (counter_observed (st_counter st)),
               t_gene_id annot, t_identifier annot, PStr (sam_identifier sam), PStr dataset,
               (if sam_strand sam = ''-'' then lv else fv),
               (if sam_strand sam = ''-'' then fv else lv),
               d5, d3, PInt (sam_length sam))
              (novel_observed (st_novel_ids st))))
   \<and> (identify_sam_transcripts M dataset sams st0 = Inr (sams', st2)
        \<and> observed_keys_upto (counter_observed (st_counter st0))
             (novel_observed (st_novel_ids st0)) \<longrightarrow>
        counter_observed (st_counter st2)
          = counter_observed (st_counter st0) + int (length sams)
      \<and> length (novel_observed (st_novel_ids st2))
          = length (novel_observed (st_novel_ids st0)) + length sams
      \<and> observed_keys_upto (counter_observed (st_counter st2))
           (novel_observed (st_novel_ids st2)))"
proof (rule conjI)
  show "identify_one M dataset st sam = Inr (sam', st') \<longrightarrow>
      (\<exists>sam1 annot st1 d5 d3 fv lv.
          resolve_identity M dataset st sam = Inr (sam1, annot, st1)
        \<and> fetch_vertex M (st_vertices st1) (t_chromosome annot) (t_start annot)
            (sam_gene_ID sam1) = Inr (Some fv)
        \<and> fetch_vertex M (st_vertices st1) (t_chromosome annot) (t_end annot)
            (sam_gene_ID sam1) = Inr (Some lv)
        \<and> (sam_strand sam = ''+'' \<or> sam_strand sam = ''-'')
        \<and> counter_observed (st_counter st') = counter_observed (st_counter st) + 1
        \<and> novel_observed (st_novel_ids st') =
            AList.update (observed_id (counter_observed (st_counter st)))
              (observed_id (counter_observed (st_counter st)),
               t_gene_id annot, t_identifier annot, PStr (sam_identifier sam), PStr dataset,
               (if sam_strand sam = ''-'' then lv else fv),
               (if sam_strand sam = ''-'' then fv else lv),
               d5, d3, PInt (sam_length sam))
              (novel_observed (st_novel_ids st)))"
  proof (rule impI)
    assume "identify_one M dataset st sam = Inr (sam', st')"
    from identify_one_summary [OF this] show "\<exists>sam1 annot st1 d5 d3 fv lv.
          resolve_identity M dataset st sam = Inr (sam1, annot, st1)
        \<and> fetch_vertex M (st_vertices st1) (t_chromosome annot) (t_start annot)
            (sam_gene_ID sam1) = Inr (Some fv)
        \<and> fetch_vertex M (st_vertices st1) (t_chromosome annot) (t_end annot)
            (sam_gene_ID sam1) = Inr (Some lv)
        \<and> (sam_strand sam = ''+'' \<or> sam_strand sam = ''-'')
        \<and> counter_observed (st_counter st') = counter_observed (st_counter st) + 1
        \<and> novel_observed (st_novel_ids st') =
            AList.update (observed_id (counter_observed (st_counter st)))
              (observed_id (counter_observed (st_counter st)),
               t_gene_id annot, t_identifier annot, PStr (sam_identifier sam), PStr dataset,
               (if sam_strand sam = ''-'' then lv else fv),
               (if sam_strand sam = ''-'' then fv else lv),
               d5, d3, PInt (sam_length sam))
              (novel_observed (st_novel_ids st))"
      by blast
  qed
next
  show "identify_sam_transcripts M dataset sams st0 = Inr (sams', st2)
        \<and> observed_keys_upto (counter_observed (st_counter st0))
             (novel_observed (st_novel_ids st0)) \<longrightarrow>
        counter_observed (st_counter st2)
          = counter_observed (st_counter st0) + int (length sams)
      \<and> length (novel_observed (st_novel_ids st2))
          = length (novel_observed (st_novel_ids st0)) + length sams
      \<and> observed_keys_upto (counter_observed (st_counter st2))
           (novel_observed (st_novel_ids st2))"
    using identify_observed [of M dataset sams st0 sams' st2] by blast
qed

theorem one_observed_record_per_read_witness:
  "(\<exists>sams' st'. identify_sam_transcripts (toy_modules no_match_tracker) ''d1''
                  [toy_read ''r1'' ''-''] toy_state = Inr (sams', st')
      \<and> novel_observed (st_novel_ids st')
          = [(PStr ''1'', (PStr ''1'', PInt 2, PStr ''2'', PStr ''r1'', PStr ''d1'',
                           PInt 200, PInt 100, PInt 0, PInt 0, PInt 101))]
      \<and> counter_observed (st_counter st') = 1)
   \<and> (\<exists>sams' st'. identify_sam_transcripts (toy_modules full_match_tracker) ''d1''
                  [toy_read ''r1'' ''+''] toy_state = Inr (sams', st')
      \<and> novel_observed (st_novel_ids st')
          = [(PStr ''1'', (PStr ''1'', PInt 1, PStr ''1'', PStr ''r1'', PStr ''d1'',
                           PInt 100, PInt 200, PInt 0, PInt 0, PInt 101))]
      \<and> counter_observed (st_counter st') = 1)"
proof -
  have inv: "observed_keys_upto (counter_observed (st_counter toy_state))
               (novel_observed (st_novel_ids toy_state))"
    by (simp add: observed_keys_upto_def toy_state_def)
  have c0: "counter_observed (st_counter toy_state) = 0" by (simp add: toy_state_def)
  from toy_minus_novel obtain s1 st1 where
    r1: "identify_sam_transcripts (toy_modules no_match_tracker) ''d1''
            [toy_read ''r1'' ''-''] toy_state = Inr (s1, st1)"
    and o1: "novel_observed (st_novel_ids st1)
          = [(PStr ''1'', (PStr ''1'', PInt 2, PStr ''2'', PStr ''r1'', PStr ''d1'',
                           PInt 200, PInt 100, PInt 0, PInt 0, PInt 101))]" by blast
  from toy_plus_full obtain s2 st2 where
    r2: "identify_sam_transcripts (toy_modules full_match_tracker) ''d1''
            [toy_read ''r1'' ''+''] toy_state = Inr (s2, st2)"
    and o2: "novel_observed (st_novel_ids st2)
          = [(PStr ''1'', (PStr ''1'', PInt 1, PStr ''1'', PStr ''r1'', PStr ''d1'',
                           PInt 100, PInt 200, PInt 0, PInt 0, PInt 101))]" by blast
  from one_observed_record_per_read
         [of "toy_modules no_match_tracker" "''d1''" _ _ _ _ "[toy_read ''r1'' ''-'']"
             toy_state s1 st1] r1 inv c0
  have k1: "counter_observed (st_counter st1) = 1" by simp
  from one_observed_record_per_read
         [of "toy_modules full_match_tracker" "''d1''" _ _ _ _ "[toy_read ''r1'' ''+'']"
             toy_state s2 st2] r2 inv c0
  have k2: "counter_observed (st_counter st2) = 1" by simp
  from r1 o1 k1 r2 o2 k2 show ?thesis by blast
qed



text \<open>
  C5.  In the loop of \<open>make_novel_transcript\<close>, a per-edge match that is in the edge
  tree under a gene other than the one assigned to the read is not reused: the iteration
  creates an edge under the assigned gene, with the identifier made of the raised edge
  counter, and appends that one; in well-formed trees the identifier differs from the
  match's and the matched edge stays as it is.  For a read with an assigned gene, in
  well-formed trees, \<open>make_novel_transcript\<close> keeps the trees well-formed, every edge of
  the transcript it returns belongs to the assigned gene, in the transcript and in the
  tree, and transcripts that were gene-scoped before still are.  Two gene-scoped
  transcripts of different genes share no edge identifier, whatever their coordinates.
\<close>

theorem edges_are_gene_scoped:
  "(novel_edge_step M sam tid i ((s, e), EdgeId k) (eo, exs, ins, st) = Inr (eo', exs', ins', st')
      \<and> (if i mod 2 = 0 then st_exon_tree st else st_intron_tree st) k = Some m
      \<and> e_gene_id m \<noteq> sam_gene_ID sam \<longrightarrow>
      (\<exists>en. eo' = Some en
         \<and> e_identifier en = PInt (counter_edges (st_counter st) + 1)
         \<and> e_gene_id en = sam_gene_ID sam
         \<and> counter_edges (st_counter st') = counter_edges (st_counter st) + 1
         \<and> (if i mod 2 = 0 then exs' = exs @ [en] \<and> ins' = ins
             else exs' = exs \<and> ins' = ins @ [en])
         \<and> (edges_wf st \<longrightarrow>
               e_identifier en \<noteq> k
             \<and> (if i mod 2 = 0 then st_exon_tree st' else st_intron_tree st') k = Some m)))
   \<and> (edges_wf st0 \<and> sam_gene_ID sam2 \<noteq> PNone
        \<and> make_novel_transcript M sam2 ems st0 = Inr (sam2', T, st2) \<longrightarrow>
        edges_wf st2 \<and> transcript_scoped st2 T \<and> t_gene_id T = sam_gene_ID sam2
      \<and> (\<forall>T0. transcript_scoped st0 T0 \<longrightarrow> transcript_scoped st2 T0))
   \<and> (edges_wf st3 \<and> transcript_scoped st3 T1 \<and> transcript_scoped st3 T2
        \<and> t_gene_id T1 \<noteq> t_gene_id T2 \<longrightarrow>
        edge_ids T1 \<inter> edge_ids T2 = {})"
proof (intro conjI)
  show "novel_edge_step M sam tid i ((s, e), EdgeId k) (eo, exs, ins, st) = Inr (eo', exs', ins', st')
      \<and> (if i mod 2 = 0 then st_exon_tree st else st_intron_tree st) k = Some m
      \<and> e_gene_id m \<noteq> sam_gene_ID sam \<longrightarrow>
      (\<exists>en. eo' = Some en
         \<and> e_identifier en = PInt (counter_edges (st_counter st) + 1)
         \<and> e_gene_id en = sam_gene_ID sam
         \<and> counter_edges (st_counter st') = counter_edges (st_counter st) + 1
         \<and> (if i mod 2 = 0 then exs' = exs @ [en] \<and> ins' = ins
             else exs' = exs \<and> ins' = ins @ [en])
         \<and> (edges_wf st \<longrightarrow>
               e_identifier en \<noteq> k
             \<and> (if i mod 2 = 0 then st_exon_tree st' else st_intron_tree st') k = Some m))"
    using mismatched_match_is_minted [of M sam tid i s e k eo exs ins st eo' exs' ins' st' m]
    by blast
next
  show "edges_wf st0 \<and> sam_gene_ID sam2 \<noteq> PNone
        \<and> make_novel_transcript M sam2 ems st0 = Inr (sam2', T, st2) \<longrightarrow>
        edges_wf st2 \<and> transcript_scoped st2 T \<and> t_gene_id T = sam_gene_ID sam2
      \<and> (\<forall>T0. transcript_scoped st0 T0 \<longrightarrow> transcript_scoped st2 T0)"
  proof (rule impI)
    assume a: "edges_wf st0 \<and> sam_gene_ID sam2 \<noteq> PNone
        \<and> make_novel_transcript M sam2 ems st0 = Inr (sam2', T, st2)"
    then have wf: "edges_wf st0" and g: "sam_gene_ID sam2 \<noteq> PNone"
      and run: "make_novel_transcript M sam2 ems st0 = Inr (sam2', T, st2)" by simp_all
    note r = make_novel_transcript_scoped [OF wf g run]
    have keep: "\<forall>T0. transcript_scoped st0 T0 \<longrightarrow> transcript_scoped st2 T0"
      using transcript_scoped_grows [OF _ r(4) r(5)] by blast
    from r(1) r(2) r(3) keep
    show "edges_wf st2 \<and> transcript_scoped st2 T \<and> t_gene_id T = sam_gene_ID sam2
      \<and> (\<forall>T0. transcript_scoped st0 T0 \<longrightarrow> transcript_scoped st2 T0)"
      by blast
  qed
next
  show "edges_wf st3 \<and> transcript_scoped st3 T1 \<and> transcript_scoped st3 T2
        \<and> t_gene_id T1 \<noteq> t_gene_id T2 \<longrightarrow>
        edge_ids T1 \<inter> edge_ids T2 = {}"
    using scoped_share_no_edge [of st3 T1 T2] by blast
qed

theorem edges_are_gene_scoped_witness:
  "\<exists>sam' T st'. make_novel_transcript (toy_modules no_match_tracker)
                   ((toy_read ''r2'' ''+'')\<lparr>sam_gene_ID := PInt 2\<rparr>) [EdgeId (PInt 1)] toy_state
                 = Inr (sam', T, st')
      \<and> map e_identifier (t_exons T) = [PInt 2]
      \<and> map (\<lambda>e. (e_start e, e_end e)) (t_exons T)
          = map (\<lambda>e. (e_start e, e_end e)) (t_exons toy_transcript)
      \<and> t_gene_id T = PInt 2 \<and> t_gene_id toy_transcript = PInt 1
      \<and> edge_ids T \<inter> edge_ids toy_transcript = {}"
proof -
  let ?sam = "(toy_read ''r2'' ''+'')\<lparr>sam_gene_ID := PInt 2\<rparr>"
  from toy_other_gene_run obtain sam' T st' where
    run: "make_novel_transcript (toy_modules no_match_tracker) ?sam [EdgeId (PInt 1)] toy_state
            = Inr (sam', T, st')"
    and ids: "map e_identifier (t_exons T) = [PInt 2]"
    and co: "map (\<lambda>e. (e_start e, e_end e)) (t_exons T) = [(100, 200)]"
    by auto
  have g: "sam_gene_ID ?sam \<noteq> PNone" and g2: "sam_gene_ID ?sam = PInt 2" by simp_all
  have second: "edges_wf toy_state \<and> sam_gene_ID ?sam \<noteq> PNone
        \<and> make_novel_transcript (toy_modules no_match_tracker) ?sam [EdgeId (PInt 1)] toy_state
            = Inr (sam', T, st') \<longrightarrow>
        edges_wf st' \<and> transcript_scoped st' T \<and> t_gene_id T = sam_gene_ID ?sam
      \<and> (\<forall>T0. transcript_scoped toy_state T0 \<longrightarrow> transcript_scoped st' T0)"
    by (rule edges_are_gene_scoped
         [where M = "toy_modules no_match_tracker" and ?st0.0 = toy_state and ?sam2.0 = ?sam
            and ems = "[EdgeId (PInt 1)]" and sam2' = sam' and T = T and ?st2.0 = st',
          THEN conjunct2, THEN conjunct1])
  with toy_wf g run g2
  have wf': "edges_wf st'" and sc: "transcript_scoped st' T" and tg: "t_gene_id T = PInt 2"
    and keep: "\<forall>T0. transcript_scoped toy_state T0 \<longrightarrow> transcript_scoped st' T0"
    by simp_all
  from keep toy_scoped have sc0: "transcript_scoped st' toy_transcript" by blast
  have g1: "t_gene_id toy_transcript = PInt 1" by (simp add: toy_transcript_def)
  have third: "edges_wf st' \<and> transcript_scoped st' T \<and> transcript_scoped st' toy_transcript
        \<and> t_gene_id T \<noteq> t_gene_id toy_transcript \<longrightarrow>
        edge_ids T \<inter> edge_ids toy_transcript = {}"
    by (rule edges_are_gene_scoped
         [where M = "toy_modules no_match_tracker" and ?st3.0 = st' and ?T1.0 = T
            and ?T2.0 = toy_transcript,
          THEN conjunct2, THEN conjunct2])
  with wf' sc sc0 tg g1
  have dj: "edge_ids T \<inter> edge_ids toy_transcript = {}" by simp
  have co0: "map (\<lambda>e. (e_start e, e_end e)) (t_exons toy_transcript) = [(100, 200)]"
    by (simp add: toy_transcript_def toy_exon_def)
  from run ids co co0 tg g1 dj show ?thesis by auto
qed

end
